(* ===== verification/Prelude.thy ===== *)
theory Prelude
  imports Main "HOL-Library.Word" "HOL-Library.Sublist" "HOL-Library.List_Lexorder"
begin

text \<open>
  Shared vocabulary of the development: the type synonyms that name the program's
  machine types, the outcome of a blocking task, the few slice operations of Rust that
  every component uses (\<open>strip_prefix\<close>, \<open>starts_with\<close>, \<open>split\<close>, \<open>split_once\<close>,
  \<open>contains\<close>), and the lemmas on byte lists, options and sorted association lists that
  the component proofs share.  The collections \<open>rust_defs\<close>, \<open>domain_defs\<close>,
  \<open>repo_defs\<close> and \<open>http_defs\<close> gather the definitional equations a component's proofs
  and witnesses unfold.
\<close>

named_theorems rust_defs
named_theorems domain_defs
named_theorems repo_defs
named_theorems http_defs

section \<open>Machine types\<close>

type_synonym byte = "8 word"
type_synonym bytes = "byte list"
type_synonym str = "byte list"
type_synonym i64 = "64 word"
type_synonym u64 = "64 word"
type_synonym instant = int

text \<open>
  A Rust \<open>str\<close> is its UTF-8 bytes.  \<open>bs\<close> turns an ASCII literal into them.
\<close>

definition bs :: "string \<Rightarrow> bytes" where
  "bs s = map of_char s"

text \<open>
  What \<open>tokio::task::spawn_blocking\<close> delivers for a closure: its value, or the join
  error of a closure that panicked.
\<close>

datatype 'a run = Done 'a | Panicked

section \<open>Results\<close>

text \<open>
  \<open>Result::and_then\<close>, the meaning of a chain of \<open>?\<close>: the first error ends it.
\<close>

fun and_then :: "'e + 'a \<Rightarrow> ('a \<Rightarrow> 'e + 'b) \<Rightarrow> 'e + 'b" where
  "and_then (Inl e) f = Inl e"
| "and_then (Inr x) f = f x"

lemma and_then_Inr: "and_then r f = Inr y \<longleftrightarrow> (\<exists>x. r = Inr x \<and> f x = Inr y)"
  by (cases r) auto

lemma and_then_assoc: "and_then (and_then r f) g = and_then r (\<lambda>x. and_then (f x) g)"
  by (cases r) auto

section \<open>Slices\<close>

definition starts_with :: "'a list \<Rightarrow> 'a list \<Rightarrow> bool" where
  "starts_with s p \<longleftrightarrow> take (length p) s = p"

definition strip_prefix :: "'a list \<Rightarrow> 'a list \<Rightarrow> 'a list option" where
  "strip_prefix p s = (if starts_with s p then Some (drop (length p) s) else None)"

definition ends_with :: "'a list \<Rightarrow> 'a list \<Rightarrow> bool" where
  "ends_with s p \<longleftrightarrow> starts_with (rev s) (rev p)"

fun contains_sub :: "'a list \<Rightarrow> 'a list \<Rightarrow> bool" where
  "contains_sub [] p = (p = [])"
| "contains_sub (x # xs) p = (starts_with (x # xs) p \<or> contains_sub xs p)"

fun split_once :: "'a \<Rightarrow> 'a list \<Rightarrow> ('a list \<times> 'a list) option" where
  "split_once c [] = None"
| "split_once c (x # xs) =
     (if x = c then Some ([], xs)
      else (case split_once c xs of None \<Rightarrow> None | Some (a, b) \<Rightarrow> Some (x # a, b)))"

fun split_on :: "'a \<Rightarrow> 'a list \<Rightarrow> 'a list list" where
  "split_on c [] = [[]]"
| "split_on c (x # xs) =
     (if x = c then [] # split_on c xs
      else (case split_on c xs of [] \<Rightarrow> [[x]] | y # ys \<Rightarrow> (x # y) # ys))"

lemmas [rust_defs] = bs_def starts_with_def strip_prefix_def ends_with_def

lemma starts_with_prefix: "starts_with s p \<longleftrightarrow> prefix p s"
  by (metis append_eq_conv_conj prefix_def starts_with_def take_is_prefix)

lemma starts_with_append [simp]: "starts_with (p @ s) p"
  by (simp add: starts_with_def)

lemma starts_with_Nil [simp]: "starts_with s []"
  by (simp add: starts_with_def)

lemma starts_with_append_iff: "starts_with (p @ s) (p @ q) \<longleftrightarrow> starts_with s q"
  by (simp add: starts_with_def)

lemma starts_with_trans: "starts_with a b \<Longrightarrow> starts_with b c \<Longrightarrow> starts_with a c"
  by (auto simp: starts_with_prefix)

lemma starts_with_linear:
  "starts_with k a \<Longrightarrow> starts_with k b \<Longrightarrow> starts_with a b \<or> starts_with b a"
  using prefix_same_cases by (auto simp: starts_with_prefix)

lemma strip_prefix_append [simp]: "strip_prefix p (p @ s) = Some s"
  by (simp add: strip_prefix_def)

lemma strip_prefix_Some_iff: "strip_prefix p s = Some r \<longleftrightarrow> s = p @ r"
  by (auto simp: strip_prefix_def starts_with_def) (metis append_take_drop_id)

lemma split_once_Some_iff:
  "split_once c s = Some (a, b) \<longleftrightarrow> s = a @ c # b \<and> c \<notin> set a"
proof (induction s arbitrary: a)
  case Nil
  then show ?case by simp
next
  case (Cons x xs)
  show ?case
  proof (cases a)
    case Nil
    then show ?thesis by (auto split: option.splits)
  next
    case (Cons y ys)
    then show ?thesis using Cons.IH [of ys] by (auto split: option.splits)
  qed
qed

lemma split_once_None_iff: "split_once c s = None \<longleftrightarrow> c \<notin> set s"
  by (induction s) (auto split: option.splits)

lemma split_once_fresh [simp]:
  "c \<notin> set a \<Longrightarrow> split_once c (a @ c # b) = Some (a, b)"
  by (simp add: split_once_Some_iff)

lemma split_on_not_Nil [simp]: "split_on c s \<noteq> []"
  by (induction s) (auto split: list.splits)

lemma sep_injective:
  assumes "a @ c # x = b @ c # y" and "c \<notin> set a" and "c \<notin> set b"
  shows "a = b \<and> x = y"
proof -
  have "split_once c (a @ c # x) = Some (a, x)" and "split_once c (b @ c # y) = Some (b, y)"
    using assms(2,3) by simp_all
  then show ?thesis unfolding assms(1) by simp
qed

section \<open>Arithmetic\<close>

lemma mult_le_iff_le_div:
  assumes "0 < (n::int)"
  shows "a * n \<le> b \<longleftrightarrow> a \<le> b div n"
proof
  assume "a * n \<le> b"
  then have "a * n div n \<le> b div n" using assms by (rule zdiv_mono1)
  then show "a \<le> b div n" using assms by simp
next
  assume "a \<le> b div n"
  then have "a * n \<le> b div n * n" using assms by (simp add: mult_right_mono)
  also have "\<dots> \<le> b" using pos_mod_sign [OF assms, of b] by (simp add: minus_mod_eq_div_mult [symmetric])
  finally show "a * n \<le> b" .
qed

section \<open>The byte-lexicographic order\<close>

lemma list_less_append_same [simp]: "((xs::bytes) @ ys < xs @ zs) = (ys < zs)"
  by (induction xs) auto

lemma list_less_append_eqlen:
  "length xs = length ys \<Longrightarrow> xs < ys \<Longrightarrow> (xs::bytes) @ a < ys @ b"
  by (induction xs ys rule: list_induct2) auto

lemma sorted_wrt_less_distinct:
  "sorted_wrt (<) (map fst (xs :: (bytes \<times> 'b) list)) \<Longrightarrow> distinct (map fst xs)"
  by (simp add: strict_sorted_iff)

lemma sorted_keys_unique:
  assumes "sorted_wrt (<) (map fst (xs :: (bytes \<times> 'b) list))"
    and "sorted_wrt (<) (map fst ys)" and "set xs = set ys"
  shows "xs = ys"
proof -
  have d: "distinct (map fst xs)" using assms(1) by (simp add: strict_sorted_iff)
  have m: "map fst xs = map fst ys"
    using assms by (metis set_map strict_sorted_equal)
  have "inj_on fst (set xs \<union> set ys)"
    using d assms(3) by (simp add: distinct_map)
  with m show ?thesis by (rule map_inj_on)
qed

end
