(* ===== verification/Rust_Std.thy ===== *)
theory Rust_Std
  imports Prelude
begin

text \<open>
  The parts of Rust's standard library the program computes with: UTF-8 validation
  (\<open>std::str::from_utf8\<close>), Unicode trimming (\<open>str::trim\<close>), ASCII case folding,
  \<open>i64\<close>/\<open>u64\<close> parsing, \<open>i64\<close> formatting and checked addition.  Every function is
  executable; the lemmas are the facts the components need: parsing inverts printing,
  the digits of a printed integer are ASCII and hence valid UTF-8, trimming a text without
  white space at its ends is the identity, and the printed length is bounded.
\<close>

section \<open>UTF-8\<close>

definition is_cont :: "byte \<Rightarrow> bool" where
  "is_cont b \<longleftrightarrow> 0x80 \<le> b \<and> b \<le> 0xBF"

definition between :: "byte \<Rightarrow> byte \<Rightarrow> byte \<Rightarrow> bool" where
  "between lo hi b \<longleftrightarrow> lo \<le> b \<and> b \<le> hi"

text \<open>
  The second byte admitted after a lead byte (Unicode table 3-7): it excludes overlong
  forms, surrogates and code points above U+10FFFF.
\<close>

definition second_ok :: "byte \<Rightarrow> byte \<Rightarrow> bool" where
  "second_ok b0 b1 =
     (if b0 = 0xE0 then between 0xA0 0xBF b1
      else if b0 = 0xED then between 0x80 0x9F b1
      else if b0 = 0xF0 then between 0x90 0xBF b1
      else if b0 = 0xF4 then between 0x80 0x8F b1
      else is_cont b1)"

text \<open>The number of bytes a lead byte announces; 0 for a byte that cannot start a character.\<close>

definition utf8_width :: "byte \<Rightarrow> nat" where
  "utf8_width b0 =
     (if b0 < 0x80 then 1
      else if between 0xC2 0xDF b0 then 2
      else if between 0xE0 0xEF b0 then 3
      else if between 0xF0 0xF4 b0 then 4
      else 0)"

fun utf8_valid :: "bytes \<Rightarrow> bool" where
  "utf8_valid [] = True"
| "utf8_valid (b0 # r) =
     (if utf8_width b0 = 1 then utf8_valid r
      else if utf8_width b0 = 2 then
        (case r of b1 # r1 \<Rightarrow> second_ok b0 b1 \<and> utf8_valid r1 | _ \<Rightarrow> False)
      else if utf8_width b0 = 3 then
        (case r of b1 # b2 # r2 \<Rightarrow> second_ok b0 b1 \<and> is_cont b2 \<and> utf8_valid r2 | _ \<Rightarrow> False)
      else if utf8_width b0 = 4 then
        (case r of b1 # b2 # b3 # r3 \<Rightarrow>
             second_ok b0 b1 \<and> is_cont b2 \<and> is_cont b3 \<and> utf8_valid r3
         | _ \<Rightarrow> False)
      else False)"

definition from_utf8 :: "bytes \<Rightarrow> str option" where
  "from_utf8 b = (if utf8_valid b then Some b else None)"

text \<open>
  \<open>String::from_utf8_lossy\<close>: every maximal ill-formed piece becomes one U+FFFD.
\<close>

definition REPLACEMENT :: bytes where "REPLACEMENT = [0xEF, 0xBF, 0xBD]"

fun from_utf8_lossy :: "bytes \<Rightarrow> str" where
  "from_utf8_lossy [] = []"
| "from_utf8_lossy (b0 # r) =
     (if utf8_width b0 = 1 then b0 # from_utf8_lossy r
      else if utf8_width b0 = 0 then REPLACEMENT @ from_utf8_lossy r
      else
        (case r of
           [] \<Rightarrow> REPLACEMENT
         | b1 # r1 \<Rightarrow>
             if \<not> second_ok b0 b1 then REPLACEMENT @ from_utf8_lossy (b1 # r1)
             else if utf8_width b0 = 2 then b0 # b1 # from_utf8_lossy r1
             else
               (case r1 of
                  [] \<Rightarrow> REPLACEMENT
                | b2 # r2 \<Rightarrow>
                    if \<not> is_cont b2 then REPLACEMENT @ from_utf8_lossy (b2 # r2)
                    else if utf8_width b0 = 3 then b0 # b1 # b2 # from_utf8_lossy r2
                    else
                      (case r2 of
                         [] \<Rightarrow> REPLACEMENT
                       | b3 # r3 \<Rightarrow>
                           if \<not> is_cont b3 then REPLACEMENT @ from_utf8_lossy (b3 # r3)
                           else b0 # b1 # b2 # b3 # from_utf8_lossy r3))))"

declare from_utf8_lossy.simps(2) [simp del]

definition is_ascii :: "bytes \<Rightarrow> bool" where
  "is_ascii s \<longleftrightarrow> (\<forall>b \<in> set s. b < 0x80)"

lemma ascii_utf8_valid: "is_ascii s \<Longrightarrow> utf8_valid s"
  by (induction s) (auto simp: is_ascii_def utf8_width_def)

lemma from_utf8_Some [simp]: "from_utf8 b = Some s \<longleftrightarrow> utf8_valid b \<and> s = b"
  by (auto simp: from_utf8_def)

lemma from_utf8_valid [simp]: "utf8_valid b \<Longrightarrow> from_utf8 b = Some b"
  by simp

section \<open>White space\<close>

text \<open>The UTF-8 forms of the characters with the Unicode property White\_Space.\<close>

definition ws_seqs :: "bytes list" where
  "ws_seqs =
     [[0x09], [0x0A], [0x0B], [0x0C], [0x0D], [0x20],
      [0xC2, 0x85], [0xC2, 0xA0], [0xE1, 0x9A, 0x80]] @
     map (\<lambda>b. [0xE2, 0x80, b])
       [0x80, 0x81, 0x82, 0x83, 0x84, 0x85, 0x86, 0x87, 0x88, 0x89, 0x8A, 0xA8, 0xA9, 0xAF] @
     [[0xE2, 0x81, 0x9F], [0xE3, 0x80, 0x80]]"

function strip_seqs :: "bytes list \<Rightarrow> bytes \<Rightarrow> bytes" where
  "strip_seqs ws s =
     (case find (\<lambda>w. w \<noteq> [] \<and> starts_with s w) ws of
        None \<Rightarrow> s
      | Some w \<Rightarrow> strip_seqs ws (drop (length w) s))"
  by pat_completeness auto
termination
  by (relation "measure (\<lambda>(ws, s). length s)")
    (auto simp: find_Some_iff starts_with_prefix dest!: prefix_length_le intro!: diff_less)

declare strip_seqs.simps [simp del]

definition trim_start :: "str \<Rightarrow> str" where
  "trim_start s = strip_seqs ws_seqs s"

definition trim_end :: "str \<Rightarrow> str" where
  "trim_end s = rev (strip_seqs (map rev ws_seqs) (rev s))"

definition trim :: "str \<Rightarrow> str" where
  "trim s = trim_end (trim_start s)"

text \<open>A printable, non-blank ASCII byte: no white-space sequence starts or ends with it.\<close>

definition is_graph :: "byte \<Rightarrow> bool" where
  "is_graph b \<longleftrightarrow> 0x20 < b \<and> b < 0x7F"

lemma strip_seqs_keep:
  assumes "\<And>w. w \<in> set ws \<Longrightarrow> w \<noteq> [] \<Longrightarrow> \<not> starts_with s w"
  shows "strip_seqs ws s = s"
proof -
  have "find (\<lambda>w. w \<noteq> [] \<and> starts_with s w) ws = None"
    using assms by (auto simp: find_None_iff)
  then show ?thesis by (simp add: strip_seqs.simps [of ws s])
qed

lemma graph_not_ws_head:
  "is_graph b \<Longrightarrow> w \<in> set ws_seqs \<Longrightarrow> w \<noteq> [] \<Longrightarrow> hd w \<noteq> b"
  by (auto simp: ws_seqs_def is_graph_def)

lemma graph_not_ws_last:
  "is_graph b \<Longrightarrow> w \<in> set ws_seqs \<Longrightarrow> w \<noteq> [] \<Longrightarrow> last w \<noteq> b"
  by (auto simp: ws_seqs_def is_graph_def)

lemma trim_start_graph: "is_graph b \<Longrightarrow> trim_start (b # s) = b # s"
  unfolding trim_start_def
  by (rule strip_seqs_keep) (use graph_not_ws_head in \<open>fastforce simp: starts_with_prefix prefix_Cons\<close>)

lemma trim_end_graph: "is_graph b \<Longrightarrow> trim_end (s @ [b]) = s @ [b]"
proof -
  assume g: "is_graph b"
  have "strip_seqs (map rev ws_seqs) (b # rev s) = b # rev s"
  proof (rule strip_seqs_keep)
    fix w assume "w \<in> set (map rev ws_seqs)" and "w \<noteq> []"
    then obtain v where "v \<in> set ws_seqs" "w = rev v" "v \<noteq> []" by auto
    moreover from this have "hd w \<noteq> b" using graph_not_ws_last [OF g] by (simp add: hd_rev)
    ultimately show "\<not> starts_with (b # rev s) w"
      by (metis list.sel(1) prefix_Cons starts_with_prefix rev_is_Nil_conv)
  qed
  then show ?thesis by (simp add: trim_end_def)
qed

lemma trim_graph:
  assumes "s \<noteq> []" and "is_graph (hd s)" and "is_graph (last s)"
  shows "trim s = s"
proof -
  have "trim_start s = s" using assms(1,2) trim_start_graph by (metis list.exhaust_sel)
  moreover have "trim_end s = s"
    using assms(1,3) trim_end_graph by (metis append_butlast_last_id)
  ultimately show ?thesis by (simp add: trim_def)
qed

section \<open>ASCII case\<close>

definition to_ascii_lowercase :: "str \<Rightarrow> str" where
  "to_ascii_lowercase = map (\<lambda>b. if between 0x41 0x5A b then b + 0x20 else b)"

section \<open>Integers\<close>

definition is_digit :: "byte \<Rightarrow> bool" where
  "is_digit b \<longleftrightarrow> between 0x30 0x39 b"

definition digit_val :: "byte \<Rightarrow> nat" where
  "digit_val b = unat b - 0x30"

definition dec_val :: "bytes \<Rightarrow> nat" where
  "dec_val ds = foldl (\<lambda>a d. 10 * a + digit_val d) 0 ds"

definition all_digits :: "bytes \<Rightarrow> bool" where
  "all_digits ds \<longleftrightarrow> ds \<noteq> [] \<and> list_all is_digit ds"

text \<open>
  \<open>i64::from_str\<close>: an optional sign, at least one decimal digit, nothing else, and a value
  within the type's range.
\<close>

definition i64_min :: int where "i64_min = - (2 ^ 63)"
definition i64_max :: int where "i64_max = 2 ^ 63 - 1"

definition int_of_digits :: "bool \<Rightarrow> bytes \<Rightarrow> i64 option" where
  "int_of_digits neg ds =
     (if all_digits ds then
        (let v = (if neg then - int (dec_val ds) else int (dec_val ds))
         in if i64_min \<le> v \<and> v \<le> i64_max then Some (of_int v) else None)
      else None)"

definition parse_i64 :: "str \<Rightarrow> i64 option" where
  "parse_i64 s =
     (case s of
        [] \<Rightarrow> None
      | c # r \<Rightarrow>
          if c = 0x2D then int_of_digits True r
          else if c = 0x2B then int_of_digits False r
          else int_of_digits False s)"

definition parse_u64 :: "str \<Rightarrow> u64 option" where
  "parse_u64 s =
     (let r = (case s of c # r \<Rightarrow> if c = 0x2B then r else s | [] \<Rightarrow> [])
      in if all_digits r \<and> dec_val r < 2 ^ 64 then Some (of_nat (dec_val r)) else None)"

fun show_nat :: "nat \<Rightarrow> bytes" where
  "show_nat n = (if n < 10 then [0x30 + of_nat n] else show_nat (n div 10) @ [0x30 + of_nat (n mod 10)])"

declare show_nat.simps [simp del]

definition show_int :: "int \<Rightarrow> bytes" where
  "show_int i = (if i < 0 then 0x2D # show_nat (nat (- i)) else show_nat (nat i))"

definition show_i64 :: "i64 \<Rightarrow> str" where
  "show_i64 i = show_int (sint i)"

text \<open>\<open>i64::checked_add\<close>.\<close>

definition checked_add_i64 :: "i64 \<Rightarrow> i64 \<Rightarrow> i64 option" where
  "checked_add_i64 a b =
     (let s = sint a + sint b in if i64_min \<le> s \<and> s \<le> i64_max then Some (of_int s) else None)"

lemma sint_range_i64: "i64_min \<le> sint (x :: i64) \<and> sint x \<le> i64_max"
  using sint_range_size [of x] by (simp add: i64_min_def i64_max_def word_size)

lemma sint_of_int_i64:
  "i64_min \<le> v \<Longrightarrow> v \<le> i64_max \<Longrightarrow> sint (of_int v :: i64) = v"
  by (simp add: i64_min_def i64_max_def signed_of_int signed_take_bit_int_eq_self)

lemma of_int_sint_i64 [simp]: "(of_int (sint (x :: i64)) :: i64) = x"
  by simp

lemma checked_add_i64_Some:
  "checked_add_i64 a b = Some c \<longleftrightarrow>
     i64_min \<le> sint a + sint b \<and> sint a + sint b \<le> i64_max \<and> sint c = sint a + sint b"
proof -
  have "(of_int (sint a + sint b) = c) \<longleftrightarrow> sint c = sint a + sint b"
    if "i64_min \<le> sint a + sint b" "sint a + sint b \<le> i64_max"
    using sint_of_int_i64 [OF that] by (metis of_int_sint_i64)
  then show ?thesis by (auto simp: checked_add_i64_def Let_def simp del: of_int_add split: if_splits)
qed

lemma digit_byte:
  assumes "d < 10"
  shows "is_digit (0x30 + of_nat d)" and "digit_val (0x30 + of_nat d) = d"
proof -
  have u: "unat (0x30 + of_nat d :: byte) = 0x30 + d"
    using assms by (simp add: unat_word_ariths unat_of_nat)
  show "digit_val (0x30 + of_nat d) = d" using u by (simp add: digit_val_def)
  show "is_digit (0x30 + of_nat d)"
    using u assms by (simp add: is_digit_def between_def word_le_nat_alt)
qed

lemma dec_val_snoc [simp]: "dec_val (ds @ [d]) = 10 * dec_val ds + digit_val d"
  by (simp add: dec_val_def)

lemma show_nat_not_Nil [simp]: "show_nat n \<noteq> []"
  by (subst show_nat.simps) simp

lemma show_nat_correct: "list_all is_digit (show_nat n) \<and> dec_val (show_nat n) = n"
proof (induction n rule: show_nat.induct)
  case (1 n)
  show ?case
  proof (cases "n < 10")
    case True
    then show ?thesis
      by (simp add: show_nat.simps [of n] digit_byte dec_val_def)
  next
    case False
    then show ?thesis
      using "1.IH" by (simp add: show_nat.simps [of n] digit_byte)
  qed
qed

lemma all_digits_show_nat [simp]: "all_digits (show_nat n)"
  by (simp add: all_digits_def show_nat_correct)

lemma dec_val_show_nat [simp]: "dec_val (show_nat n) = n"
  by (simp add: show_nat_correct)

lemma is_digit_not_sign: "is_digit b \<Longrightarrow> b \<noteq> 0x2D \<and> b \<noteq> 0x2B"
  by (auto simp: is_digit_def between_def)

lemma is_digit_graph: "is_digit b \<Longrightarrow> is_graph b"
  by (auto simp: is_digit_def between_def is_graph_def word_less_nat_alt word_le_nat_alt)

lemma show_nat_length: "0 < k \<Longrightarrow> n < 10 ^ k \<Longrightarrow> length (show_nat n) \<le> k"
proof (induction n arbitrary: k rule: show_nat.induct)
  case (1 n)
  show ?case
  proof (cases "n < 10")
    case True
    then show ?thesis using "1.prems"(1) by (simp add: show_nat.simps [of n])
  next
    case False
    obtain j where k: "k = Suc j" using "1.prems"(1) by (cases k) auto
    with False "1.prems"(2) have "j \<noteq> 0" by (cases "j = 0") simp_all
    with k have j: "k = Suc j" "0 < j" by simp_all
    then have "n div 10 < 10 ^ j" using "1.prems"(2) by simp
    then have "length (show_nat (n div 10)) \<le> j" using "1.IH" False j(2) by blast
    then show ?thesis using False j by (simp add: show_nat.simps [of n])
  qed
qed

lemma int_of_digits_show:
  "i64_min \<le> v \<Longrightarrow> v \<le> i64_max \<Longrightarrow> int_of_digits (v < 0) (show_nat (nat \<bar>v\<bar>)) = Some (of_int v)"
  by (auto simp: int_of_digits_def Let_def)

theorem parse_show_i64: "parse_i64 (show_i64 i) = Some i"
proof -
  let ?v = "sint i"
  have r: "i64_min \<le> ?v" "?v \<le> i64_max" using sint_range_i64 by simp_all
  have d: "int_of_digits (?v < 0) (show_nat (nat \<bar>?v\<bar>)) = Some i"
    using int_of_digits_show [OF r] by simp
  show ?thesis
  proof (cases "?v < 0")
    case True
    then show ?thesis using d by (simp add: parse_i64_def show_i64_def show_int_def)
  next
    case False
    then obtain c t where c: "show_nat (nat ?v) = c # t" by (cases "show_nat (nat ?v)") auto
    then have "is_digit c" using show_nat_correct [of "nat ?v"] by simp
    then show ?thesis
      using d c False is_digit_not_sign [of c] by (simp add: parse_i64_def show_i64_def show_int_def)
  qed
qed

lemma show_int_graph: "s = show_int i \<Longrightarrow> s \<noteq> [] \<and> list_all is_graph s"
  using show_nat_correct is_digit_graph
  by (auto simp: show_int_def list_all_iff is_graph_def)

lemma graph_list_trim: "s \<noteq> [] \<Longrightarrow> list_all is_graph s \<Longrightarrow> trim s = s"
  by (rule trim_graph) (auto simp: list_all_iff)

lemma graph_list_utf8: "list_all is_graph s \<Longrightarrow> utf8_valid s"
  by (rule ascii_utf8_valid) (auto simp: is_ascii_def is_graph_def list_all_iff word_less_nat_alt)

lemma trim_show_i64 [simp]: "trim (show_i64 i) = show_i64 i"
  using show_int_graph by (simp add: show_i64_def graph_list_trim)

lemma utf8_show_i64 [simp]: "utf8_valid (show_i64 i)"
  using show_int_graph by (simp add: show_i64_def graph_list_utf8)

lemma show_i64_length: "length (show_i64 i) \<le> 20"
proof -
  have "nat \<bar>sint i\<bar> < 10 ^ 19"
    using sint_range_i64 [of i] by (auto simp: i64_min_def i64_max_def)
  then have "length (show_nat (nat \<bar>sint i\<bar>)) \<le> 19" by (rule show_nat_length [rotated]) simp
  then show ?thesis by (auto simp: show_i64_def show_int_def)
qed

end
