(* ===== verification/Domain.thy ===== *)
theory Domain
  imports Rust_Std
begin

text \<open>
  The crate \<open>keydock-domain\<close> without its counters: bucket ids (\<open>bucket.rs\<close>), keys
  (\<open>key.rs\<close>), stored values (\<open>value.rs\<close>), permission flags (\<open>permission.rs\<close>), bucket
  policies (\<open>policy.rs\<close>), token claims (\<open>token.rs\<close>), the domain errors (\<open>error.rs\<close>) and
  the length-checked byte deserializers (\<open>serde_bytes.rs\<close>).  The invariants \<open>key_ok\<close> and
  \<open>value_ok\<close> are what the constructors establish; the lemmas say that every constructor
  yields exactly the values within its limit, and how the permission lattice and the
  anonymous-access derivation behave.
\<close>

section \<open>Errors\<close>

datatype domain_error =
    InvalidBucketId string
  | KeyTooLong nat nat
  | ValueTooLong nat nat
  | InvalidTtl string
  | InvalidCounterOp string

section \<open>Bucket ids\<close>

datatype bucket_id = BucketId (as_str: str)

definition BucketId_new :: "str \<Rightarrow> domain_error + bucket_id" where
  "BucketId_new s = (if s = [] then Inl (InvalidBucketId ''empty'') else Inr (BucketId s))"

section \<open>Keys\<close>

definition MAX_KEY_BYTES :: nat where "MAX_KEY_BYTES = 128"

datatype key = Key (as_bytes: bytes)

definition Key_from_bytes :: "bytes \<Rightarrow> domain_error + key" where
  "Key_from_bytes data =
     (if MAX_KEY_BYTES < length data then Inl (KeyTooLong MAX_KEY_BYTES (length data))
      else Inr (Key data))"

definition key_ok :: "key \<Rightarrow> bool" where
  "key_ok k \<longleftrightarrow> length (as_bytes k) \<le> MAX_KEY_BYTES"

text \<open>Keys in the order the database iterates them: by their bytes.\<close>

instantiation key :: linorder
begin

definition less_eq_key :: "key \<Rightarrow> key \<Rightarrow> bool" where
  "less_eq_key k k' \<longleftrightarrow> as_bytes k \<le> as_bytes k'"

definition less_key :: "key \<Rightarrow> key \<Rightarrow> bool" where
  "less_key k k' \<longleftrightarrow> as_bytes k < as_bytes k'"

instance
  by standard (auto simp: less_eq_key_def less_key_def key.expand)

end

section \<open>Values\<close>

definition MAX_VALUE_BYTES :: nat where "MAX_VALUE_BYTES = 16 * 1024"

datatype value_kind = Raw | Utf8 | Int64 | Float64 | Json

record stored_value =
  payload :: bytes
  kind :: value_kind

definition StoredValue_new :: "bytes \<Rightarrow> value_kind \<Rightarrow> domain_error + stored_value" where
  "StoredValue_new p k =
     (if MAX_VALUE_BYTES < length p then Inl (ValueTooLong MAX_VALUE_BYTES (length p))
      else Inr \<lparr>payload = p, kind = k\<rparr>)"

definition value_ok :: "stored_value \<Rightarrow> bool" where
  "value_ok v \<longleftrightarrow> length (payload v) \<le> MAX_VALUE_BYTES"

section \<open>Length-checked deserialization\<close>

text \<open>
  The argument is what the inner \<open>Vec<u8>\<close> deserializer delivered; a longer vector is a
  custom error of the same deserializer.
\<close>

definition deserialize_key :: "(string + bytes) \<Rightarrow> string + bytes" where
  "deserialize_key inner =
     (case inner of
        Inl e \<Rightarrow> Inl e
      | Inr v \<Rightarrow> if MAX_KEY_BYTES < length v then Inl ''key bytes exceed MAX_KEY_BYTES'' else Inr v)"

definition deserialize_value :: "(string + bytes) \<Rightarrow> string + bytes" where
  "deserialize_value inner =
     (case inner of
        Inl e \<Rightarrow> Inl e
      | Inr v \<Rightarrow> if MAX_VALUE_BYTES < length v then Inl ''value bytes exceed MAX_VALUE_BYTES'' else Inr v)"

section \<open>Permissions\<close>

record permission =
  p_read :: bool
  p_write :: bool
  p_enumerate :: bool
  p_delete :: bool

definition Permission_new :: "bool \<Rightarrow> bool \<Rightarrow> bool \<Rightarrow> bool \<Rightarrow> permission" where
  "Permission_new r w e d = \<lparr>p_read = r, p_write = w, p_enumerate = e, p_delete = d\<rparr>"

definition NONE :: permission where "NONE = Permission_new False False False False"
definition READ_ONLY :: permission where "READ_ONLY = Permission_new True False False False"
definition READ_ENUMERATE :: permission where "READ_ENUMERATE = Permission_new True False True False"
definition WRITE_ONLY :: permission where "WRITE_ONLY = Permission_new False True False False"
definition ADMIN :: permission where "ADMIN = Permission_new True True True True"

definition anonymous_from_keys :: "bool \<Rightarrow> bool \<Rightarrow> bool \<Rightarrow> permission" where
  "anonymous_from_keys has_secret has_read has_write =
     \<lparr>p_read = \<not> has_read,
      p_write = \<not> has_write,
      p_enumerate = \<not> has_read,
      p_delete = (\<not> has_secret \<and> \<not> has_read \<and> \<not> has_write)\<rparr>"

definition permission_union :: "permission \<Rightarrow> permission \<Rightarrow> permission" where
  "permission_union a b =
     \<lparr>p_read = (p_read a \<or> p_read b),
      p_write = (p_write a \<or> p_write b),
      p_enumerate = (p_enumerate a \<or> p_enumerate b),
      p_delete = (p_delete a \<or> p_delete b)\<rparr>"

section \<open>Bucket policies and token claims\<close>

record bucket_policy =
  default_ttl_secs :: "u64 option"
  anonymous_access :: permission
  secret_key_hash :: "bytes option"
  read_key_hash :: "bytes option"
  write_key_hash :: "bytes option"
  signing_key :: "bytes option"
  signing_key_generation :: u64

definition clone_policy :: "bucket_policy \<Rightarrow> bucket_policy" where
  "clone_policy p =
     \<lparr>default_ttl_secs = default_ttl_secs p,
      anonymous_access = anonymous_access p,
      secret_key_hash = secret_key_hash p,
      read_key_hash = read_key_hash p,
      write_key_hash = write_key_hash p,
      signing_key = map_option (\<lambda>k. k) (signing_key p),
      signing_key_generation = signing_key_generation p\<rparr>"

record claims =
  c_version :: "8 word"
  c_bucket :: bucket_id
  c_bucket_generation :: u64
  c_allowed_prefix :: bytes
  c_permissions :: permission
  c_iat :: instant
  c_exp :: instant

lemmas [domain_defs] =
  BucketId_new_def Key_from_bytes_def StoredValue_new_def MAX_KEY_BYTES_def MAX_VALUE_BYTES_def
  Permission_new_def NONE_def READ_ONLY_def READ_ENUMERATE_def WRITE_ONLY_def ADMIN_def
  anonymous_from_keys_def permission_union_def

section \<open>What the constructors establish\<close>

lemma Key_from_bytes_Inr: "Key_from_bytes d = Inr k \<longleftrightarrow> k = Key d \<and> key_ok k"
  by (auto simp: Key_from_bytes_def key_ok_def)

lemma StoredValue_new_Inr:
  "StoredValue_new p k = Inr v \<longleftrightarrow> v = \<lparr>payload = p, kind = k\<rparr> \<and> value_ok v"
  by (auto simp: StoredValue_new_def value_ok_def)

lemma StoredValue_new_self: "value_ok v \<Longrightarrow> StoredValue_new (payload v) (kind v) = Inr v"
  by (simp add: StoredValue_new_Inr)

lemma deserialize_key_Inr: "deserialize_key i = Inr v \<longleftrightarrow> i = Inr v \<and> key_ok (Key v)"
  by (auto simp: deserialize_key_def key_ok_def split: sum.splits if_splits)

lemma deserialize_value_Inr:
  "deserialize_value i = Inr v \<longleftrightarrow> i = Inr v \<and> length v \<le> MAX_VALUE_BYTES"
  by (auto simp: deserialize_value_def split: sum.splits if_splits)

lemma clone_policy_id: "clone_policy p = p"
  by (simp add: clone_policy_def option.map_ident)

lemma permission_union_lattice:
  "permission_union a a = a"
  "permission_union a b = permission_union b a"
  "permission_union a (permission_union b c) = permission_union (permission_union a b) c"
  "permission_union a NONE = a"
  "permission_union a ADMIN = ADMIN"
  by (auto simp: domain_defs)

text \<open>
  Configuring one more credential never opens an anonymous capability, and without any
  credential the bucket is fully open.
\<close>

lemma anonymous_from_keys_mono:
  assumes "s \<longrightarrow> s'" and "r \<longrightarrow> r'" and "w \<longrightarrow> w'"
  shows "permission_union (anonymous_from_keys s r w) (anonymous_from_keys s' r' w')
    = anonymous_from_keys s r w"
  using assms by (auto simp: domain_defs)

lemma anonymous_open: "anonymous_from_keys False False False = ADMIN"
  by (simp add: domain_defs)

end
