(* ===== verification/F64.thy ===== *)
theory F64
  imports Rust_Std Complex_Main
begin

text \<open>
  Rust's \<open>f64\<close>, as far as counters use it: IEEE 754 binary64 values, rounding to nearest
  with ties to even, addition, conversion from \<open>i64\<close>, \<open>f64::from_str\<close> and
  \<open>format!("{f}")\<close>.  A finite value is \<open>F_Fin neg m e\<close>, that is \<open>(-1)^neg * m * 2^e\<close>,
  in the canonical form \<open>f64_ok\<close> (53-bit mantissa, exponent between -1074 and 971).
  All arithmetic is on exact fractions of naturals, so every function evaluates.

  Shown here: every operation yields a canonical value (\<open>round_f64_ok\<close>); a fraction that
  is exactly representable rounds to its own representation (\<open>round_f64_exact\<close>); the text
  \<open>show_f64\<close> prints for a finite value parses back to that value (\<open>parse_show_f64\<close>), is
  visible ASCII, and has bounded length.
\<close>

section \<open>Values\<close>

datatype f64 = F_NaN | F_Inf bool | F_Fin bool nat int

definition f64_ok :: "f64 \<Rightarrow> bool" where
  "f64_ok f = (case f of
       F_Fin s m e \<Rightarrow> m < 2 ^ 53 \<and> -1074 \<le> e \<and> e \<le> 971 \<and> (2 ^ 52 \<le> m \<or> e = -1074)
     | _ \<Rightarrow> True)"

definition is_nan :: "f64 \<Rightarrow> bool" where
  "is_nan f \<longleftrightarrow> f = F_NaN"

definition is_infinite :: "f64 \<Rightarrow> bool" where
  "is_infinite f \<longleftrightarrow> (case f of F_Inf _ \<Rightarrow> True | _ \<Rightarrow> False)"

definition is_finite_f64 :: "f64 \<Rightarrow> bool" where
  "is_finite_f64 f \<longleftrightarrow> (case f of F_Fin _ _ _ \<Rightarrow> True | _ \<Rightarrow> False)"

lemma finite_iff: "is_finite_f64 f \<longleftrightarrow> \<not> is_nan f \<and> \<not> is_infinite f"
  by (cases f) (auto simp: is_finite_f64_def is_nan_def is_infinite_def)

section \<open>Rounding a fraction\<close>

fun bit_len :: "nat \<Rightarrow> nat" where
  "bit_len n = (if n = 0 then 0 else Suc (bit_len (n div 2)))"

declare bit_len.simps [simp del]

text \<open>\<open>scale n d k\<close> is the fraction \<open>(n / d) / 2^k\<close>.\<close>

definition scale :: "nat \<Rightarrow> nat \<Rightarrow> int \<Rightarrow> nat \<times> nat" where
  "scale n d k = (if 0 \<le> k then (n, d * 2 ^ nat k) else (n * 2 ^ nat (- k), d))"

definition div_half_even :: "nat \<Rightarrow> nat \<Rightarrow> nat" where
  "div_half_even a b =
     (let q = a div b; r = a mod b in
      if 2 * r < b then q else if b < 2 * r then Suc q else if even q then q else Suc q)"

text \<open>The exponent \<open>k\<close> with \<open>2^52 \<le> (n / d) / 2^k < 2^53\<close>.\<close>

definition exp_of :: "nat \<Rightarrow> nat \<Rightarrow> int" where
  "exp_of n d =
     (let l = int (bit_len n) - int (bit_len d); (a, b) = scale n d l
      in if b \<le> a then l - 52 else l - 53)"

definition round_f64 :: "bool \<Rightarrow> nat \<Rightarrow> nat \<Rightarrow> f64" where
  "round_f64 s n d =
     (if n = 0 then F_Fin s 0 (- 1074)
      else
        (let k = max (- 1074) (exp_of n d);
             (a, b) = scale n d k;
             m = div_half_even a b;
             (m', k') = (if m = 2 ^ 53 then (2 ^ 52, k + 1) else (m, k))
         in if 971 < k' then F_Inf s else F_Fin s m' k'))"

lemma bit_len_bounds: "0 < n \<Longrightarrow> 2 ^ (bit_len n - 1) \<le> n \<and> n < 2 ^ bit_len n \<and> 0 < bit_len n"
proof (induction n rule: bit_len.induct)
  case (1 n)
  show ?case
  proof (cases "n div 2 = 0")
    case True
    with "1.prems" have "n = 1" by simp
    then show ?thesis by (simp add: bit_len.simps)
  next
    case False
    define b where "b = bit_len (n div 2)"
    have ih: "2 ^ (b - 1) \<le> n div 2" "n div 2 < 2 ^ b" "0 < b"
      using "1.IH" "1.prems" False unfolding b_def by blast+
    have b: "bit_len n = Suc b" using "1.prems" unfolding b_def by (simp add: bit_len.simps [of n])
    have "(2::nat) ^ b = 2 * 2 ^ (b - 1)" using ih(3) by (metis power_minus_mult mult.commute)
    then have "2 ^ b \<le> n" using ih(1) by linarith
    moreover have "n < 2 * 2 ^ b" using ih(2) by linarith
    ultimately show ?thesis using b by simp
  qed
qed

lemma scale_real:
  assumes "scale n d k = (a, b)" and "0 < d"
  shows "real a / real b = (real n / real d) / 2 powi k" and "0 < b"
proof -
  show "0 < b" using assms by (auto simp: scale_def split: if_splits)
  show "real a / real b = (real n / real d) / 2 powi k"
  proof (cases "0 \<le> k")
    case True
    then show ?thesis using assms by (auto simp: scale_def power_int_def)
  next
    case False
    then show ?thesis using assms by (auto simp: scale_def power_int_def field_simps)
  qed
qed

lemma powi2_add: "(2::real) powi a * 2 powi b = 2 powi (a + b)"
  by (simp add: power_int_add)

lemma quot_bit_len:
  assumes "0 < n" and "0 < d"
  defines "l \<equiv> int (bit_len n) - int (bit_len d)"
  shows "2 powi (l - 1) < real n / real d" and "real n / real d < 2 powi (l + 1)"
proof -
  define p q where "p = bit_len n" and "q = bit_len d"
  have n: "2 ^ (p - 1) \<le> n" "n < 2 ^ p" "0 < p" and d: "2 ^ (q - 1) \<le> d" "d < 2 ^ q" "0 < q"
    using bit_len_bounds assms(1,2) unfolding p_def q_def by blast+
  have N: "2 powi (int p - 1) \<le> real n" "real n < 2 powi (int p)"
    and D: "2 powi (int q - 1) \<le> real d" "real d < 2 powi (int q)"
  proof -
    have i: "int p - 1 = int (p - 1)" "int q - 1 = int (q - 1)" using n(3) d(3) by simp_all
    have "real (2 ^ (p - 1)) \<le> real n" "real n < real (2 ^ p)"
      "real (2 ^ (q - 1)) \<le> real d" "real d < real (2 ^ q)"
      using n d by (simp_all only: of_nat_le_iff of_nat_less_iff)
    then show "2 powi (int p - 1) \<le> real n" "real n < 2 powi (int p)"
      "2 powi (int q - 1) \<le> real d" "real d < 2 powi (int q)"
      unfolding i by simp_all
  qed
  have d0: "0 < real d" using assms(2) by simp
  have "2 powi (l - 1) * real d < 2 powi (l - 1) * 2 powi (int q)"
    using D(2) by simp
  also have "\<dots> = 2 powi (int p - 1)"
    unfolding powi2_add by (rule arg_cong [of _ _ "power_int 2"]) (simp add: l_def p_def q_def)
  finally show "2 powi (l - 1) < real n / real d" using N(1) d0 by (simp add: field_simps)
  have "2 powi (int p) = 2 powi (l + 1) * (2::real) powi (int q - 1)"
    unfolding powi2_add by (rule arg_cong [of _ _ "power_int 2"]) (simp add: l_def p_def q_def)
  also have "\<dots> \<le> 2 powi (l + 1) * real d" using D(1) by simp
  finally have "real n < 2 powi (l + 1) * real d" by (rule less_le_trans [OF N(2)])
  then show "real n / real d < 2 powi (l + 1)" using d0 by (simp add: pos_divide_less_eq)
qed

lemma exp_of_bounds:
  assumes "0 < n" and "0 < d"
  shows "2 ^ 52 \<le> (real n / real d) / 2 powi (exp_of n d)"
    and "(real n / real d) / 2 powi (exp_of n d) < 2 ^ 53"
proof -
  define l where "l = int (bit_len n) - int (bit_len d)"
  obtain a b where ab: "scale n d l = (a, b)" by fastforce
  define x where "x = real n / real d"
  have x: "2 powi (l - 1) < x" "x < 2 powi (l + 1)"
    using quot_bit_len [OF assms] unfolding l_def x_def by simp_all
  have r: "real a / real b = x / 2 powi l" "0 < b"
    using scale_real [OF ab assms(2)] unfolding x_def by simp_all
  have e: "exp_of n d = (if b \<le> a then l - 52 else l - 53)"
    using ab by (simp add: exp_of_def l_def Let_def)
  have ge: "b \<le> a \<longleftrightarrow> 2 powi l \<le> x"
  proof -
    have "b \<le> a \<longleftrightarrow> 1 \<le> real a / real b" using r(2) by simp
    also have "\<dots> \<longleftrightarrow> 2 powi l \<le> x" unfolding r(1) by (simp add: pos_le_divide_eq)
    finally show ?thesis .
  qed
  have s: "2 powi (l - 52) = 2 powi l / (2 ^ 52 :: real)" "2 powi (l - 53) = 2 powi l / (2 ^ 53 :: real)"
    "2 powi (l + 1) = 2 powi l * (2 :: real)" "2 powi (l - 1) = 2 powi l / (2::real)"
    by (simp_all add: power_int_diff power_int_add)
  define y where "y = (2::real) powi l"
  have p: "0 < y" by (simp add: y_def)
  have "2 ^ 52 \<le> x / 2 powi (exp_of n d) \<and> x / 2 powi (exp_of n d) < 2 ^ 53"
  proof (cases "b \<le> a")
    case True
    then have "x / 2 powi (exp_of n d) = 2 ^ 52 * (x / y)" using e by (simp add: s y_def)
    moreover have "1 \<le> x / y" "x / y < 2"
      using True ge x(2) p by (simp_all add: s y_def pos_le_divide_eq pos_divide_less_eq)
    ultimately show ?thesis by simp
  next
    case False
    then have "x / 2 powi (exp_of n d) = 2 ^ 53 * (x / y)" using e by (simp add: s y_def)
    moreover have "1 / 2 \<le> x / y" "x / y < 1"
      using False ge x(1) p by (simp_all add: s y_def pos_le_divide_eq pos_divide_less_eq)
    ultimately show ?thesis by simp
  qed
  then show "2 ^ 52 \<le> (real n / real d) / 2 powi (exp_of n d)"
    and "(real n / real d) / 2 powi (exp_of n d) < 2 ^ 53" unfolding x_def by simp_all
qed

lemma exp_of_unique:
  assumes "0 < n" and "0 < d" and "real n / real d = real m * 2 powi e" and "2 ^ 52 \<le> m" and "m < 2 ^ 53"
  shows "exp_of n d = e"
proof -
  define k where "k = exp_of n d"
  have b: "2 ^ 52 \<le> real m * 2 powi (e - k)" "real m * 2 powi (e - k) < 2 ^ 53"
    using exp_of_bounds [OF assms(1,2)] assms(3) unfolding k_def by (simp_all add: power_int_diff)
  have m: "real m < 2 ^ 53" "(2::real) ^ 52 \<le> real m"
    using assms(4,5) by (simp_all add: numeral_power_le_of_nat_cancel_iff)
  have "\<not> e - k \<le> -1"
  proof
    assume "e - k \<le> -1"
    then have "2 powi (e - k) \<le> (2::real) powi (-1)" by (intro power_int_increasing) auto
    then have "2 powi (e - k) \<le> (1/2::real)" by simp
    then have "real m * 2 powi (e - k) \<le> real m * (1/2)" by (intro mult_left_mono) auto
    then show False using b(1) m(1) by simp
  qed
  moreover have "\<not> 1 \<le> e - k"
  proof
    assume "1 \<le> e - k"
    then have "(2::real) powi 1 \<le> 2 powi (e - k)" by (intro power_int_increasing) auto
    then have "real m * 2 \<le> real m * 2 powi (e - k)" by (intro mult_left_mono) auto
    then show False using b(2) m(2) by simp
  qed
  ultimately show ?thesis unfolding k_def by simp
qed

lemma exp_of_small:
  assumes "0 < n" and "0 < d" and "real n / real d = real m * 2 powi e" and "m < 2 ^ 52"
  shows "exp_of n d < e"
proof (rule ccontr)
  define k where "k = exp_of n d"
  assume "\<not> exp_of n d < e"
  then have "e - k \<le> 0" unfolding k_def by simp
  then have "2 powi (e - k) \<le> (2::real) powi 0" by (intro power_int_increasing) auto
  then have "real m * 2 powi (e - k) \<le> real m" by (intro mult_left_le) auto
  moreover have "2 ^ 52 \<le> real m * 2 powi (e - k)"
    using exp_of_bounds [OF assms(1,2)] assms(3) unfolding k_def by (simp add: power_int_diff)
  moreover have "real m < 2 ^ 52" using assms(4) by simp
  ultimately show False by simp
qed

lemma div_half_even_exact: "0 < b \<Longrightarrow> div_half_even (m * b) b = m"
  by (simp add: div_half_even_def)

lemma div_half_even_real:
  assumes "0 < b"
  shows "real a / real b - 1 / 2 \<le> real (div_half_even a b)"
    and "real (div_half_even a b) \<le> real a / real b + 1 / 2"
proof -
  define q r where "q = a div b" and "r = a mod b"
  have a: "real a = real q * real b + real r"
    unfolding q_def r_def by (metis div_mult_mod_eq of_nat_add of_nat_mult)
  have r: "real r < real b" using assms unfolding r_def by simp
  define f where "f = real r / real b"
  have x: "real a / real b = real q + f" using a assms by (simp add: f_def field_simps)
  have d: "div_half_even a b = q \<and> 2 * r \<le> b \<or> div_half_even a b = Suc q \<and> b \<le> 2 * r"
    by (auto simp: div_half_even_def Let_def q_def r_def)
  have lo: "2 * r \<le> b \<Longrightarrow> f \<le> 1 / 2"
    using assms by (simp add: f_def field_simps flip: of_nat_mult)
  have hi: "b \<le> 2 * r \<Longrightarrow> 1 / 2 \<le> f"
    using assms by (simp add: f_def field_simps flip: of_nat_mult)
  have z: "0 \<le> f" "f < 1" using r assms by (simp_all add: f_def)
  show "real a / real b - 1 / 2 \<le> real (div_half_even a b)"
    using d lo hi z x by auto
  show "real (div_half_even a b) \<le> real a / real b + 1 / 2"
    using d lo hi z x by auto
qed

theorem round_f64_exact:
  assumes ok: "f64_ok (F_Fin s m e)" and m: "0 < m" and d: "0 < d"
    and eq: "n * 2 ^ nat (- e) = m * 2 ^ nat e * d"
  shows "round_f64 s n d = F_Fin s m e"
proof -
  have c: "m < 2 ^ 53" "-1074 \<le> e" "e \<le> 971" "2 ^ 52 \<le> m \<or> e = -1074"
    using ok by (simp_all add: f64_ok_def)
  have "0 < m * 2 ^ nat e * d" using m d by simp
  then have n: "0 < n" unfolding eq [symmetric] by simp
  have x: "real n / real d = real m * 2 powi e"
  proof -
    have "real n * 2 ^ nat (- e) = real m * 2 ^ nat e * real d"
      using arg_cong [OF eq, of real] by simp
    then show ?thesis using d by (cases "0 \<le> e") (auto simp: power_int_def field_simps)
  qed
  have k: "max (- 1074) (exp_of n d) = e"
  proof (cases "2 ^ 52 \<le> m")
    case True
    then show ?thesis using exp_of_unique [OF n d x True c(1)] c(2) by simp
  next
    case False
    then show ?thesis using exp_of_small [OF n d x] c(4) by simp
  qed
  obtain a b where ab: "scale n d e = (a, b)" by fastforce
  have "a = m * b \<and> 0 < b"
    using ab eq d by (cases "0 \<le> e") (auto simp: scale_def)
  then have "div_half_even a b = m" using div_half_even_exact by blast
  then show ?thesis using n k ab c by (simp add: round_f64_def Let_def)
qed

theorem round_f64_ok:
  assumes "0 < d"
  shows "f64_ok (round_f64 s n d)"
proof (cases "n = 0")
  case True
  then show ?thesis by (simp add: round_f64_def f64_ok_def)
next
  case False
  then have n: "0 < n" by simp
  define k where "k = max (- 1074) (exp_of n d)"
  obtain a b where ab: "scale n d k = (a, b)" by fastforce
  define m where "m = div_half_even a b"
  define x where "x = real n / real d"
  define y where "y = x / 2 powi k"
  have r: "real a / real b = y" and b: "0 < b"
    using scale_real [OF ab assms] by (simp_all add: x_def y_def)
  have e: "2 ^ 52 \<le> x / 2 powi (exp_of n d)" "x / 2 powi (exp_of n d) < 2 ^ 53"
    using exp_of_bounds [OF n assms] by (simp_all add: x_def)
  have h: "y - 1 / 2 \<le> real m" "real m \<le> y + 1 / 2"
    using div_half_even_real [OF b, of a] r by (simp_all add: m_def)
  have "(2::real) powi (exp_of n d) \<le> 2 powi k" by (intro power_int_increasing) (simp_all add: k_def)
  then have "y \<le> x / 2 powi (exp_of n d)"
    unfolding y_def x_def by (intro divide_left_mono) simp_all
  then have "real m < 2 ^ 53 + 1" using e(2) h(2) by simp
  then have "real m < real (2 ^ 53 + 1)" by simp
  then have hi: "m < 2 ^ 53 + 1" by (simp only: of_nat_less_iff)
  have lo: "2 ^ 52 \<le> m" if "k \<noteq> - 1074"
  proof -
    from that have "k = exp_of n d" by (simp add: k_def max_def split: if_splits)
    then have "2 ^ 52 - 1 / 2 \<le> real m" using e(1) h(1) by (simp add: y_def)
    then have "real (2 ^ 52) < real m + 1" by simp
    then show ?thesis by linarith
  qed
  have "round_f64 s n d =
      (let (m', k') = (if m = 2 ^ 53 then (2 ^ 52, k + 1) else (m, k))
       in if 971 < k' then F_Inf s else F_Fin s m' k')"
    using n ab by (simp add: round_f64_def k_def m_def Let_def)
  moreover have "- 1074 \<le> k" by (simp add: k_def)
  ultimately show ?thesis using hi lo by (auto simp: f64_ok_def)
qed

lemma round_f64_not_nan: "round_f64 s n d \<noteq> F_NaN"
  by (simp add: round_f64_def Let_def split: prod.split)

section \<open>Arithmetic\<close>

definition signed :: "bool \<Rightarrow> nat \<Rightarrow> int" where
  "signed s m = (if s then - int m else int m)"

text \<open>The sum of two finite values on their common exponent, rounded once.\<close>

definition add_f64 :: "f64 \<Rightarrow> f64 \<Rightarrow> f64" where
  "add_f64 x y =
     (case x of
        F_NaN \<Rightarrow> F_NaN
      | F_Inf s \<Rightarrow>
          (case y of F_NaN \<Rightarrow> F_NaN | F_Inf t \<Rightarrow> if s = t then F_Inf s else F_NaN | F_Fin _ _ _ \<Rightarrow> F_Inf s)
      | F_Fin s m e \<Rightarrow>
          (case y of
             F_NaN \<Rightarrow> F_NaN
           | F_Inf t \<Rightarrow> F_Inf t
           | F_Fin t n f \<Rightarrow>
               (let k = min e f;
                    v = signed s m * 2 ^ nat (e - k) + signed t n * 2 ^ nat (f - k)
                in if v = 0 then F_Fin (s \<and> t) 0 (- 1074)
                   else if 0 \<le> k then round_f64 (v < 0) (nat \<bar>v\<bar> * 2 ^ nat k) 1
                   else round_f64 (v < 0) (nat \<bar>v\<bar>) (2 ^ nat (- k)))))"

definition f64_of_i64 :: "i64 \<Rightarrow> f64" where
  "f64_of_i64 i = round_f64 (sint i < 0) (nat \<bar>sint i\<bar>) 1"

lemma add_f64_ok: "f64_ok x \<Longrightarrow> f64_ok y \<Longrightarrow> f64_ok (add_f64 x y)"
  by (auto simp: add_f64_def Let_def round_f64_ok split: f64.splits)
    (auto simp: f64_ok_def)

lemma f64_of_i64_ok: "f64_ok (f64_of_i64 i)"
  by (simp add: f64_of_i64_def round_f64_ok)

section \<open>Decimal notation\<close>

text \<open>The value \<open>v * 10^k\<close>, rounded.\<close>

definition round_dec :: "bool \<Rightarrow> nat \<Rightarrow> int \<Rightarrow> f64" where
  "round_dec s v k =
     (if 0 \<le> k then round_f64 s (v * 10 ^ nat k) 1 else round_f64 s v (10 ^ nat (- k)))"

lemma round_dec_ok: "f64_ok (round_dec s v k)"
  by (simp add: round_dec_def round_f64_ok)

text \<open>
  The exponent of \<open>f64::from_str\<close>: an optional sign and at least one digit; the accumulation
  stops growing at \<open>0x10000\<close>, where the result is zero or infinite anyway.
\<close>

definition exp_val :: "bytes \<Rightarrow> nat" where
  "exp_val ds = foldl (\<lambda>a d. if a < 0x10000 then 10 * a + digit_val d else a) 0 ds"

definition parse_exp :: "bytes \<Rightarrow> int option" where
  "parse_exp s =
     (case s of
        [] \<Rightarrow> None
      | c # r \<Rightarrow>
          if c = 0x2D then (if all_digits r then Some (- int (exp_val r)) else None)
          else if c = 0x2B then (if all_digits r then Some (int (exp_val r)) else None)
          else (if all_digits s then Some (int (exp_val s)) else None))"

text \<open>An unsigned decimal number: digits with an optional point and an optional exponent.\<close>

definition parse_decimal :: "bool \<Rightarrow> bytes \<Rightarrow> f64 option" where
  "parse_decimal s t =
     (let ip = takeWhile is_digit t;
          t1 = dropWhile is_digit t;
          fp = (case t1 of c # r \<Rightarrow> if c = 0x2E then takeWhile is_digit r else [] | [] \<Rightarrow> []);
          t2 = (case t1 of c # r \<Rightarrow> if c = 0x2E then dropWhile is_digit r else t1 | [] \<Rightarrow> [])
      in if ip = [] \<and> fp = [] then None
         else
           (case t2 of
              [] \<Rightarrow> Some (round_dec s (dec_val (ip @ fp)) (- int (length fp)))
            | c # r \<Rightarrow>
                if c = 0x65 \<or> c = 0x45 then
                  (case parse_exp r of
                     None \<Rightarrow> None
                   | Some e \<Rightarrow> Some (round_dec s (dec_val (ip @ fp)) (e - int (length fp))))
                else None))"

definition parse_special :: "bool \<Rightarrow> bytes \<Rightarrow> f64 option" where
  "parse_special s t =
     (let l = to_ascii_lowercase t in
      if l = bs ''nan'' then Some F_NaN
      else if l = bs ''inf'' \<or> l = bs ''infinity'' then Some (F_Inf s)
      else None)"

definition parse_f64 :: "str \<Rightarrow> f64 option" where
  "parse_f64 t =
     (case t of
        [] \<Rightarrow> None
      | c # r \<Rightarrow>
          (let s = (c = 0x2D); u = (if c = 0x2D \<or> c = 0x2B then r else t)
           in if u = [] then None
              else (case parse_decimal s u of Some f \<Rightarrow> Some f | None \<Rightarrow> parse_special s u)))"

lemma parse_f64_ok: "parse_f64 t = Some f \<Longrightarrow> f64_ok f"
proof -
  have d: "parse_decimal s u = Some f \<Longrightarrow> f64_ok f" for s u
    by (auto simp: parse_decimal_def Let_def round_dec_ok split: if_splits list.splits option.splits)
  have p: "parse_special s u = Some f \<Longrightarrow> f64_ok f" for s u
    by (auto simp: parse_special_def Let_def f64_ok_def split: if_splits)
  show "parse_f64 t = Some f \<Longrightarrow> f64_ok f"
    by (auto simp: parse_f64_def Let_def dest: d p split: list.splits if_splits option.splits)
qed

section \<open>Shortest decimal formatting\<close>

text \<open>The decimal exponent \<open>p\<close> with \<open>10^(p-1) \<le> n / d < 10^p\<close>.\<close>

definition scale10 :: "nat \<Rightarrow> nat \<Rightarrow> int \<Rightarrow> nat \<times> nat" where
  "scale10 n d k = (if 0 \<le> k then (n, d * 10 ^ nat k) else (n * 10 ^ nat (- k), d))"

definition exp10_of :: "nat \<Rightarrow> nat \<Rightarrow> int" where
  "exp10_of n d =
     (let l = int (length (show_nat n)) - int (length (show_nat d)); (a, b) = scale10 n d l
      in if b \<le> a then l + 1 else l)"

fun strip_zeros :: "nat \<Rightarrow> nat \<Rightarrow> int \<Rightarrow> nat \<times> int" where
  "strip_zeros 0 v k = (v, k)"
| "strip_zeros (Suc n) v k = (if v mod 10 = 0 then strip_zeros n (v div 10) (k + 1) else (v, k))"

text \<open>
  The decimals with \<open>l\<close> significant digits next to the value, below and above; those that
  read back as \<open>f\<close> are admissible, and of two the closer one (above on a tie) is chosen.
  Seventeen digits always suffice for binary64; the exact expansion stands after them.
\<close>

fun shortest :: "nat \<Rightarrow> nat \<Rightarrow> f64 \<Rightarrow> bool \<Rightarrow> nat \<Rightarrow> nat \<Rightarrow> (nat \<times> int) option" where
  "shortest 0 l f s n d = None"
| "shortest (Suc fuel) l f s n d =
     (let k = exp10_of n d - int l;
          (a, b) = scale10 n d k;
          lo = strip_zeros 20 (a div b) k;
          hi = strip_zeros 20 (a div b + 1) k;
          lo_ok = (a div b \<noteq> 0 \<and> round_dec s (fst lo) (snd lo) = f);
          hi_ok = (a mod b \<noteq> 0 \<and> round_dec s (fst hi) (snd hi) = f)
      in if hi_ok \<and> (\<not> lo_ok \<or> b \<le> 2 * (a mod b)) then Some hi
         else if lo_ok then Some lo
         else shortest fuel (Suc l) f s n d)"

definition exact_dec :: "nat \<Rightarrow> int \<Rightarrow> nat \<times> int" where
  "exact_dec m e = (if 0 \<le> e then (m * 2 ^ nat e, 0) else (m * 5 ^ nat (- e), e))"

definition decimal_of :: "bool \<Rightarrow> nat \<Rightarrow> int \<Rightarrow> nat \<times> int" where
  "decimal_of s m e =
     (if m = 0 then (0, 0)
      else
        (let (n, d) = (if 0 \<le> e then (m * 2 ^ nat e, 1) else (m, 2 ^ nat (- e)))
         in case shortest 17 1 (F_Fin s m e) s n d of Some r \<Rightarrow> r | None \<Rightarrow> exact_dec m e))"

definition fmt_decimal :: "nat \<Rightarrow> int \<Rightarrow> bytes" where
  "fmt_decimal v k =
     (let ds = show_nat v; p = int (length ds) + k
      in if 0 \<le> k then ds @ replicate (nat k) 0x30
         else if 0 < p then take (nat p) ds @ 0x2E # drop (nat p) ds
         else 0x30 # 0x2E # replicate (nat (- p)) 0x30 @ ds)"

definition show_f64 :: "f64 \<Rightarrow> str" where
  "show_f64 f =
     (case f of
        F_NaN \<Rightarrow> bs ''NaN''
      | F_Inf s \<Rightarrow> (if s then bs ''-inf'' else bs ''inf'')
      | F_Fin s m e \<Rightarrow>
          (let (v, k) = decimal_of s m e
           in (if s then [0x2D] else []) @ fmt_decimal v k))"

section \<open>Parsing inverts printing\<close>

lemma dec_val_append: "dec_val (a @ b) = dec_val a * 10 ^ length b + dec_val b"
proof (induction b rule: rev_induct)
  case Nil
  then show ?case by (simp add: dec_val_def)
next
  case (snoc x xs)
  then show ?case by (simp flip: append_assoc add: algebra_simps)
qed

lemma digit_zero [simp]: "is_digit 0x30" "digit_val 0x30 = 0"
  using digit_byte [of 0] by simp_all

lemma dec_val_zeros [simp]: "dec_val (replicate n 0x30) = 0"
proof (induction n)
  case 0
  then show ?case by (simp add: dec_val_def)
next
  case (Suc n)
  then have "dec_val (replicate n 0x30 @ [0x30]) = 0" by simp
  then show ?case by (simp add: replicate_append_same)
qed

lemma digits_show_nat [simp]: "list_all is_digit (show_nat v)"
  using show_nat_correct by simp

lemma not_digit_point [simp]: "\<not> is_digit 0x2E"
  by (simp add: is_digit_def between_def)

lemma digits_while:
  assumes "list_all is_digit a"
  shows "takeWhile is_digit a = a" and "dropWhile is_digit a = []"
    and "takeWhile is_digit (a @ 0x2E # b) = a" and "dropWhile is_digit (a @ 0x2E # b) = 0x2E # b"
  using assms by (induction a) auto

lemma zeros_digits [simp]: "list_all is_digit (replicate n 0x30)"
  by (induction n) simp_all

lemma list_all_take_drop:
  "list_all P xs \<Longrightarrow> list_all P (take n xs)" "list_all P xs \<Longrightarrow> list_all P (drop n xs)"
  by (auto simp: list_all_iff dest: in_set_takeD in_set_dropD)

lemma parse_decimal_digits:
  assumes "list_all is_digit t" and "t \<noteq> []"
  shows "parse_decimal s t = Some (round_dec s (dec_val t) 0)"
  using assms(2) by (simp add: parse_decimal_def Let_def digits_while [OF assms(1)])

lemma parse_decimal_point:
  assumes "list_all is_digit a" and "list_all is_digit b" and "a \<noteq> []"
  shows "parse_decimal s (a @ 0x2E # b) = Some (round_dec s (dec_val (a @ b)) (- int (length b)))"
  using assms(3)
  by (simp add: parse_decimal_def Let_def digits_while [OF assms(1)] digits_while [OF assms(2)])

lemma parse_fmt_decimal: "parse_decimal s (fmt_decimal v k) = Some (round_dec s v k)"
proof -
  define ds where "ds = show_nat v"
  have ds: "list_all is_digit ds" "dec_val ds = v" "ds \<noteq> []" by (simp_all add: ds_def)
  define p where "p = int (length ds) + k"
  consider (int) "0 \<le> k" | (mid) "k < 0" "0 < p" | (low) "k < 0" "p \<le> 0" by linarith
  then show ?thesis
  proof cases
    case int
    then have "fmt_decimal v k = ds @ replicate (nat k) 0x30" by (simp add: fmt_decimal_def ds_def Let_def)
    moreover have "list_all is_digit (ds @ replicate (nat k) 0x30)" using ds(1) by simp
    ultimately show ?thesis
      using ds int by (simp add: parse_decimal_digits dec_val_append round_dec_def)
  next
    case mid
    let ?n = "nat p"
    have f: "fmt_decimal v k = take ?n ds @ 0x2E # drop ?n ds"
      using mid by (simp add: fmt_decimal_def ds_def p_def Let_def)
    have "take ?n ds \<noteq> []" using ds(3) mid by simp
    moreover have "int (length (drop ?n ds)) = - k" using mid by (simp add: p_def)
    ultimately show ?thesis
      using ds f by (simp add: parse_decimal_point list_all_take_drop)
  next
    case low
    let ?z = "replicate (nat (- p)) 0x30"
    have f: "fmt_decimal v k = [0x30] @ 0x2E # (?z @ ds)"
      using low by (simp add: fmt_decimal_def ds_def p_def Let_def)
    have "dec_val ([0x30] @ ?z @ ds) = v" 
      unfolding dec_val_append using ds dec_val_zeros [of 1] by simp
    moreover have "int (length (?z @ ds)) = - k" using low by (simp add: p_def)
    moreover have "list_all is_digit (?z @ ds)" using ds(1) by simp
    ultimately show ?thesis
      unfolding f by (subst parse_decimal_point) simp_all
  qed
qed

lemma shortest_sound: "shortest fuel l f s n d = Some (v, k) \<Longrightarrow> round_dec s v k = f"
proof (induction fuel arbitrary: l)
  case 0
  then show ?case by simp
next
  case (Suc fuel)
  then show ?case by (auto simp: Let_def split: prod.splits if_splits)
qed

lemma exact_dec_round:
  assumes "f64_ok (F_Fin s m e)" and "0 < m"
  shows "round_dec s (fst (exact_dec m e)) (snd (exact_dec m e)) = F_Fin s m e"
proof (cases "0 \<le> e")
  case True
  then show ?thesis
    using round_f64_exact [OF assms, of 1 "m * 2 ^ nat e"] by (simp add: exact_dec_def round_dec_def)
next
  case False
  then have "m * 5 ^ nat (- e) * 2 ^ nat (- e) = m * 2 ^ nat e * 10 ^ nat (- e)"
    by (simp flip: power_mult_distrib)
  then show ?thesis
    using False round_f64_exact [OF assms, of "10 ^ nat (- e)"] by (simp add: exact_dec_def round_dec_def)
qed

lemma decimal_of_round:
  assumes "f64_ok (F_Fin s m e)" and "decimal_of s m e = (v, k)"
  shows "round_dec s v k = F_Fin s m e"
proof (cases "m = 0")
  case True
  then show ?thesis using assms by (auto simp: decimal_of_def round_dec_def round_f64_def f64_ok_def)
next
  case False
  then show ?thesis
    using assms exact_dec_round [OF assms(1)]
    by (auto simp: decimal_of_def Let_def dest: shortest_sound split: if_splits option.splits)
qed

lemma fmt_decimal_head: "\<exists>c r. fmt_decimal v k = c # r \<and> is_digit c"
proof -
  obtain c r where c: "show_nat v = c # r" by (cases "show_nat v") auto
  then have d: "is_digit c" using digits_show_nat [of v] by simp
  consider "0 \<le> k" | "k < 0" "0 < int (length (show_nat v)) + k"
    | "k < 0" "int (length (show_nat v)) + k \<le> 0" by linarith
  then show ?thesis
    by cases (use c d in \<open>auto simp: fmt_decimal_def Let_def take_Cons' \<close>)
qed

theorem parse_show_f64:
  assumes "f64_ok f" and "is_finite_f64 f"
  shows "parse_f64 (show_f64 f) = Some f"
proof -
  obtain s m e where f: "f = F_Fin s m e" using assms(2) by (cases f) (auto simp: is_finite_f64_def)
  obtain v k where vk: "decimal_of s m e = (v, k)" by fastforce
  obtain c r where c: "fmt_decimal v k = c # r" "is_digit c" using fmt_decimal_head by blast
  have "parse_decimal s (c # r) = Some f"
    using parse_fmt_decimal [of s v k] decimal_of_round assms(1) f vk c(1) by auto
  then show ?thesis
    using f vk c is_digit_not_sign [OF c(2)] by (cases s) (simp_all add: show_f64_def parse_f64_def Let_def)
qed

section \<open>The printed text is visible ASCII of bounded length\<close>

lemma fmt_decimal_graph: "list_all is_graph (fmt_decimal v k)"
proof -
  have "list_all is_graph (show_nat v)"
    using digits_show_nat is_digit_graph by (metis list.pred_mono_strong)
  moreover have "is_graph 0x30" "is_graph 0x2E" by (simp_all add: is_graph_def)
  ultimately show ?thesis
    by (simp add: fmt_decimal_def Let_def list_all_take_drop list_all_iff
        del: set_replicate) (auto dest: in_set_takeD in_set_dropD)
qed

lemma show_f64_graph: "show_f64 f \<noteq> [] \<and> list_all is_graph (show_f64 f)"
  using fmt_decimal_graph fmt_decimal_head
  by (auto simp: show_f64_def bs_def is_graph_def split: f64.split prod.split)
    (metis list.distinct(1))

lemma trim_show_f64 [simp]: "trim (show_f64 f) = show_f64 f"
  using show_f64_graph by (simp add: graph_list_trim)

lemma utf8_show_f64 [simp]: "utf8_valid (show_f64 f)"
  using show_f64_graph by (simp add: graph_list_utf8)

lemma fmt_decimal_length: "length (fmt_decimal v k) \<le> length (show_nat v) + nat \<bar>k\<bar> + 2"
  by (auto simp: fmt_decimal_def Let_def)

lemma length_show_nat_le: "n < 10 ^ j \<Longrightarrow> length (show_nat n) \<le> Suc j"
  using show_nat_length [of "Suc j" n] by simp

lemma exp10_of_bound:
  assumes "n < 10 ^ N" and "d < 10 ^ M"
  shows "\<bar>exp10_of n d\<bar> \<le> int (N + M + 2)"
proof -
  have "length (show_nat n) \<le> Suc N" "length (show_nat d) \<le> Suc M"
    using assms length_show_nat_le by blast+
  moreover have "0 < length (show_nat n)" "0 < length (show_nat d)" by simp_all
  moreover have "exp10_of n d = int (length (show_nat n)) - int (length (show_nat d)) + 1 \<or>
      exp10_of n d = int (length (show_nat n)) - int (length (show_nat d))"
    by (auto simp: exp10_of_def Let_def split: prod.splits)
  ultimately show ?thesis by linarith
qed

lemma strip_zeros_bound: "strip_zeros j v k = (v', k') \<Longrightarrow> v' \<le> v \<and> k \<le> k' \<and> k' \<le> k + int j"
proof (induction j arbitrary: v k)
  case 0
  then show ?case by simp
next
  case (Suc j)
  show ?case
  proof (cases "v mod 10 = 0")
    case True
    then have "v' \<le> v div 10 \<and> k + 1 \<le> k' \<and> k' \<le> k + 1 + int j" using Suc by simp
    moreover have "v div 10 \<le> v" by simp
    ultimately show ?thesis by linarith
  next
    case False
    then show ?thesis using Suc.prems by simp
  qed
qed

lemma shortest_bound:
  assumes "shortest fuel l f s n d = Some (v, k)" and n: "n < 10 ^ N" and d: "d < 10 ^ M"
    and "l + fuel \<le> 20"
  shows "length (show_nat v) + nat \<bar>k\<bar> \<le> 3 * N + 2 * M + 100"
  using assms(1,4)
proof (induction fuel arbitrary: l)
  case 0
  then show ?case by simp
next
  case (Suc fuel)
  define k0 where "k0 = exp10_of n d - int l"
  obtain a b where ab: "scale10 n d k0 = (a, b)" by fastforce
  have kb: "\<bar>k0\<bar> \<le> int (N + M + 22)"
    using exp10_of_bound [OF n d] Suc.prems(2) unfolding k0_def by linarith
  let ?done = "strip_zeros 20 (a div b) k0 = (v, k) \<or> strip_zeros 20 (a div b + 1) k0 = (v, k)"
  have "?done \<or> shortest fuel (Suc l) f s n d = Some (v, k)"
    using Suc.prems(1) ab by (auto simp: k0_def [symmetric] Let_def split: if_splits)
  then show ?case
  proof
    assume "shortest fuel (Suc l) f s n d = Some (v, k)"
    then show ?thesis using Suc.IH Suc.prems(2) by simp
  next
    assume ?done
    then have s: "v \<le> a div b + 1" "k0 \<le> k" "k \<le> k0 + 20" using strip_zeros_bound by fastforce+
    have "a \<le> n * 10 ^ nat (- k0)" using ab by (auto simp: scale10_def split: if_splits)
    also have "\<dots> < 10 ^ N * 10 ^ nat (- k0)" using n by simp
    finally have "a < 10 ^ (N + nat (- k0))" by (simp add: power_add)
    moreover have "a div b \<le> a" by simp
    ultimately have "v < 10 ^ Suc (N + nat (- k0))" using s(1) unfolding power_Suc by linarith
    then have "length (show_nat v) \<le> N + nat (- k0) + 2" using length_show_nat_le by fastforce
    then show ?thesis using s kb by linarith
  qed
qed

lemma pow_le_ten: "(2::nat) ^ k \<le> 10 ^ k" "(5::nat) ^ k \<le> 10 ^ k"
  by (simp_all add: power_mono)

lemma decimal_of_bound:
  assumes ok: "f64_ok (F_Fin s m e)" and r: "decimal_of s m e = (v, k)"
  shows "length (show_nat v) + nat \<bar>k\<bar> \<le> 6000"
proof -
  define A where "A = nat \<bar>e\<bar>"
  have c: "m < 2 ^ 53" "A \<le> 1074" using ok by (auto simp: f64_ok_def A_def)
  have "m < 10 ^ 53" using c(1) pow_le_ten(1) by (rule less_le_trans)
  then have mul: "m * x < 10 ^ (53 + A)" if "x \<le> 10 ^ A" for x
    using that mult_less_le_imp_less [of m "10 ^ 53" x "10 ^ A"] by (cases "x = 0") (simp_all only: power_add mult_0_right, simp_all)
  have le: "nat e \<le> A" "nat (- e) \<le> A" by (simp_all add: A_def)
  have pw: "(x::nat) ^ i \<le> 10 ^ A" if "x ^ i \<le> 10 ^ i" "i \<le> A" for x i
    using that(1) power_increasing [OF that(2), of "10::nat"] by (simp only: le_trans numeral_One one_le_numeral)
  have up: "m * 2 ^ nat e < 10 ^ (53 + A)" "m * 5 ^ nat (- e) < 10 ^ (53 + A)"
    using mul pw pow_le_ten le by blast+
  have two: "(2::nat) ^ nat (- e) < 10 ^ Suc A"
  proof -
    have "(2::nat) ^ nat (- e) \<le> 10 ^ A" using pow_le_ten(1) le(2) by (rule pw)
    moreover have "(0::nat) < 10 ^ A" by simp
    ultimately show ?thesis unfolding power_Suc by linarith
  qed
  have m: "m < 10 ^ (53 + A)" using mul [of 1] by simp
  define n d where "n = (if 0 \<le> e then m * 2 ^ nat e else m)" and "d = (if 0 \<le> e then 1 else 2 ^ nat (- e) :: nat)"
  have "(1::nat) < 10 ^ Suc A" by (rule one_less_power) simp_all
  then have nd: "n < 10 ^ (53 + A)" "d < 10 ^ Suc A"
    using up m two unfolding n_def d_def by (simp_all only: if_split_asm split: if_split) blast+
  define sh where "sh = shortest 17 1 (F_Fin s m e) s n d"
  have "decimal_of s m e = (if m = 0 then (0, 0) else case sh of Some r \<Rightarrow> r | None \<Rightarrow> exact_dec m e)"
    by (simp add: decimal_of_def n_def d_def sh_def)
  then consider "v = 0" "k = 0" | "sh = Some (v, k)" | "exact_dec m e = (v, k)"
    using r by (cases "m = 0"; cases sh) simp_all
  then show ?thesis
  proof cases
    case 1
    then show ?thesis by (simp add: show_nat.simps)
  next
    case 2
    from shortest_bound [OF this [unfolded sh_def] nd] show ?thesis using c(2) by simp
  next
    case 3
    then have "v < 10 ^ (53 + A)" "nat \<bar>k\<bar> \<le> A"
      using up by (auto simp: exact_dec_def A_def split: if_splits)
    then show ?thesis using length_show_nat_le [of v "53 + A"] c(2) by linarith
  qed
qed

lemma show_f64_length: "f64_ok f \<Longrightarrow> length (show_f64 f) \<le> 6003"
proof (cases f)
  case (F_Fin s m e)
  assume ok: "f64_ok f"
  obtain v k where vk: "decimal_of s m e = (v, k)" by fastforce
  have "length (show_nat v) + nat \<bar>k\<bar> \<le> 6000" using decimal_of_bound ok F_Fin vk by blast
  then have "length (fmt_decimal v k) \<le> 6002" using fmt_decimal_length [of v k] by linarith
  then show ?thesis using F_Fin vk by (simp add: show_f64_def)
qed (simp_all add: show_f64_def bs_def)

end
