(* ===== verification/Counter.thy ===== *)
theory Counter
  imports Domain F64
begin

text \<open>
  \<open>keydock-domain/src/counter.rs\<close>: parsing a \<open>PATCH\<close> body into a delta, reading a stored
  value as a number, applying the delta with integer overflow detection and float
  promotion, and writing the result back.  The properties: what a successful parse can
  return, that integer addition is exact or refused, that floats never become infinite or
  NaN, that the stored form of a result reads back as that result, and that it fits the
  value limit.
\<close>

datatype counter_op = OpInt i64 | OpFloat f64

datatype counter_value = ValInt i64 | ValFloat f64

definition CounterOp_parse :: "bytes \<Rightarrow> domain_error + counter_op" where
  "CounterOp_parse body =
     (case from_utf8 body of
        None \<Rightarrow> Inl (InvalidCounterOp ''body is not valid utf-8'')
      | Some s \<Rightarrow>
          (let t = trim s in
           case t of
             [] \<Rightarrow> Inl (InvalidCounterOp ''empty body'')
           | first # _ \<Rightarrow>
               if first \<noteq> 0x2B \<and> first \<noteq> 0x2D then Inl (InvalidCounterOp ''missing +/- prefix'')
               else
                 (case parse_i64 t of
                    Some i \<Rightarrow> Inr (OpInt i)
                  | None \<Rightarrow>
                      (case parse_f64 t of
                         Some f \<Rightarrow>
                           if is_nan f \<or> is_infinite f then Inl (InvalidCounterOp ''invalid float'')
                           else Inr (OpFloat f)
                       | None \<Rightarrow> Inl (InvalidCounterOp ''invalid number'')))))"

definition float_result :: "f64 \<Rightarrow> domain_error + counter_value" where
  "float_result nf =
     (if is_nan nf \<or> is_infinite nf then Inl (InvalidCounterOp ''invalid result'')
      else Inr (ValFloat nf))"

fun CounterOp_apply :: "counter_op \<Rightarrow> counter_value \<Rightarrow> domain_error + counter_value" where
  "CounterOp_apply (OpInt delta) (ValInt v) =
     (case checked_add_i64 v delta of
        Some s \<Rightarrow> Inr (ValInt s)
      | None \<Rightarrow> Inl (InvalidCounterOp ''integer overflow''))"
| "CounterOp_apply (OpInt delta) (ValFloat v) = float_result (add_f64 v (f64_of_i64 delta))"
| "CounterOp_apply (OpFloat delta) (ValInt v) = float_result (add_f64 (f64_of_i64 v) delta)"
| "CounterOp_apply (OpFloat delta) (ValFloat v) = float_result (add_f64 v delta)"

definition CounterValue_from_stored :: "stored_value \<Rightarrow> domain_error + counter_value" where
  "CounterValue_from_stored value =
     (case kind value of
        Int64 \<Rightarrow>
          (case from_utf8 (payload value) of
             None \<Rightarrow> Inl (InvalidCounterOp ''stored int is not valid utf-8'')
           | Some s \<Rightarrow>
               (case parse_i64 (trim s) of
                  None \<Rightarrow> Inl (InvalidCounterOp ''stored int is not parseable'')
                | Some i \<Rightarrow> Inr (ValInt i)))
      | Float64 \<Rightarrow>
          (case from_utf8 (payload value) of
             None \<Rightarrow> Inl (InvalidCounterOp ''stored float is not valid utf-8'')
           | Some s \<Rightarrow>
               (case parse_f64 (trim s) of
                  None \<Rightarrow> Inl (InvalidCounterOp ''stored float is not parseable'')
                | Some f \<Rightarrow>
                    if is_nan f \<or> is_infinite f then Inl (InvalidCounterOp ''stored float is not finite'')
                    else Inr (ValFloat f)))
      | _ \<Rightarrow> Inl (InvalidCounterOp ''value is not numeric''))"

fun CounterValue_into_stored :: "counter_value \<Rightarrow> domain_error + stored_value" where
  "CounterValue_into_stored (ValInt i) = StoredValue_new (show_i64 i) Int64"
| "CounterValue_into_stored (ValFloat f) = StoredValue_new (show_f64 f) Float64"

text \<open>Well-formed operands: floats are canonical and finite.\<close>

fun counter_op_ok :: "counter_op \<Rightarrow> bool" where
  "counter_op_ok (OpInt _) = True"
| "counter_op_ok (OpFloat f) = (f64_ok f \<and> is_finite_f64 f)"

fun counter_value_ok :: "counter_value \<Rightarrow> bool" where
  "counter_value_ok (ValInt _) = True"
| "counter_value_ok (ValFloat f) = (f64_ok f \<and> is_finite_f64 f)"

section \<open>Each operation keeps the operands well formed\<close>

lemma float_result_ok: "float_result f = Inr v \<Longrightarrow> f64_ok f \<Longrightarrow> counter_value_ok v"
  by (auto simp: float_result_def finite_iff split: if_splits)

lemma CounterOp_parse_ok: "CounterOp_parse b = Inr op \<Longrightarrow> counter_op_ok op"
  by (auto simp: CounterOp_parse_def Let_def finite_iff dest: parse_f64_ok
      split: option.splits list.splits if_splits)

lemma CounterValue_from_stored_ok: "CounterValue_from_stored v = Inr c \<Longrightarrow> counter_value_ok c"
  by (auto simp: CounterValue_from_stored_def finite_iff dest: parse_f64_ok
      split: value_kind.splits option.splits if_splits)

lemma CounterOp_apply_ok:
  assumes "counter_op_ok op" and "counter_value_ok v" and "CounterOp_apply op v = Inr r"
  shows "counter_value_ok r"
  using assms
  by (cases op; cases v)
    (auto dest!: float_result_ok simp: add_f64_ok f64_of_i64_ok split: option.splits)

lemma CounterValue_into_stored_eq:
  assumes "counter_value_ok v"
  shows "\<exists>s. CounterValue_into_stored v = Inr s \<and> value_ok s \<and> length (payload s) \<le> 6003"
proof (cases v)
  case (ValInt i)
  then show ?thesis using show_i64_length [of i]
    by (simp add: StoredValue_new_def value_ok_def MAX_VALUE_BYTES_def)
next
  case (ValFloat f)
  then show ?thesis using assms show_f64_length [of f]
    by (simp add: StoredValue_new_def value_ok_def MAX_VALUE_BYTES_def)
qed

lemma stored_reads_back:
  assumes "counter_value_ok v" and "CounterValue_into_stored v = Inr s"
  shows "CounterValue_from_stored s = Inr v"
proof (cases v)
  case (ValInt i)
  then show ?thesis
    using assms by (simp add: StoredValue_new_Inr CounterValue_from_stored_def parse_show_i64)
next
  case (ValFloat f)
  then have "parse_f64 (show_f64 f) = Some f" "\<not> (is_nan f \<or> is_infinite f)"
    using assms(1) parse_show_f64 by (simp_all add: finite_iff)
  then show ?thesis
    using assms ValFloat by (simp add: StoredValue_new_Inr CounterValue_from_stored_def)
qed

lemma CounterOp_apply_Inl: "CounterOp_apply op v = Inl e \<Longrightarrow> \<exists>m. e = InvalidCounterOp m"
  by (cases op; cases v) (auto simp: float_result_def split: option.splits if_splits)

section \<open>Properties\<close>

text \<open>
  C33. A counter result always has a stored form: for a well-formed counter value
  \<open>into_stored\<close> succeeds (the doc comment's claim that results fit the value limit), and
  \<open>from_stored\<close> reads exactly that value back, for integers and for floats.
\<close>

theorem counter_stored_roundtrip:
  assumes "counter_value_ok v"
  shows "\<exists>s. CounterValue_into_stored v = Inr s \<and> value_ok s \<and> CounterValue_from_stored s = Inr v"
  using CounterValue_into_stored_eq [OF assms] stored_reads_back [OF assms] by blast

theorem counter_stored_roundtrip_witness:
  "\<exists>s. CounterValue_into_stored (ValInt (- 7)) = Inr s \<and> value_ok s
     \<and> CounterValue_from_stored s = Inr (ValInt (- 7))"
  using counter_stored_roundtrip [of "ValInt (- 7)"] by simp


text \<open>
  A whole counter step (parse the body, read the stored operand, apply) ends in a
  well-formed number or in a domain error: no NaN or infinity is ever produced or accepted,
  and a float operand makes the result a float.
\<close>

lemma counter_step_finite:
  assumes "CounterOp_parse body = Inr op" and "CounterValue_from_stored sv = Inr cur"
    and "CounterOp_apply op cur = Inr r"
  shows "counter_value_ok r \<and>
    ((\<exists>i. r = ValInt i) \<longleftrightarrow> (\<exists>i. op = OpInt i) \<and> (\<exists>i. cur = ValInt i))"
proof -
  have "counter_value_ok r"
    using assms CounterOp_parse_ok CounterValue_from_stored_ok CounterOp_apply_ok by blast
  moreover have "(\<exists>i. r = ValInt i) \<longleftrightarrow> (\<exists>i. op = OpInt i) \<and> (\<exists>i. cur = ValInt i)"
    using assms(3) by (cases op; cases cur) (auto simp: float_result_def split: option.splits if_splits)
  ultimately show ?thesis by blast
qed

lemma counter_step_finite_example:
  "\<exists>op cur r. CounterOp_parse (bs ''  +3 '') = Inr op
     \<and> CounterValue_from_stored \<lparr>payload = bs ''10'', kind = Int64\<rparr> = Inr cur
     \<and> CounterOp_apply op cur = Inr r \<and> counter_value_ok r \<and> (\<exists>i. r = ValInt i)"
proof -
  have a: "CounterOp_parse (bs ''  +3 '') = Inr (OpInt 3)" by code_simp
  have b: "CounterValue_from_stored \<lparr>payload = bs ''10'', kind = Int64\<rparr> = Inr (ValInt 10)" by code_simp
  have c: "CounterOp_apply (OpInt 3) (ValInt 10) = Inr (ValInt 13)" by code_simp
  show ?thesis using a b c counter_step_finite [OF a b c] by blast
qed

end
