(* ===== verification/Ports.thy ===== *)
theory Ports
  imports Counter
begin

text \<open>
  The data that crosses the ports of \<open>keydock-usecase\<close> (\<open>ports.rs\<close>, \<open>error.rs\<close>, the
  structures of \<open>keys.rs\<close> and the identity of \<open>auth.rs\<close>), and the third-party code the
  program calls, as records of functions: the clock arithmetic of the \<open>time\<close> crate, the
  \<open>fjall\<close> database, and the \<open>postcard\<close> and \<open>serde_json\<close> codecs.  Each such record is an
  argument of the definitions that use it.  What the program relies on is a locale: the
  laws of \<open>time_api\<close>, \<open>fjall_db\<close> and \<open>postcard_api\<close> restate the documented behaviour of
  those crates; their predicates are the named hypotheses of the properties.
\<close>

section \<open>Errors\<close>

datatype use_case_error = NotImplemented | NotFound | DomainErr domain_error | Storage string

datatype auth_error = InvalidCredential | InvalidKeyMaterial

datatype token_error =
    InvalidFormat | InvalidSignature | Expired | BucketMismatch
  | GenerationMismatch | NoSigningKey | Serialize

section \<open>Requests and results of the repositories\<close>

record stored_entry =
  se_value :: stored_value
  se_expires_at :: "instant option"

datatype txn_op = TxnSet key stored_value "instant option" | TxnDelete key

record list_opts =
  lo_prefix :: "bytes option"
  lo_limit :: nat
  lo_skip :: nat
  lo_reverse :: bool
  lo_include_values :: bool
  lo_expires_before :: "instant option"

record list_entry =
  le_key :: key
  le_value :: "stored_value option"

datatype resolved_identity = Anonymous | Admin | Scoped permission bytes

section \<open>The time crate\<close>

text \<open>
  An \<open>OffsetDateTime\<close> is the nanosecond it denotes (\<open>unix_timestamp_nanos\<close>): the crate
  compares instants by it.  \<open>i64\<close> seconds are 64-bit words read as signed.
\<close>

record time_ops =
  unix_timestamp :: "instant \<Rightarrow> i64"
  from_unix_timestamp :: "i64 \<Rightarrow> string + instant"
  checked_add_secs :: "instant \<Rightarrow> i64 \<Rightarrow> instant option"

abbreviation nanos :: int where "nanos \<equiv> 1000000000"

text \<open>
  The laws of a faithful \<open>time_ops\<close>: \<open>valid\<close> is the set of representable instants, an
  interval that contains the epoch; timestamps are floors; out-of-range results are refused.
\<close>

locale time_api =
  fixes T :: time_ops and valid :: "instant \<Rightarrow> bool"
  assumes unix_floor: "valid t \<Longrightarrow> sint (unix_timestamp T t) = t div nanos"
    and from_unix_Inr: "from_unix_timestamp T ts = Inr t \<Longrightarrow> valid t \<and> t = sint ts * nanos"
    and from_unix_total: "valid t \<Longrightarrow> \<exists>u. from_unix_timestamp T (unix_timestamp T t) = Inr u"
    and add_Some: "valid t \<Longrightarrow> checked_add_secs T t d = Some u \<Longrightarrow> valid u \<and> u = t + sint d * nanos"
    and add_None: "valid t \<Longrightarrow> checked_add_secs T t d = None \<Longrightarrow> \<not> valid (t + sint d * nanos)"
begin

text \<open>Storing an instant keeps its whole seconds.\<close>

lemma truncated: "valid t \<Longrightarrow> from_unix_timestamp T (unix_timestamp T t) = Inr (t div nanos * nanos)"
  using from_unix_total from_unix_Inr unix_floor by fastforce

text \<open>A whole-second instant has passed exactly when its second is at most the current one.\<close>

lemma whole_second_passed:
  assumes "from_unix_timestamp T ts = Inr e" and "valid now"
  shows "e \<le> now \<longleftrightarrow> sint ts \<le> sint (unix_timestamp T now)"
proof -
  have "e = sint ts * nanos" using from_unix_Inr [OF assms(1)] by simp
  then show ?thesis unfolding unix_floor [OF assms(2)] by (simp add: mult_le_iff_le_div)
qed

end

section \<open>The fjall database\<close>

text \<open>
  Keyspaces are addressed by name.  Reads return a value or the error's text; an iterator is
  the list of its guards, each of which may fail when it is read; a write returns its result
  and the database after it.
\<close>

datatype batch_op = BInsert string bytes bytes | BRemove string bytes

record 'db fjall_ops =
  fj_get :: "'db \<Rightarrow> string \<Rightarrow> bytes \<Rightarrow> string + bytes option"
  fj_contains_key :: "'db \<Rightarrow> string \<Rightarrow> bytes \<Rightarrow> string + bool"
  fj_insert :: "'db \<Rightarrow> string \<Rightarrow> bytes \<Rightarrow> bytes \<Rightarrow> (string + unit) \<times> 'db"
  fj_remove :: "'db \<Rightarrow> string \<Rightarrow> bytes \<Rightarrow> (string + unit) \<times> 'db"
  fj_prefix :: "'db \<Rightarrow> string \<Rightarrow> bytes \<Rightarrow> (string + bytes \<times> bytes) list"
  fj_iter :: "'db \<Rightarrow> string \<Rightarrow> (string + bytes \<times> bytes) list"
  fj_commit :: "'db \<Rightarrow> batch_op list \<Rightarrow> (string + unit) \<times> 'db"

text \<open>What a keyspace holds: a finite map is enough for the laws, so a map from names to maps.\<close>

type_synonym contents = "string \<Rightarrow> bytes \<Rightarrow> bytes option"

fun apply_bop :: "batch_op \<Rightarrow> contents \<Rightarrow> contents" where
  "apply_bop (BInsert ks k v) c = c(ks := (c ks)(k := Some v))"
| "apply_bop (BRemove ks k) c = c(ks := (c ks)(k := None))"

definition apply_bops :: "batch_op list \<Rightarrow> contents \<Rightarrow> contents" where
  "apply_bops ops c = fold apply_bop ops c"

lemma apply_bops_simps [simp]:
  "apply_bops [] c = c" "apply_bops (b # ops) c = apply_bops ops (apply_bop b c)"
  by (simp_all add: apply_bops_def)

lemma apply_bops_append: "apply_bops (a @ b) c = apply_bops b (apply_bops a c)"
  by (simp add: apply_bops_def)

fun oks :: "('e + 'a) list \<Rightarrow> 'a list" where
  "oks [] = []"
| "oks (Inl e # xs) = oks xs"
| "oks (Inr x # xs) = x # oks xs"

lemma oks_append [simp]: "oks (xs @ ys) = oks xs @ oks ys"
  by (induction xs rule: oks.induct) auto

lemma set_oks: "x \<in> set (oks gs) \<longleftrightarrow> Inr x \<in> set gs"
  by (induction gs rule: oks.induct) auto

lemma oks_map_Inr [simp]: "oks (map Inr xs) = xs"
  by (induction xs) auto

definition no_errors :: "('e + 'a) list \<Rightarrow> bool" where
  "no_errors gs \<longleftrightarrow> (\<forall>e. Inl e \<notin> set gs)"

text \<open>
  The laws of the database: a successful read reports the contents; a successful write has
  its effect; a failed write has all of its effect or none of it (a batch is atomic); an
  iterator delivers keys in ascending byte order, only keys of the keyspace under the
  prefix, and all of them when no guard fails.
\<close>

locale fjall_db =
  fixes F :: "'db fjall_ops" and view :: "'db \<Rightarrow> contents"
  assumes get_Inr: "fj_get F db ks k = Inr r \<Longrightarrow> r = view db ks k"
    and contains_Inr: "fj_contains_key F db ks k = Inr b \<Longrightarrow> b = (view db ks k \<noteq> None)"
    and insert_Inr: "fj_insert F db ks k v = (Inr u, db') \<Longrightarrow>
      view db' = apply_bop (BInsert ks k v) (view db)"
    and insert_Inl: "fj_insert F db ks k v = (Inl e, db') \<Longrightarrow>
      view db' = view db \<or> view db' = apply_bop (BInsert ks k v) (view db)"
    and remove_Inr: "fj_remove F db ks k = (Inr u, db') \<Longrightarrow>
      view db' = apply_bop (BRemove ks k) (view db)"
    and remove_Inl: "fj_remove F db ks k = (Inl e, db') \<Longrightarrow>
      view db' = view db \<or> view db' = apply_bop (BRemove ks k) (view db)"
    and commit_Inr: "fj_commit F db ops = (Inr u, db') \<Longrightarrow> view db' = apply_bops ops (view db)"
    and commit_Inl: "fj_commit F db ops = (Inl e, db') \<Longrightarrow>
      view db' = view db \<or> view db' = apply_bops ops (view db)"
    and prefix_sorted: "sorted_wrt (<) (map fst (oks (fj_prefix F db ks p)))"
    and prefix_sound: "(k, v) \<in> set (oks (fj_prefix F db ks p)) \<Longrightarrow>
      view db ks k = Some v \<and> starts_with k p"
    and prefix_complete: "no_errors (fj_prefix F db ks p) \<Longrightarrow> view db ks k = Some v \<Longrightarrow>
      starts_with k p \<Longrightarrow> (k, v) \<in> set (oks (fj_prefix F db ks p))"
    and iter_sorted: "sorted_wrt (<) (map fst (oks (fj_iter F db ks)))"
    and iter_sound: "(k, v) \<in> set (oks (fj_iter F db ks)) \<Longrightarrow> view db ks k = Some v"
    and iter_complete: "no_errors (fj_iter F db ks) \<Longrightarrow> view db ks k = Some v \<Longrightarrow>
      (k, v) \<in> set (oks (fj_iter F db ks))"
begin

lemma insert_cases:
  "fj_insert F db ks k v = (r, db') \<Longrightarrow>
     view db' = view db \<and> (\<exists>e. r = Inl e) \<or> view db' = apply_bop (BInsert ks k v) (view db)"
  using insert_Inr insert_Inl by (cases r) blast+

lemma remove_cases:
  "fj_remove F db ks k = (r, db') \<Longrightarrow>
     view db' = view db \<and> (\<exists>e. r = Inl e) \<or> view db' = apply_bop (BRemove ks k) (view db)"
  using remove_Inr remove_Inl by (cases r) blast+

lemma commit_cases:
  "fj_commit F db ops = (r, db') \<Longrightarrow>
     view db' = view db \<and> (\<exists>e. r = Inl e) \<or> view db' = apply_bops ops (view db)"
  using commit_Inr commit_Inl by (cases r) blast+

end

section \<open>The entry codec's wire format\<close>

record entry_codec =
  ec_payload :: bytes
  ec_kind :: value_kind
  ec_expires_unix :: "i64 option"

text \<open>
  \<open>postcard\<close>: encoding may fail with a message, and decoding inverts it.  The owned and the
  borrowed entry structures have the same wire format, so one decoder serves both.
\<close>

locale postcard_api =
  fixes enc :: "entry_codec \<Rightarrow> string + bytes" and dec :: "bytes \<Rightarrow> string + entry_codec"
  assumes dec_enc: "enc c = Inr b \<Longrightarrow> dec b = Inr c"

end
