(* ===== verification/Repository.thy ===== *)
theory Repository
  imports Ports
begin

text \<open>
  The contract of the port \<open>KeyRepository\<close> (\<open>keydock-usecase/src/ports.rs\<close>): what an adapter
  promises the use cases.  \<open>entry\<close> is the abstract content, a map from bucket and key to
  entry; each operation is described by its effect on that map, and \<open>good\<close> is whatever
  invariant the adapter needs, kept by every operation whether it succeeds or fails.
\<close>

section \<open>What the operations mean\<close>

text \<open>The entry a write leaves behind: the expiry is kept to the second.\<close>

definition truncated_entry :: "stored_value \<Rightarrow> instant option \<Rightarrow> stored_entry" where
  "truncated_entry v expires_at =
     \<lparr>se_value = v, se_expires_at = map_option (\<lambda>t. t div nanos * nanos) expires_at\<rparr>"

text \<open>The key an operation of a transaction is on.\<close>

fun txn_key :: "txn_op \<Rightarrow> key" where
  "txn_key (TxnSet k _ _) = k"
| "txn_key (TxnDelete k) = k"

text \<open>The transaction as a function on the entries of its bucket, in the order of the operations.\<close>

fun txn_effect :: "txn_op \<Rightarrow> (key \<Rightarrow> stored_entry option) \<Rightarrow> key \<Rightarrow> stored_entry option" where
  "txn_effect (TxnSet k v ex) m = m(k := Some (truncated_entry v ex))"
| "txn_effect (TxnDelete k) m = m(k := None)"

definition txn_effects :: "txn_op list \<Rightarrow> (key \<Rightarrow> stored_entry option) \<Rightarrow> key \<Rightarrow> stored_entry option" where
  "txn_effects ops m = fold txn_effect ops m"

fun txn_op_ok :: "(instant \<Rightarrow> bool) \<Rightarrow> txn_op \<Rightarrow> bool" where
  "txn_op_ok valid (TxnSet k v ex) \<longleftrightarrow> value_ok v \<and> pred_option valid ex"
| "txn_op_ok valid (TxnDelete k) \<longleftrightarrow> True"

text \<open>The operand of an increment, read off the abstract entry.\<close>

definition counter_base :: "instant \<Rightarrow> stored_entry option \<Rightarrow> domain_error + counter_value" where
  "counter_base now en =
     (case en of
        None \<Rightarrow> Inr (ValInt 0)
      | Some e \<Rightarrow>
          if (case se_expires_at e of Some ex \<Rightarrow> ex \<le> now | None \<Rightarrow> False) then Inr (ValInt 0)
          else CounterValue_from_stored (se_value e))"

definition incremented ::
  "instant \<Rightarrow> counter_op \<Rightarrow> stored_entry option \<Rightarrow> domain_error + stored_value" where
  "incremented now op en =
     (case counter_base now en of
        Inl e \<Rightarrow> Inl e
      | Inr c \<Rightarrow> (case CounterOp_apply op c of Inl e \<Rightarrow> Inl e | Inr c' \<Rightarrow> CounterValue_into_stored c'))"

lemma counter_base_ok: "counter_base now en = Inr c \<Longrightarrow> counter_value_ok c"
  by (auto simp: counter_base_def dest: CounterValue_from_stored_ok split: option.splits if_splits)

lemma incremented_ok: "incremented now op en = Inr v \<Longrightarrow> counter_op_ok op \<Longrightarrow> value_ok v"
  using counter_base_ok CounterOp_apply_ok CounterValue_into_stored_eq
  by (fastforce simp: incremented_def split: sum.splits)

lemma txn_effects_simps [simp]:
  "txn_effects [] m = m" "txn_effects (op # ops) m = txn_effects ops (txn_effect op m)"
  by (simp_all add: txn_effects_def)

section \<open>The contract\<close>

text \<open>
  The trait: an adapter's operations over its state.  A listing runs as a blocking task that
  may panic; an increment reads the clock itself.
\<close>

record 'st key_repo =
  kr_get :: "'st \<Rightarrow> bucket_id \<Rightarrow> key \<Rightarrow> use_case_error + stored_entry option"
  kr_set :: "'st \<Rightarrow> bucket_id \<Rightarrow> key \<Rightarrow> stored_value \<Rightarrow> instant option \<Rightarrow> (use_case_error + unit) \<times> 'st"
  kr_delete :: "'st \<Rightarrow> bucket_id \<Rightarrow> key \<Rightarrow> (use_case_error + bool) \<times> 'st"
  kr_list :: "'st \<Rightarrow> bucket_id \<Rightarrow> list_opts \<Rightarrow> (use_case_error + list_entry list) run"
  kr_increment :: "'st \<Rightarrow> instant \<Rightarrow> bucket_id \<Rightarrow> key \<Rightarrow> counter_op \<Rightarrow> instant option \<Rightarrow>
    (use_case_error + stored_value) \<times> 'st"
  kr_apply_batch :: "'st \<Rightarrow> bucket_id \<Rightarrow> txn_op list \<Rightarrow> (use_case_error + unit) \<times> 'st"

text \<open>
  \<open>bucket_valid\<close> are the bucket ids and \<open>valid\<close> the instants the adapter is used with.  A
  failed operation may have had its effect or not, never a part of it.
\<close>

locale key_repository =
  fixes R :: "'st key_repo"
    and entry :: "'st \<Rightarrow> bucket_id \<Rightarrow> key \<Rightarrow> stored_entry option"
    and good :: "'st \<Rightarrow> bool"
    and bucket_valid :: "bucket_id \<Rightarrow> bool"
    and valid :: "instant \<Rightarrow> bool"
  assumes get_reads: "kr_get R st b k = Inr en \<Longrightarrow> en = entry st b k"
    and set_writes: "kr_set R st b k v ex = (Inr u, st') \<Longrightarrow> value_ok v \<Longrightarrow> pred_option valid ex \<Longrightarrow>
      bucket_valid b \<Longrightarrow> bucket_valid b' \<Longrightarrow>
      entry st' b' k' = (if b' = b \<and> k' = k then Some (truncated_entry v ex) else entry st b' k')"
    and set_others: "kr_set R st b k v ex = (r, st') \<Longrightarrow> bucket_valid b \<Longrightarrow> bucket_valid b' \<Longrightarrow>
      (b', k') \<noteq> (b, k) \<Longrightarrow> entry st' b' k' = entry st b' k'"
    and set_keeps: "kr_set R st b k v ex = (r, st') \<Longrightarrow> good st \<Longrightarrow> good st'"
    and delete_removes: "kr_delete R st b k = (Inr existed, st') \<Longrightarrow> bucket_valid b \<Longrightarrow> bucket_valid b' \<Longrightarrow>
      entry st' b' k' = (if b' = b \<and> k' = k then None else entry st b' k')"
    and delete_found: "kr_delete R st b k = (Inr existed, st') \<Longrightarrow> entry st b k \<noteq> None \<Longrightarrow> existed"
    and delete_keeps: "kr_delete R st b k = (rd, st') \<Longrightarrow> good st \<Longrightarrow> good st'"
    and increment_adds: "kr_increment R st now b k op ex = (Inr v, st') \<Longrightarrow> incremented now op (entry st b k) = Inr v"
    and increment_writes: "kr_increment R st now b k op ex = (Inr v, st') \<Longrightarrow> counter_op_ok op \<Longrightarrow>
      pred_option valid ex \<Longrightarrow> bucket_valid b \<Longrightarrow> bucket_valid b' \<Longrightarrow>
      entry st' b' k' = (if b' = b \<and> k' = k then Some (truncated_entry v ex) else entry st b' k')"
    and increment_refused: "kr_increment R st now b k op ex = (Inl (DomainErr d), st') \<Longrightarrow>
      incremented now op (entry st b k) = Inl d \<and> st' = st"
    and increment_keeps: "kr_increment R st now b k op ex = (ri, st') \<Longrightarrow> good st \<Longrightarrow> good st'"
    and batch_atomic: "kr_apply_batch R st b ops = (r, st') \<Longrightarrow> list_all (txn_op_ok valid) ops \<Longrightarrow> bucket_valid b \<Longrightarrow>
      entry st' b = txn_effects ops (entry st b) \<or> entry st' b = entry st b \<and> (\<exists>e. r = Inl e)"
    and batch_others: "kr_apply_batch R st b ops = (r, st') \<Longrightarrow> list_all (txn_op_ok valid) ops \<Longrightarrow>
      bucket_valid b \<Longrightarrow> bucket_valid b' \<Longrightarrow> b' \<noteq> b \<Longrightarrow> entry st' b' = entry st b'"
    and batch_keeps: "kr_apply_batch R st b ops = (r, st') \<Longrightarrow> good st \<Longrightarrow> good st'"

end
