(* ===== verification/Repos.thy ===== *)
theory Repos
  imports Repository
begin

unbundle bit_operations_syntax

text \<open>
  \<open>keydock-fjall/src/repos.rs\<close>, \<open>error.rs\<close> and \<open>layout.rs\<close>: the layout of storage keys
  (\<open>bucket:key\<close>), the entry codec, and the expiry index, whose keys carry the expiry
  second in an order-preserving encoding so that the sweeper can stop at the first key
  that has not expired.  The lemmas: storage keys identify bucket and key as long as bucket
  ids contain no separator, both key formats parse back, and the byte order of index keys is
  the signed order of their seconds.
\<close>

section \<open>Keyspace names and adapter errors\<close>

definition META_KEYSPACE :: string where "META_KEYSPACE = ''meta''"
definition DATA_KEYSPACE :: string where "DATA_KEYSPACE = ''data''"
definition EXPIRY_KEYSPACE :: string where "EXPIRY_KEYSPACE = ''expiry''"

lemma keyspaces_distinct [simp]:
  "META_KEYSPACE \<noteq> DATA_KEYSPACE" "DATA_KEYSPACE \<noteq> META_KEYSPACE"
  "META_KEYSPACE \<noteq> EXPIRY_KEYSPACE" "EXPIRY_KEYSPACE \<noteq> META_KEYSPACE"
  "DATA_KEYSPACE \<noteq> EXPIRY_KEYSPACE" "EXPIRY_KEYSPACE \<noteq> DATA_KEYSPACE"
  by (simp_all add: META_KEYSPACE_def DATA_KEYSPACE_def EXPIRY_KEYSPACE_def)

datatype fjall_error = FjallE string | AdapterE string | CodecE string

fun kind_label :: "fjall_error \<Rightarrow> string" where
  "kind_label (FjallE _) = ''backend''"
| "kind_label (AdapterE _) = ''adapter''"
| "kind_label (CodecE _) = ''codec_entry''"

fun show_fjall_error :: "fjall_error \<Rightarrow> string" where
  "show_fjall_error (FjallE m) = m"
| "show_fjall_error (AdapterE m) = ''storage adapter error: '' @ m"
| "show_fjall_error (CodecE m) = ''storage codec error: '' @ m"

definition use_case_of_fjall :: "fjall_error \<Rightarrow> use_case_error" where
  "use_case_of_fjall e = Storage (show_fjall_error e)"

section \<open>Storage keys\<close>

definition COLON :: byte where "COLON = 0x3A"

definition data_storage_key :: "bucket_id \<Rightarrow> key \<Rightarrow> bytes" where
  "data_storage_key b k = as_str b @ [COLON] @ as_bytes k"

definition data_key_prefix :: "bucket_id \<Rightarrow> bytes option \<Rightarrow> bytes" where
  "data_key_prefix b user_prefix =
     as_str b @ [COLON] @ (case user_prefix of None \<Rightarrow> [] | Some p \<Rightarrow> p)"

definition user_key_from_storage_key :: "bytes \<Rightarrow> bucket_id \<Rightarrow> key option" where
  "user_key_from_storage_key sk b =
     (case strip_prefix (as_str b) sk of
        None \<Rightarrow> None
      | Some rest \<Rightarrow>
          (case strip_prefix [COLON] rest of
             None \<Rightarrow> None
           | Some rest' \<Rightarrow> (case Key_from_bytes rest' of Inl _ \<Rightarrow> None | Inr k \<Rightarrow> Some k)))"

text \<open>Bucket ids as the program creates them (UUID text) contain no separator.\<close>

definition bucket_ok :: "bucket_id \<Rightarrow> bool" where
  "bucket_ok b \<longleftrightarrow> COLON \<notin> set (as_str b)"

lemma data_storage_key_inj:
  assumes "bucket_ok b" and "bucket_ok b'" and "data_storage_key b k = data_storage_key b' k'"
  shows "b = b' \<and> k = k'"
  using assms sep_injective [of "as_str b" COLON "as_bytes k" "as_str b'" "as_bytes k'"]
  by (simp add: data_storage_key_def bucket_ok_def bucket_id.expand key.expand)

lemma data_storage_key_eq:
  "bucket_ok b \<Longrightarrow> bucket_ok b' \<Longrightarrow> data_storage_key b k = data_storage_key b' k' \<longleftrightarrow> b = b' \<and> k = k'"
  using data_storage_key_inj by blast

lemma data_storage_key_same [simp]: "data_storage_key b k = data_storage_key b k' \<longleftrightarrow> k = k'"
  by (auto simp: data_storage_key_def intro: key.expand)

lemma user_key_Some_iff:
  "user_key_from_storage_key sk b = Some k \<longleftrightarrow> sk = data_storage_key b k \<and> key_ok k"
proof (cases "\<exists>r. sk = as_str b @ [COLON] @ r")
  case True
  then obtain r where r: "sk = as_str b @ [COLON] @ r" by blast
  then have "user_key_from_storage_key sk b = (case Key_from_bytes r of Inl _ \<Rightarrow> None | Inr k \<Rightarrow> Some k)"
    using strip_prefix_append [of "[COLON]" r]
    by (simp add: user_key_from_storage_key_def del: append_Cons)
  then show ?thesis
    using r Key_from_bytes_Inr [of r] by (cases k) (auto simp: data_storage_key_def split: sum.splits)
next
  case False
  then have "user_key_from_storage_key sk b = None"
    by (auto simp: user_key_from_storage_key_def strip_prefix_Some_iff split: option.splits)
  then show ?thesis using False by (auto simp: data_storage_key_def)
qed

lemma storage_key_has_prefix:
  "starts_with (data_storage_key b k) (data_key_prefix b p) \<longleftrightarrow>
     (case p of None \<Rightarrow> True | Some q \<Rightarrow> starts_with (as_bytes k) q)"
  using starts_with_append_iff [of "as_str b @ [COLON]" "as_bytes k"]
  by (auto simp: data_storage_key_def data_key_prefix_def split: option.splits)

lemma storage_key_order: "data_storage_key b k < data_storage_key b k' \<longleftrightarrow> as_bytes k < as_bytes k'"
  by (simp add: data_storage_key_def)

section \<open>The entry codec\<close>

text \<open>The codec and the clock arithmetic the entry functions call.\<close>

record codec_ops =
  pc_enc :: "entry_codec \<Rightarrow> string + bytes"
  pc_dec :: "bytes \<Rightarrow> string + entry_codec"
  cd_time :: time_ops

definition encode_entry :: "codec_ops \<Rightarrow> stored_value \<Rightarrow> instant option \<Rightarrow> fjall_error + bytes" where
  "encode_entry C v expires_at =
     (case pc_enc C
        \<lparr>ec_payload = payload v, ec_kind = kind v,
         ec_expires_unix = map_option (unix_timestamp (cd_time C)) expires_at\<rparr> of
        Inl e \<Rightarrow> Inl (CodecE (''postcard encode: '' @ e))
      | Inr b \<Rightarrow> Inr b)"

definition expires_at_from_unix :: "codec_ops \<Rightarrow> i64 \<Rightarrow> fjall_error + instant" where
  "expires_at_from_unix C ts =
     (case from_unix_timestamp (cd_time C) ts of Inl e \<Rightarrow> Inl (CodecE e) | Inr t \<Rightarrow> Inr t)"

definition decode_entry_expires_unix :: "codec_ops \<Rightarrow> bytes \<Rightarrow> fjall_error + i64 option" where
  "decode_entry_expires_unix C b =
     (case pc_dec C b of
        Inl e \<Rightarrow> Inl (CodecE (''postcard decode: '' @ e))
      | Inr c \<Rightarrow> Inr (ec_expires_unix c))"

definition show_value_too_long :: "nat \<Rightarrow> nat \<Rightarrow> string" where
  "show_value_too_long mx got =
     ''value exceeds maximum length of '' @ map (\<lambda>b. char_of (unat b)) (show_nat mx) @ '' bytes (got ''
       @ map (\<lambda>b. char_of (unat b)) (show_nat got) @ '')''"

definition decode_entry :: "codec_ops \<Rightarrow> bytes \<Rightarrow> fjall_error + stored_entry" where
  "decode_entry C b =
     (case pc_dec C b of
        Inl e \<Rightarrow> Inl (CodecE (''postcard decode: '' @ e))
      | Inr c \<Rightarrow>
          (case StoredValue_new (ec_payload c) (ec_kind c) of
             Inl _ \<Rightarrow> Inl (CodecE (show_value_too_long MAX_VALUE_BYTES (length (ec_payload c))))
           | Inr v \<Rightarrow>
               (case ec_expires_unix c of
                  None \<Rightarrow> Inr \<lparr>se_value = v, se_expires_at = None\<rparr>
                | Some ts \<Rightarrow>
                    (case expires_at_from_unix C ts of
                       Inl e \<Rightarrow> Inl e
                     | Inr t \<Rightarrow> Inr \<lparr>se_value = v, se_expires_at = Some t\<rparr>))))"

section \<open>The expiry index\<close>

definition SIGN_BIT :: u64 where "SIGN_BIT = 0x8000000000000000"

fun be_bytes :: "nat \<Rightarrow> u64 \<Rightarrow> bytes" where
  "be_bytes 0 w = []"
| "be_bytes (Suc n) w = ucast (drop_bit (8 * n) w) # be_bytes n w"

definition to_be_bytes :: "u64 \<Rightarrow> bytes" where
  "to_be_bytes w = be_bytes 8 w"

definition from_be_bytes :: "bytes \<Rightarrow> u64" where
  "from_be_bytes b = foldl (\<lambda>a x. push_bit 8 a OR ucast x) 0 b"

definition encode_ordered_i64 :: "i64 \<Rightarrow> bytes" where
  "encode_ordered_i64 ts = to_be_bytes (from_be_bytes (to_be_bytes ts) XOR SIGN_BIT)"

definition decode_ordered_i64 :: "bytes \<Rightarrow> i64" where
  "decode_ordered_i64 b = from_be_bytes (to_be_bytes (from_be_bytes b XOR SIGN_BIT))"

definition EXPIRY_KEY_HEADER_LEN :: nat where "EXPIRY_KEY_HEADER_LEN = 8 + 1"

definition expiry_index_key :: "i64 \<Rightarrow> bytes \<Rightarrow> bytes" where
  "expiry_index_key ts sk = encode_ordered_i64 ts @ [COLON] @ sk"

definition parse_expiry_index_key :: "bytes \<Rightarrow> (i64 \<times> bytes) option" where
  "parse_expiry_index_key k =
     (if length k \<le> EXPIRY_KEY_HEADER_LEN then None
      else if k ! 8 \<noteq> COLON then None
      else Some (decode_ordered_i64 (take 8 k), drop EXPIRY_KEY_HEADER_LEN k))"

lemmas [repo_defs] =
  META_KEYSPACE_def DATA_KEYSPACE_def EXPIRY_KEYSPACE_def COLON_def data_storage_key_def
  data_key_prefix_def user_key_from_storage_key_def encode_entry_def expires_at_from_unix_def
  decode_entry_expires_unix_def decode_entry_def SIGN_BIT_def to_be_bytes_def from_be_bytes_def
  encode_ordered_i64_def decode_ordered_i64_def EXPIRY_KEY_HEADER_LEN_def expiry_index_key_def
  parse_expiry_index_key_def

section \<open>Big-endian bytes\<close>

lemma length_be_bytes [simp]: "length (be_bytes n w) = n"
  by (induction n) simp_all

lemma length_to_be_bytes [simp]: "length (to_be_bytes w) = 8"
  by (simp add: to_be_bytes_def)

text \<open>The value of a byte string read big-endian, as a natural number.\<close>

definition be_val :: "bytes \<Rightarrow> nat" where
  "be_val b = foldl (\<lambda>a x. 256 * a + unat x) 0 b"

lemma be_val_Nil [simp]: "be_val [] = 0"
  by (simp add: be_val_def)

lemma be_val_snoc [simp]: "be_val (b @ [x]) = 256 * be_val b + unat x"
  by (simp add: be_val_def)

lemma be_val_Cons: "be_val (x # b) = unat x * 256 ^ length b + be_val b"
proof (induction b rule: rev_induct)
  case Nil
  then show ?case by (simp add: be_val_def)
next
  case (snoc y ys)
  have "be_val (x # ys @ [y]) = 256 * be_val (x # ys) + unat y" using be_val_snoc [of "x # ys" y] by simp
  then show ?case using snoc by (simp add: algebra_simps)
qed

lemma be_val_bound: "be_val b < 256 ^ length b"
proof (induction b rule: rev_induct)
  case Nil
  then show ?case by simp
next
  case (snoc x xs)
  have "unat x < 256" using unsigned_less [of x, where ?'a = nat] by simp
  then show ?case using snoc by simp
qed

text \<open>Byte strings of one length compare as the numbers they denote.\<close>

lemma be_val_less:
  "length a = length b \<Longrightarrow> a < b \<longleftrightarrow> be_val a < be_val b"
proof (induction a b rule: list_induct2)
  case Nil
  then show ?case by simp
next
  case (Cons x xs y ys)
  have b: "be_val xs < 256 ^ length ys" "be_val ys < 256 ^ length ys"
    using be_val_bound [of xs] be_val_bound [of ys] Cons.hyps by simp_all
  have lt: "unat x < unat y \<Longrightarrow> be_val (x # xs) < be_val (y # ys)"
    if "length xs = length ys" for x y :: byte and xs ys :: bytes
  proof -
    assume "unat x < unat y"
    then have "(unat x + 1) * 256 ^ length ys \<le> unat y * 256 ^ length ys" by (intro mult_right_mono) simp_all
    then show ?thesis using be_val_bound [of xs] that by (simp add: be_val_Cons algebra_simps)
  qed
  show ?case
  proof (cases "x = y")
    case True
    then show ?thesis using Cons by (simp add: be_val_Cons)
  next
    case False
    then consider "unat x < unat y" | "unat y < unat x" by (metis linorder_neqE_nat word_unat_eq_iff)
    then show ?thesis
      by cases (use lt [of xs ys x y] lt [of ys xs y x] Cons.hyps False in \<open>auto simp: word_less_nat_alt\<close>)
  qed
qed

lemma be_val_be_bytes: "n \<le> 8 \<Longrightarrow> be_val (be_bytes n w) = unat w mod 256 ^ n"
proof (induction n)
  case 0
  then show ?case by simp
next
  case (Suc n)
  have "unat (drop_bit (8 * n) w) = unat w div 256 ^ n"
    using drop_bit_eq_div [of "8 * n" "unat w"] by (simp add: unat_drop_bit_eq power_mult del: drop_bit_eq_div)
  then have "unat (ucast (drop_bit (8 * n) w) :: byte) = unat w div 256 ^ n mod 256"
    by (simp only: unsigned_ucast_eq take_bit_eq_mod) simp
  moreover have "unat w mod 256 ^ Suc n = 256 ^ n * (unat w div 256 ^ n mod 256) + unat w mod 256 ^ n"
    using mod_mult2_eq [of "unat w" "256 ^ n" 256] by (simp add: mult.commute)
  ultimately show ?case using Suc by (simp add: be_val_Cons mult.commute)
qed

lemma be_val_to_be_bytes [simp]: "be_val (to_be_bytes w) = unat w"
  using unsigned_less [of w, where ?'a = nat] by (simp add: to_be_bytes_def be_val_be_bytes)

lemma from_be_bytes_snoc: "from_be_bytes (b @ [x]) = push_bit 8 (from_be_bytes b) OR ucast x"
  by (simp add: from_be_bytes_def)

lemma from_be_bytes_eq: "length b \<le> 8 \<Longrightarrow> from_be_bytes b = of_nat (be_val b)"
proof (induction b rule: rev_induct)
  case Nil
  then show ?case by (simp add: from_be_bytes_def)
next
  case (snoc x xs)
  have "push_bit 8 (from_be_bytes xs) AND ucast x = (0 :: u64)"
    by (rule bit_word_eqI) (auto simp: bit_simps dest: bit_imp_le_length)
  then have "from_be_bytes (xs @ [x]) = push_bit 8 (from_be_bytes xs) + (ucast x :: u64)"
    by (metis disjunctive_add_eq_or from_be_bytes_snoc)
  also have "\<dots> = from_be_bytes xs * 256 + of_nat (unat x)" by (simp add: push_bit_eq_mult)
  also have "\<dots> = of_nat (be_val (xs @ [x]))" using snoc by (simp add: mult.commute)
  finally show ?case .
qed

lemma from_to_be_bytes [simp]: "from_be_bytes (to_be_bytes w) = w"
  by (simp add: from_be_bytes_eq)

lemma to_from_be_bytes: "length b = 8 \<Longrightarrow> to_be_bytes (from_be_bytes b) = b"
proof -
  assume b: "length b = 8"
  then have "be_val b < 2 ^ 64" using be_val_bound [of b] by simp
  then have "unat (from_be_bytes b) = be_val b"
    using b by (simp add: from_be_bytes_eq unat_of_nat take_bit_nat_eq_self)
  then have "be_val (to_be_bytes (from_be_bytes b)) = be_val b" by simp
  then show ?thesis
    using be_val_less [of "to_be_bytes (from_be_bytes b)" b] be_val_less [of b "to_be_bytes (from_be_bytes b)"] b
    by (metis length_to_be_bytes less_irrefl linorder_neqE)
qed

section \<open>The ordered encoding\<close>

lemma decode_encode_ordered: "decode_ordered_i64 (encode_ordered_i64 ts) = ts"
  by (simp add: decode_ordered_i64_def encode_ordered_i64_def xor.assoc)

lemma length_encode_ordered [simp]: "length (encode_ordered_i64 ts) = 8"
  by (simp add: encode_ordered_i64_def)

lemma sign_flip_uint: "uint (w XOR SIGN_BIT) = sint (w :: 64 word) + 2 ^ 63"
proof -
  have "uint (w XOR SIGN_BIT) = flip_bit 63 (uint w)"
    by (simp add: SIGN_BIT_def uint_xor flip_bit_eq_xor push_bit_eq_mult)
  also have "\<dots> = (if bit (uint w) 63 then uint w - 2 ^ 63 else uint w + 2 ^ 63)"
    by (simp add: flip_bit_eq_if set_bit_eq unset_bit_eq)
  also have "\<dots> = sint w + 2 ^ 63"
    using take_bit_int_eq_self_iff [of 64 "uint w"] uint_bounded [of w]
    by (simp add: sint_uint signed_take_bit_eq_take_bit_minus)
  finally show ?thesis .
qed

lemma encode_ordered_less: "encode_ordered_i64 a < encode_ordered_i64 b \<longleftrightarrow> sint a < sint b"
proof -
  have "encode_ordered_i64 a < encode_ordered_i64 b \<longleftrightarrow> unat (a XOR SIGN_BIT) < unat (b XOR SIGN_BIT)"
    by (simp add: encode_ordered_i64_def be_val_less)
  also have "\<dots> \<longleftrightarrow> uint (a XOR SIGN_BIT) < uint (b XOR SIGN_BIT)"
    by (simp flip: word_less_nat_alt word_less_def)
  finally show ?thesis by (simp add: sign_flip_uint)
qed

lemma parse_expiry_index_key_build:
  "sk \<noteq> [] \<Longrightarrow> parse_expiry_index_key (expiry_index_key ts sk) = Some (ts, sk)"
  by (simp add: parse_expiry_index_key_def expiry_index_key_def EXPIRY_KEY_HEADER_LEN_def
      nth_append decode_encode_ordered)

lemma encode_decode_ordered: "length b = 8 \<Longrightarrow> encode_ordered_i64 (decode_ordered_i64 b) = b"
  by (simp add: decode_ordered_i64_def encode_ordered_i64_def xor.assoc to_from_be_bytes)

lemma parse_expiry_index_key_Some:
  assumes "parse_expiry_index_key k = Some (ts, sk)"
  shows "k = expiry_index_key ts sk"
proof -
  have k: "8 < length k" "k ! 8 = COLON" "ts = decode_ordered_i64 (take 8 k)" "sk = drop 9 k"
    using assms by (auto simp: parse_expiry_index_key_def EXPIRY_KEY_HEADER_LEN_def split: if_splits)
  then have "encode_ordered_i64 ts = take 8 k" by (simp add: encode_decode_ordered)
  moreover have "drop 8 k = COLON # sk" using k by (metis Cons_nth_drop_Suc numeral_eq_Suc pred_numeral_simps(3) One_nat_def Suc_numeral semiring_norm(5))
  ultimately show ?thesis by (metis append_Cons append_Nil append_take_drop_id expiry_index_key_def)
qed

lemma expiry_index_key_inj:
  "expiry_index_key ts sk = expiry_index_key ts' sk' \<longleftrightarrow> ts = ts' \<and> sk = sk'"
  by (auto simp: expiry_index_key_def) (metis decode_encode_ordered)

lemma expiry_index_key_mono:
  "sint ts < sint ts' \<Longrightarrow> expiry_index_key ts sk < expiry_index_key ts' sk'"
  using encode_ordered_less list_less_append_eqlen by (simp add: expiry_index_key_def)

lemma data_storage_key_not_Nil [simp]: "data_storage_key b k \<noteq> []"
  by (simp add: data_storage_key_def)

section \<open>Properties\<close>

text \<open>
  The expiry index is ordered by time: an index key parses back to its second and storage
  key, and index keys of different seconds compare, byte by byte, as the seconds do as signed
  numbers, so that a scan in key order is a scan in time order.
\<close>

lemma expiry_index_ordered_by_time:
  assumes "sk \<noteq> []" and "sk' \<noteq> []"
  shows "parse_expiry_index_key (expiry_index_key ts sk) = Some (ts, sk)
    \<and> (sint ts < sint ts' \<longrightarrow> expiry_index_key ts sk < expiry_index_key ts' sk')
    \<and> (expiry_index_key ts sk = expiry_index_key ts' sk' \<longleftrightarrow> ts = ts' \<and> sk = sk')"
  using assms parse_expiry_index_key_build expiry_index_key_mono expiry_index_key_inj by blast

lemma expiry_index_ordered_by_time_example:
  "parse_expiry_index_key (expiry_index_key (- 1) [7]) = Some (- 1, [7])
     \<and> expiry_index_key (- 1) [7] < expiry_index_key 1 [3]"
  using expiry_index_ordered_by_time [of "[7]" "[3]" "- 1" 1] by simp

end
