(* ===== verification/Locks.thy ===== *)
theory Locks
  imports Repos
begin

text \<open>
  \<open>keydock-fjall/src/locks.rs\<close>: 64 mutexes that serialize writers of storage keys.
  \<open>lock_for\<close> and \<open>lock_stripes_for_keys\<close> are the code; a mutex is poisoned when a thread
  panicked while holding it.  The second half is the blocking behaviour of many threads: a
  step relation in which a thread starts with the stripe list the code computes, takes its
  stripes one by one (blocking while another thread holds the next one) and drops them all
  when its operation is done.  Every reachable state keeps the stripes disjoint between
  threads, and some thread can always move: ascending acquisition cannot deadlock.
\<close>

definition WRITE_LOCK_STRIPES :: nat where "WRITE_LOCK_STRIPES = 64"

text \<open>The hash is the standard library's \<open>DefaultHasher\<close>, whose algorithm is unspecified.\<close>

definition stripe_index :: "(bytes \<Rightarrow> u64) \<Rightarrow> bytes \<Rightarrow> nat" where
  "stripe_index hash storage_key = unat (hash storage_key) mod WRITE_LOCK_STRIPES"

definition lock_for :: "(bytes \<Rightarrow> u64) \<Rightarrow> (nat \<Rightarrow> bool) \<Rightarrow> bytes \<Rightarrow> fjall_error + nat" where
  "lock_for hash poisoned storage_key =
     (let idx = stripe_index hash storage_key
      in if poisoned idx then Inl (AdapterE ''write lock poisoned'') else Inr idx)"

fun lock_all :: "(nat \<Rightarrow> bool) \<Rightarrow> nat list \<Rightarrow> nat list \<Rightarrow> fjall_error + nat list" where
  "lock_all poisoned guards [] = Inr guards"
| "lock_all poisoned guards (idx # rest) =
     (if poisoned idx then Inl (AdapterE ''write lock poisoned'')
      else lock_all poisoned (guards @ [idx]) rest)"

definition stripes_of :: "(bytes \<Rightarrow> u64) \<Rightarrow> bytes list \<Rightarrow> nat list" where
  "stripes_of hash storage_keys = remdups_adj (sort (map (stripe_index hash) storage_keys))"

definition lock_stripes_for_keys ::
  "(bytes \<Rightarrow> u64) \<Rightarrow> (nat \<Rightarrow> bool) \<Rightarrow> bytes list \<Rightarrow> fjall_error + nat list" where
  "lock_stripes_for_keys hash poisoned storage_keys =
     lock_all poisoned [] (stripes_of hash storage_keys)"

section \<open>The stripe list\<close>

lemma stripe_index_bound: "stripe_index hash k < WRITE_LOCK_STRIPES"
  by (simp add: stripe_index_def WRITE_LOCK_STRIPES_def)

lemma set_stripes_of: "set (stripes_of hash ks) = stripe_index hash ` set ks"
  by (simp add: stripes_of_def)

lemma distinct_adj_sorted: "sorted (xs :: nat list) \<Longrightarrow> distinct_adj xs \<Longrightarrow> distinct xs"
  by (induction xs rule: induct_list012) fastforce+

lemma stripes_of_strict: "sorted_wrt (<) (stripes_of hash ks)"
  unfolding stripes_of_def strict_sorted_iff
  by (simp add: distinct_adj_sorted)

lemma lock_all_eq:
  "lock_all p g xs = (if \<exists>i \<in> set xs. p i then Inl (AdapterE ''write lock poisoned'') else Inr (g @ xs))"
  by (induction xs arbitrary: g) auto

lemma lock_stripes_for_keys_eq:
  "lock_stripes_for_keys hash p ks =
     (if \<exists>k \<in> set ks. p (stripe_index hash k) then Inl (AdapterE ''write lock poisoned'')
      else Inr (stripes_of hash ks))"
  by (simp add: lock_stripes_for_keys_def lock_all_eq set_stripes_of)

section \<open>Threads\<close>

record 't lock_state =
  held :: "'t \<Rightarrow> nat set"
  want :: "'t \<Rightarrow> nat list"

definition lock_init :: "'t lock_state" where
  "lock_init = \<lparr>held = (\<lambda>_. {}), want = (\<lambda>_. [])\<rparr>"

inductive lock_step :: "(bytes \<Rightarrow> u64) \<Rightarrow> 't lock_state \<Rightarrow> 't lock_state \<Rightarrow> bool" for hash where
  begin_op: "held s t = {} \<Longrightarrow> want s t = [] \<Longrightarrow>
     lock_step hash s (s\<lparr>want := (want s)(t := stripes_of hash ks)\<rparr>)"
| acquire: "want s t = i # rest \<Longrightarrow> (\<forall>u. i \<notin> held s u) \<Longrightarrow>
     lock_step hash s (s\<lparr>held := (held s)(t := insert i (held s t)), want := (want s)(t := rest)\<rparr>)"
| release: "want s t = [] \<Longrightarrow> held s t \<noteq> {} \<Longrightarrow>
     lock_step hash s (s\<lparr>held := (held s)(t := {})\<rparr>)"

inductive lock_reachable :: "(bytes \<Rightarrow> u64) \<Rightarrow> 't lock_state \<Rightarrow> bool" for hash where
  lock_start: "lock_reachable hash lock_init"
| lock_next: "lock_reachable hash s \<Longrightarrow> lock_step hash s s' \<Longrightarrow> lock_reachable hash s'"

text \<open>A step in which an operation makes progress: it takes a stripe, or it ends.\<close>

definition progresses :: "(bytes \<Rightarrow> u64) \<Rightarrow> 't lock_state \<Rightarrow> 't \<Rightarrow> bool" where
  "progresses hash s t \<longleftrightarrow>
     (\<exists>s'. lock_step hash s s' \<and> (length (want s' t) < length (want s t)
       \<or> want s t = [] \<and> held s t \<noteq> {} \<and> held s' t = {}))"

definition lock_inv :: "'t lock_state \<Rightarrow> bool" where
  "lock_inv s \<longleftrightarrow>
     (\<forall>t. sorted_wrt (<) (want s t) \<and> set (want s t) \<subseteq> {..<WRITE_LOCK_STRIPES}
        \<and> (\<forall>h \<in> held s t. \<forall>w \<in> set (want s t). h < w))
   \<and> (\<forall>t u. t \<noteq> u \<longrightarrow> held s t \<inter> held s u = {})"

lemma lock_inv_init: "lock_inv lock_init"
  by (simp add: lock_inv_def lock_init_def)

lemma lock_step_inv: "lock_step hash s s' \<Longrightarrow> lock_inv s \<Longrightarrow> lock_inv s'"
proof (induction rule: lock_step.induct)
  case (begin_op s t ks)
  then show ?case
    using stripes_of_strict set_stripes_of stripe_index_bound by (fastforce simp: lock_inv_def)
next
  case (acquire s t i rest)
  have "sorted_wrt (<) (i # rest)" "set (i # rest) \<subseteq> {..<WRITE_LOCK_STRIPES}"
    "\<forall>h \<in> held s t. \<forall>w \<in> set (i # rest). h < w"
    using acquire.prems acquire.hyps(1) unfolding lock_inv_def by metis+
  then show ?case
    using acquire.prems acquire.hyps(2) unfolding lock_inv_def by auto
next
  case (release s t)
  then show ?case by (simp add: lock_inv_def)
qed

lemma lock_reachable_inv: "lock_reachable hash s \<Longrightarrow> lock_inv s"
  by (induction rule: lock_reachable.induct) (auto intro: lock_inv_init lock_step_inv)

lemma acquire_progresses:
  "want s t = i # rest \<Longrightarrow> \<forall>u. i \<notin> held s u \<Longrightarrow> progresses hash s t"
  unfolding progresses_def by (rule exI, rule conjI, erule (1) lock_step.acquire) simp

lemma release_progresses: "want s t = [] \<Longrightarrow> held s t \<noteq> {} \<Longrightarrow> progresses hash s t"
  unfolding progresses_def by (rule exI, rule conjI, erule (1) lock_step.release) simp

lemma max_waiting:
  assumes "lock_inv s" and "want s t \<noteq> []"
  shows "\<exists>u. want s u \<noteq> [] \<and> (\<forall>v. want s v \<noteq> [] \<longrightarrow> hd (want s v) \<le> hd (want s u))"
proof -
  let ?P = "\<lambda>i. \<exists>v. want s v \<noteq> [] \<and> hd (want s v) = i"
  have "?P i \<Longrightarrow> i < WRITE_LOCK_STRIPES" for i
    using assms(1) unfolding lock_inv_def by (metis hd_in_set lessThan_iff subset_iff)
  then have "\<exists>m. ?P m \<and> (\<forall>i. ?P i \<longrightarrow> i \<le> m)"
    using assms(2) ex_has_greatest_nat [of ?P _ "\<lambda>i. i"] by (metis less_imp_le)
  then show ?thesis by metis
qed

text \<open>
  Striped locking cannot deadlock: in every reachable state where some operation still
  waits for a stripe, some operation can take its next stripe or finish.  The proof rests on
  the code's order of acquisition (sorted and deduplicated stripe indices).
\<close>

lemma locks_deadlock_free:
  assumes "lock_reachable hash s" and "want s t \<noteq> []"
  shows "\<exists>u. progresses hash s u"
proof -
  have inv: "lock_inv s" using assms(1) by (rule lock_reachable_inv)
  obtain u where u: "want s u \<noteq> []" "\<And>v. want s v \<noteq> [] \<Longrightarrow> hd (want s v) \<le> hd (want s u)"
    using max_waiting [OF inv assms(2)] by blast
  obtain i rest where ir: "want s u = i # rest" using u(1) by (cases "want s u") auto
  show ?thesis
  proof (cases "\<exists>v. i \<in> held s v")
    case False
    then show ?thesis using acquire_progresses [OF ir] by blast
  next
    case True
    then obtain v where v: "i \<in> held s v" by blast
    have "want s v = []"
    proof (rule ccontr)
      assume n: "want s v \<noteq> []"
      then have "i < hd (want s v)" using inv v hd_in_set unfolding lock_inv_def by blast
      then show False using u(2) [OF n] ir by simp
    qed
    from release_progresses [OF this] v show ?thesis by blast
  qed
qed

definition lock_example :: "nat lock_state" where
  "lock_example = lock_init\<lparr>want := (want lock_init)(0 := stripes_of (\<lambda>_. 5) [[1]])\<rparr>"

lemma locks_deadlock_free_example:
  "lock_reachable (\<lambda>_. 5) lock_example \<and> want lock_example 0 \<noteq> []
     \<and> (\<exists>u. progresses (\<lambda>_. 5) lock_example u)"
proof -
  have r: "lock_reachable (\<lambda>_. 5) lock_example"
    unfolding lock_example_def
    by (rule lock_next [OF lock_start]) (rule lock_step.begin_op; simp add: lock_init_def)
  have w: "want lock_example 0 \<noteq> []"
    by (simp add: lock_example_def stripes_of_def)
  show ?thesis using r w locks_deadlock_free [OF r w] by blast
qed

text \<open>
  The locks a batch holds are exactly those of its keys: acquisition succeeds unless one
  of the keys' stripes is poisoned, and then it returns the distinct stripes of all keys in
  ascending order.
\<close>

lemma batch_locks_cover_keys:
  "case lock_stripes_for_keys hash poisoned ks of
     Inl e \<Rightarrow> e = AdapterE ''write lock poisoned'' \<and> (\<exists>k \<in> set ks. poisoned (stripe_index hash k))
   | Inr guards \<Rightarrow> set guards = stripe_index hash ` set ks \<and> sorted_wrt (<) guards
       \<and> distinct guards \<and> length guards \<le> WRITE_LOCK_STRIPES"
proof (cases "\<exists>k \<in> set ks. poisoned (stripe_index hash k)")
  case True
  then show ?thesis by (simp add: lock_stripes_for_keys_eq)
next
  case False
  have d: "distinct (stripes_of hash ks)" using stripes_of_strict strict_sorted_iff by blast
  have "set (stripes_of hash ks) \<subseteq> {..<WRITE_LOCK_STRIPES}"
    using stripe_index_bound by (auto simp: set_stripes_of)
  then have "card (set (stripes_of hash ks)) \<le> WRITE_LOCK_STRIPES"
    using card_mono [of "{..<WRITE_LOCK_STRIPES}"] by simp
  then have "length (stripes_of hash ks) \<le> WRITE_LOCK_STRIPES" using d by (simp add: distinct_card)
  then show ?thesis
    using False d stripes_of_strict by (simp add: lock_stripes_for_keys_eq set_stripes_of)
qed

end
