(* ===== verification/Backend.thy ===== *)
theory Backend
  imports Repos "HOL-Library.Monad_Syntax"
begin

text \<open>
  Concrete instances of the third-party interfaces, on which the interface locales are
  interpreted: an in-memory ordered store for \<open>fjall\<close>, the \<open>postcard\<close> wire format of the
  entry structure (varint lengths, zigzag integers) and the instants of the \<open>time\<close> crate
  (years -9999 to 9999).  They show that the laws the adapter relies on are consistent, and
  the witnesses evaluate the model on them.  No property of the program depends on them.
\<close>

section \<open>Instants\<close>

definition time_min :: int where "time_min = - 377705116800"
definition time_max :: int where "time_max = 253402300799"

definition time_valid :: "instant \<Rightarrow> bool" where
  "time_valid t \<longleftrightarrow> time_min \<le> t div nanos \<and> t div nanos \<le> time_max"

definition time_crate :: time_ops where
  "time_crate =
     \<lparr>unix_timestamp = (\<lambda>t. of_int (t div nanos)),
      from_unix_timestamp = (\<lambda>ts.
        if time_valid (sint ts * nanos) then Inr (sint ts * nanos) else Inl ''component range''),
      checked_add_secs = (\<lambda>t d.
        if time_valid (t + sint d * nanos) then Some (t + sint d * nanos) else None)\<rparr>"

lemma sint_time_second: "time_valid t \<Longrightarrow> sint (of_int (t div nanos) :: i64) = t div nanos"
  by (rule sint_of_int_i64) (auto simp: time_valid_def time_min_def time_max_def i64_min_def i64_max_def)

interpretation time_crate: time_api time_crate time_valid
proof unfold_locales
  show "\<exists>u. from_unix_timestamp time_crate (unix_timestamp time_crate t) = Inr u" if "time_valid t" for t
    using sint_time_second [OF that] that by (simp add: time_crate_def time_valid_def)
qed (auto simp: time_crate_def sint_time_second split: if_splits)

section \<open>The ordered store\<close>

type_synonym mem_db = "string \<Rightarrow> (bytes \<times> bytes) list"

definition mem_view :: "mem_db \<Rightarrow> contents" where
  "mem_view db ks = map_of (db ks)"

definition mem_entries :: "(bytes \<times> bytes) list \<Rightarrow> (bytes \<times> bytes) list" where
  "mem_entries m = map (\<lambda>k. (k, the (map_of m k))) (sort (remdups (map fst m)))"

fun mem_apply :: "batch_op \<Rightarrow> mem_db \<Rightarrow> mem_db" where
  "mem_apply (BInsert ks k v) db = db(ks := (k, v) # db ks)"
| "mem_apply (BRemove ks k) db = db(ks := filter (\<lambda>e. fst e \<noteq> k) (db ks))"

definition mem_fjall :: "mem_db fjall_ops" where
  "mem_fjall =
     \<lparr>fj_get = (\<lambda>db ks k. Inr (map_of (db ks) k)),
      fj_contains_key = (\<lambda>db ks k. Inr (map_of (db ks) k \<noteq> None)),
      fj_insert = (\<lambda>db ks k v. (Inr (), mem_apply (BInsert ks k v) db)),
      fj_remove = (\<lambda>db ks k. (Inr (), mem_apply (BRemove ks k) db)),
      fj_prefix = (\<lambda>db ks p. map Inr (filter (\<lambda>e. starts_with (fst e) p) (mem_entries (db ks)))),
      fj_iter = (\<lambda>db ks. map Inr (mem_entries (db ks))),
      fj_commit = (\<lambda>db ops. (Inr (), fold mem_apply ops db))\<rparr>"

lemma map_of_filter_key: "map_of (filter (\<lambda>e. fst e \<noteq> k) m) = (map_of m)(k := None)"
  by (induction m) auto

lemma mem_apply_view: "mem_view (mem_apply b db) = apply_bop b (mem_view db)"
  by (cases b) (auto simp: mem_view_def fun_eq_iff map_of_filter_key)

lemma mem_fold_view: "mem_view (fold mem_apply ops db) = apply_bops ops (mem_view db)"
  by (induction ops arbitrary: db) (simp_all add: mem_apply_view)

lemma mem_entries_sorted: "sorted_wrt (<) (map fst (mem_entries m))"
  by (simp add: mem_entries_def o_def strict_sorted_iff)

lemma sorted_filter_entries: "sorted_wrt (<) (map fst (filter P (mem_entries m)))"
  using mem_entries_sorted sorted_wrt_filter [of "\<lambda>x y. fst x < fst y" "mem_entries m" P]
  by (simp add: sorted_wrt_map)

lemma mem_entries_iff: "(k, v) \<in> set (mem_entries m) \<longleftrightarrow> map_of m k = Some v"
proof -
  have "k \<in> fst ` set m \<longleftrightarrow> map_of m k \<noteq> None" by (simp add: map_of_eq_None_iff)
  then show ?thesis by (auto simp: mem_entries_def image_iff)
qed

interpretation mem: fjall_db mem_fjall mem_view
  by unfold_locales
    (auto simp: mem_fjall_def mem_apply_view mem_fold_view mem_entries_sorted sorted_filter_entries
      mem_entries_iff set_oks mem_view_def [of _ _ ] simp del: mem_apply.simps apply_bop.simps)

section \<open>The wire format of entries\<close>

fun varint_enc :: "nat \<Rightarrow> bytes" where
  "varint_enc n = (if n < 128 then [of_nat n] else of_nat (n mod 128 + 128) # varint_enc (n div 128))"

declare varint_enc.simps [simp del]

fun varint_dec :: "bytes \<Rightarrow> (nat \<times> bytes) option" where
  "varint_dec [] = None"
| "varint_dec (b # r) =
     (if unat b < 128 then Some (unat b, r)
      else (case varint_dec r of None \<Rightarrow> None | Some (n, r') \<Rightarrow> Some (unat b - 128 + 128 * n, r')))"

lemma unat_of_nat_byte: "n < 256 \<Longrightarrow> unat (of_nat n :: byte) = n"
  by (simp add: unat_of_nat take_bit_nat_eq_self)

lemma varint_roundtrip: "varint_dec (varint_enc n @ r) = Some (n, r)"
proof (induction n rule: varint_enc.induct)
  case (1 n)
  show ?case
  proof (cases "n < 128")
    case True
    then show ?thesis by (simp add: varint_enc.simps [of n] unat_of_nat_byte)
  next
    case False
    moreover have "n mod 128 + 128 < 256" by simp
    ultimately show ?thesis
      using 1 by (simp add: varint_enc.simps [of n] unat_of_nat_byte del: of_nat_add)
  qed
qed

fun zigzag :: "int \<Rightarrow> nat" where
  "zigzag i = (if 0 \<le> i then nat (2 * i) else nat (- 2 * i - 1))"

fun unzigzag :: "nat \<Rightarrow> int" where
  "unzigzag n = (if even n then int (n div 2) else - int (n div 2) - 1)"

lemma zigzag_roundtrip: "unzigzag (zigzag i) = i"
  by (simp add: even_nat_iff zdiv_int) linarith

fun kind_index :: "value_kind \<Rightarrow> byte" where
  "kind_index Raw = 0" | "kind_index Utf8 = 1" | "kind_index Int64 = 2"
| "kind_index Float64 = 3" | "kind_index Json = 4"

definition kind_of_index :: "byte \<Rightarrow> value_kind option" where
  "kind_of_index b = find (\<lambda>k. kind_index k = b) [Raw, Utf8, Int64, Float64, Json]"

lemma kind_roundtrip: "kind_of_index (kind_index k) = Some k"
  by (cases k) (simp_all add: kind_of_index_def)

definition entry_enc :: "entry_codec \<Rightarrow> string + bytes" where
  "entry_enc c =
     Inr (varint_enc (length (ec_payload c)) @ ec_payload c @ [kind_index (ec_kind c)] @
       (case ec_expires_unix c of None \<Rightarrow> [0] | Some ts \<Rightarrow> 1 # varint_enc (zigzag (sint ts))))"

fun opt_dec :: "bytes \<Rightarrow> i64 option option" where
  "opt_dec [] = None"
| "opt_dec (t # r) =
     (if t = 0 then Some None
      else if t = 1 then
        (case varint_dec r of None \<Rightarrow> None | Some (n, _) \<Rightarrow> Some (Some (of_int (unzigzag n))))
      else None)"

definition entry_dec :: "bytes \<Rightarrow> string + entry_codec" where
  "entry_dec b =
     (case varint_dec b of
        None \<Rightarrow> Inl ''unexpected end''
      | Some (n, r) \<Rightarrow>
          (case drop n r of
             [] \<Rightarrow> Inl ''unexpected end''
           | t # r' \<Rightarrow>
               (case (kind_of_index t, opt_dec r') of
                  (Some k, Some ex) \<Rightarrow>
                    Inr \<lparr>ec_payload = take n r, ec_kind = k, ec_expires_unix = ex\<rparr>
                | _ \<Rightarrow> Inl ''unexpected value'')))"

interpretation wire: postcard_api entry_enc entry_dec
proof unfold_locales
  fix c b assume "entry_enc c = Inr b"
  moreover have "opt_dec (1 # varint_enc (zigzag (sint ts))) = Some (Some ts)" for ts :: i64
    using varint_roundtrip [of "zigzag (sint ts)" "[]"] zigzag_roundtrip [of "sint ts"]
    by (simp del: zigzag.simps unzigzag.simps)
  ultimately show "entry_dec b = Inr c"
    by (cases c) (auto simp: entry_enc_def entry_dec_def varint_roundtrip kind_roundtrip
        split: option.splits simp del: zigzag.simps)
qed

definition wire_codec :: codec_ops where
  "wire_codec = \<lparr>pc_enc = entry_enc, pc_dec = entry_dec, cd_time = time_crate\<rparr>"

section \<open>Structures as bytes\<close>

text \<open>Length-prefixed fields, for the structures the program stores and signs as JSON.\<close>

definition put_bytes :: "bytes \<Rightarrow> bytes" where
  "put_bytes b = varint_enc (length b) @ b"

definition get_bytes :: "bytes \<Rightarrow> (bytes \<times> bytes) option" where
  "get_bytes s = (case varint_dec s of None \<Rightarrow> None | Some (n, r) \<Rightarrow> Some (take n r, drop n r))"

definition put_int :: "int \<Rightarrow> bytes" where
  "put_int i = varint_enc (zigzag i)"

definition get_int :: "bytes \<Rightarrow> (int \<times> bytes) option" where
  "get_int s = (case varint_dec s of None \<Rightarrow> None | Some (n, r) \<Rightarrow> Some (unzigzag n, r))"

fun get_bool :: "bytes \<Rightarrow> (bool \<times> bytes) option" where
  "get_bool [] = None"
| "get_bool (b # r) = Some (b \<noteq> 0, r)"

definition put_bool :: "bool \<Rightarrow> bytes" where
  "put_bool b = [if b then 1 else 0]"

definition put_option :: "('a \<Rightarrow> bytes) \<Rightarrow> 'a option \<Rightarrow> bytes" where
  "put_option p x = (case x of None \<Rightarrow> [0] | Some v \<Rightarrow> 1 # p v)"

fun get_option :: "(bytes \<Rightarrow> ('a \<times> bytes) option) \<Rightarrow> bytes \<Rightarrow> ('a option \<times> bytes) option" where
  "get_option g [] = None"
| "get_option g (t # r) =
     (if t = 0 then Some (None, r) else (case g r of None \<Rightarrow> None | Some (v, r') \<Rightarrow> Some (Some v, r')))"

definition put_permission :: "permission \<Rightarrow> bytes" where
  "put_permission p = put_bool (p_read p) @ put_bool (p_write p) @ put_bool (p_enumerate p) @ put_bool (p_delete p)"

definition get_permission :: "bytes \<Rightarrow> (permission \<times> bytes) option" where
  "get_permission s =
     do { (a, s) \<leftarrow> get_bool s; (b, s) \<leftarrow> get_bool s; (c, s) \<leftarrow> get_bool s; (d, s) \<leftarrow> get_bool s;
          Some (Permission_new a b c d, s) }"

lemma get_put [simp]:
  "get_bytes (put_bytes b @ r) = Some (b, r)"
  "get_int (put_int i @ r) = Some (i, r)"
  "get_bool (put_bool q @ r) = Some (q, r)"
  "get_permission (put_permission p @ r) = Some (p, r)"
  by (simp_all add: get_bytes_def put_bytes_def varint_roundtrip get_int_def put_int_def zigzag_roundtrip
      put_bool_def get_permission_def put_permission_def Permission_new_def del: zigzag.simps unzigzag.simps)

lemma get_put_option [simp]:
  "(\<And>v r. g (p v @ r) = Some (v, r)) \<Longrightarrow> get_option g (put_option p x @ r) = Some (x, r)"
  by (cases x) (simp_all add: put_option_def)

section \<open>Bytes as text\<close>

text \<open>Two letters a byte: an ASCII text for any bytes.\<close>

definition nibble_enc :: "bytes \<Rightarrow> str" where
  "nibble_enc b = concat (map (\<lambda>x. [of_nat (65 + unat x div 16), of_nat (65 + unat x mod 16)]) b)"

fun nibble_dec :: "str \<Rightarrow> bytes option" where
  "nibble_dec [] = Some []"
| "nibble_dec [x] = None"
| "nibble_dec (x # y # r) =
     map_option (Cons (of_nat ((unat x - 65) * 16 + (unat y - 65)))) (nibble_dec r)"

lemma nibble_roundtrip: "nibble_dec (nibble_enc b) = Some b"
proof (induction b)
  case Nil
  then show ?case by (simp add: nibble_enc_def)
next
  case (Cons x b)
  have b: "unat x < 256" using unsigned_less [of x, where ?'a = nat] by simp
  then have "65 + unat x div 16 < 256" "65 + unat x mod 16 < 256" by linarith+
  then have "unat (of_nat (65 + unat x div 16) :: byte) = 65 + unat x div 16"
    and "unat (of_nat (65 + unat x mod 16) :: byte) = 65 + unat x mod 16"
    by (simp_all only: unat_of_nat_byte)
  then show ?case
    using Cons by (simp add: nibble_enc_def del: of_nat_add)
qed

lemma nibble_utf8: "utf8_valid (nibble_enc b)"
proof (rule ascii_utf8_valid)
  have "of_nat (65 + n) < (0x80 :: byte)" if "n < 16" for n :: nat
    using that by (simp add: word_less_nat_alt unat_of_nat_byte del: of_nat_add)
  moreover have "unat x div 16 < 16" "unat x mod 16 < 16" for x :: byte
    using unsigned_less [of x, where ?'a = nat] by simp_all
  ultimately show "is_ascii (nibble_enc b)"
    by (auto simp: is_ascii_def nibble_enc_def simp del: of_nat_add)
qed

end
