(* ===== verification/Store.thy ===== *)
theory Store
  imports Locks Backend
begin

text \<open>
  \<open>keydock-fjall/src/store.rs\<close>, the key-value half: \<open>FjallStore\<close> as the adapter of
  \<open>KeyRepository\<close> over one fjall database with the keyspaces \<open>data\<close> and \<open>expiry\<close>.  Every
  operation returns its result and the store after it; backend and codec failures are
  values.  \<open>store_env\<close> holds the third-party code the adapter calls.  The invariant
  \<open>index_inv\<close> says that every entry with an expiry has its index key; \<open>abs_entry\<close> is the
  abstract content of the store, a map from bucket and key to entry.  Each operation is
  shown to act on that map as its name promises, and to keep the invariant even when the
  backend fails in the middle.
\<close>

section \<open>The adapter's environment and state\<close>

record 'db store_env =
  sv_fjall :: "'db fjall_ops"
  sv_codec :: codec_ops
  sv_hash :: "bytes \<Rightarrow> u64"
  sv_entry_size :: nat

record 'db store =
  st_db :: 'db
  st_poisoned :: "nat \<Rightarrow> bool"

definition uc :: "(fjall_error + 'a) \<Rightarrow> use_case_error + 'a" where
  "uc r = (case r of Inl e \<Rightarrow> Inl (use_case_of_fjall e) | Inr a \<Rightarrow> Inr a)"

definition fj :: "(string + 'a) \<Rightarrow> use_case_error + 'a" where
  "fj r = (case r of Inl e \<Rightarrow> Inl (use_case_of_fjall (FjallE e)) | Inr a \<Rightarrow> Inr a)"

text \<open>The label of \<open>record_storage_op\<close>.\<close>

definition storage_op_label :: "(use_case_error + 'a) \<Rightarrow> string" where
  "storage_op_label r = (case r of Inr _ \<Rightarrow> ''ok'' | Inl _ \<Rightarrow> ''err'')"

section \<open>Operations\<close>

definition fjall_get ::
  "'db store_env \<Rightarrow> 'db store \<Rightarrow> bucket_id \<Rightarrow> key \<Rightarrow> use_case_error + stored_entry option" where
  "fjall_get S st b k =
     (let sk = data_storage_key b k in
      case fj (fj_get (sv_fjall S) (st_db st) DATA_KEYSPACE sk) of
        Inl e \<Rightarrow> Inl e
      | Inr None \<Rightarrow> Inr None
      | Inr (Some v) \<Rightarrow>
          (case uc (decode_entry (sv_codec S) v) of Inl e \<Rightarrow> Inl e | Inr entry \<Rightarrow> Inr (Some entry)))"

text \<open>
  The write both \<open>set\<close> and \<open>increment\<close> end in: a batch of the entry and its index key when
  there is an expiry, a plain insert otherwise.
\<close>

definition put_entry ::
  "'db store_env \<Rightarrow> 'db store \<Rightarrow> bytes \<Rightarrow> bytes \<Rightarrow> instant option \<Rightarrow>
     (use_case_error + unit) \<times> 'db store" where
  "put_entry S st sk b expires_at =
     (case expires_at of
        Some ex \<Rightarrow>
          (let idx = expiry_index_key (unix_timestamp (cd_time (sv_codec S)) ex) sk;
               (r, db) = fj_commit (sv_fjall S) (st_db st)
                 [BInsert DATA_KEYSPACE sk b, BInsert EXPIRY_KEYSPACE idx []]
           in (fj r, st\<lparr>st_db := db\<rparr>))
      | None \<Rightarrow>
          (let (r, db) = fj_insert (sv_fjall S) (st_db st) DATA_KEYSPACE sk b
           in (fj r, st\<lparr>st_db := db\<rparr>)))"

definition fjall_set ::
  "'db store_env \<Rightarrow> 'db store \<Rightarrow> bucket_id \<Rightarrow> key \<Rightarrow> stored_value \<Rightarrow> instant option \<Rightarrow>
     (use_case_error + unit) \<times> 'db store" where
  "fjall_set S st b k v expires_at =
     (let sk = data_storage_key b k in
      case uc (lock_for (sv_hash S) (st_poisoned st) sk) of
        Inl e \<Rightarrow> (Inl e, st)
      | Inr _ \<Rightarrow>
          (case uc (encode_entry (sv_codec S) v expires_at) of
             Inl e \<Rightarrow> (Inl e, st)
           | Inr raw \<Rightarrow> put_entry S st sk raw expires_at))"

definition fjall_delete ::
  "'db store_env \<Rightarrow> 'db store \<Rightarrow> bucket_id \<Rightarrow> key \<Rightarrow> (use_case_error + bool) \<times> 'db store" where
  "fjall_delete S st b k =
     (let sk = data_storage_key b k in
      case uc (lock_for (sv_hash S) (st_poisoned st) sk) of
        Inl e \<Rightarrow> (Inl e, st)
      | Inr _ \<Rightarrow>
          (case fj (fj_contains_key (sv_fjall S) (st_db st) DATA_KEYSPACE sk) of
             Inl e \<Rightarrow> (Inl e, st)
           | Inr existed \<Rightarrow>
               if existed then
                 (let (r, db) = fj_remove (sv_fjall S) (st_db st) DATA_KEYSPACE sk
                  in (case fj r of Inl e \<Rightarrow> Inl e | Inr _ \<Rightarrow> Inr existed, st\<lparr>st_db := db\<rparr>))
               else (Inr existed, st)))"

text \<open>
  The operand of an increment: zero for a missing or expired entry, otherwise the stored
  number.  \<open>now\<close> is the reading of the system clock inside the operation.
\<close>

definition current_value ::
  "'db store_env \<Rightarrow> instant \<Rightarrow> bytes option \<Rightarrow> use_case_error + counter_value" where
  "current_value S now stored =
     (case stored of
        None \<Rightarrow> Inr (ValInt 0)
      | Some v \<Rightarrow>
          (case uc (decode_entry (sv_codec S) v) of
             Inl e \<Rightarrow> Inl e
           | Inr entry \<Rightarrow>
               if (case se_expires_at entry of Some ex \<Rightarrow> ex \<le> now | None \<Rightarrow> False) then Inr (ValInt 0)
               else
                 (case CounterValue_from_stored (se_value entry) of
                    Inl e \<Rightarrow> Inl (DomainErr e)
                  | Inr c \<Rightarrow> Inr c)))"

definition fjall_increment ::
  "'db store_env \<Rightarrow> 'db store \<Rightarrow> instant \<Rightarrow> bucket_id \<Rightarrow> key \<Rightarrow> counter_op \<Rightarrow> instant option \<Rightarrow>
     (use_case_error + stored_value) \<times> 'db store" where
  "fjall_increment S st now b k op expires_at =
     (let sk = data_storage_key b k in
      case uc (lock_for (sv_hash S) (st_poisoned st) sk) of
        Inl e \<Rightarrow> (Inl e, st)
      | Inr _ \<Rightarrow>
          (case fj (fj_get (sv_fjall S) (st_db st) DATA_KEYSPACE sk) of
             Inl e \<Rightarrow> (Inl e, st)
           | Inr cur \<Rightarrow>
               (case current_value S now cur of
                  Inl e \<Rightarrow> (Inl e, st)
                | Inr current \<Rightarrow>
                    (case CounterOp_apply op current of
                       Inl e \<Rightarrow> (Inl (DomainErr e), st)
                     | Inr merged \<Rightarrow>
                         (case CounterValue_into_stored merged of
                            Inl e \<Rightarrow> (Inl (DomainErr e), st)
                          | Inr stored \<Rightarrow>
                              (case uc (encode_entry (sv_codec S) stored expires_at) of
                                 Inl e \<Rightarrow> (Inl e, st)
                               | Inr raw \<Rightarrow>
                                   (let (r, st') = put_entry S st sk raw expires_at
                                    in (case r of Inl e \<Rightarrow> Inl e | Inr _ \<Rightarrow> Inr stored, st'))))))))"

datatype batch_item = ItemSet bytes bytes "bytes option" | ItemDelete bytes

fun item_key :: "batch_item \<Rightarrow> bytes" where
  "item_key (ItemSet sk _ _) = sk"
| "item_key (ItemDelete sk) = sk"

fun batch_item_of ::
  "'db store_env \<Rightarrow> bucket_id \<Rightarrow> txn_op \<Rightarrow> use_case_error + batch_item" where
  "batch_item_of S b (TxnSet k v expires_at) =
     (let sk = data_storage_key b k;
          idx = map_option
            (\<lambda>ex. expiry_index_key (unix_timestamp (cd_time (sv_codec S)) ex) sk) expires_at
      in case uc (encode_entry (sv_codec S) v expires_at) of
           Inl e \<Rightarrow> Inl e
         | Inr raw \<Rightarrow> Inr (ItemSet sk raw idx))"
| "batch_item_of S b (TxnDelete k) = Inr (ItemDelete (data_storage_key b k))"

fun batch_items ::
  "'db store_env \<Rightarrow> bucket_id \<Rightarrow> txn_op list \<Rightarrow> use_case_error + batch_item list" where
  "batch_items S b [] = Inr []"
| "batch_items S b (op # ops) =
     (case batch_item_of S b op of
        Inl e \<Rightarrow> Inl e
      | Inr it \<Rightarrow> (case batch_items S b ops of Inl e \<Rightarrow> Inl e | Inr its \<Rightarrow> Inr (it # its)))"

fun item_ops :: "batch_item \<Rightarrow> batch_op list" where
  "item_ops (ItemSet sk raw idx) =
     BInsert DATA_KEYSPACE sk raw
       # (case idx of Some i \<Rightarrow> [BInsert EXPIRY_KEYSPACE i []] | None \<Rightarrow> [])"
| "item_ops (ItemDelete sk) = [BRemove DATA_KEYSPACE sk]"

definition fjall_apply_batch ::
  "'db store_env \<Rightarrow> 'db store \<Rightarrow> bucket_id \<Rightarrow> txn_op list \<Rightarrow> (use_case_error + unit) \<times> 'db store" where
  "fjall_apply_batch S st b ops =
     (if ops = [] then (Inr (), st)
      else
        (case batch_items S b ops of
           Inl e \<Rightarrow> (Inl e, st)
         | Inr items \<Rightarrow>
             (case uc (lock_stripes_for_keys (sv_hash S) (st_poisoned st) (map item_key items)) of
                Inl e \<Rightarrow> (Inl e, st)
              | Inr _ \<Rightarrow>
                  (let (r, db) = fj_commit (sv_fjall S) (st_db st) (concat (map item_ops items))
                   in (fj r, st\<lparr>st_db := db\<rparr>)))))"

section \<open>Abstraction and invariant\<close>

text \<open>
  The entry stored under a bucket and key: the decoded bytes of its storage key; an entry
  that does not decode counts as absent.
\<close>

definition decoded :: "codec_ops \<Rightarrow> bytes option \<Rightarrow> stored_entry option" where
  "decoded C r =
     (case r of None \<Rightarrow> None
      | Some v \<Rightarrow> (case decode_entry C v of Inl _ \<Rightarrow> None | Inr en \<Rightarrow> Some en))"

definition abs_entry :: "codec_ops \<Rightarrow> contents \<Rightarrow> bucket_id \<Rightarrow> key \<Rightarrow> stored_entry option" where
  "abs_entry C c b k = decoded C (c DATA_KEYSPACE (data_storage_key b k))"

definition has_expiry :: "codec_ops \<Rightarrow> bytes \<Rightarrow> i64 \<Rightarrow> bool" where
  "has_expiry C v ts \<longleftrightarrow> decode_entry_expires_unix C v = Inr (Some ts)"

definition index_inv :: "codec_ops \<Rightarrow> contents \<Rightarrow> bool" where
  "index_inv C c \<longleftrightarrow>
     (\<forall>sk v ts. c DATA_KEYSPACE sk = Some v \<longrightarrow> has_expiry C v ts \<longrightarrow>
        c EXPIRY_KEYSPACE (expiry_index_key ts sk) \<noteq> None)"

lemma uc_Inr [simp]: "uc r = Inr a \<longleftrightarrow> r = Inr a" and uc_of_Inr [simp]: "uc (Inr a) = Inr a"
  by (auto simp: uc_def split: sum.splits)

lemma fj_Inr [simp]: "fj r = Inr a \<longleftrightarrow> r = Inr a" and fj_of_Inr [simp]: "fj (Inr a) = Inr a"
  by (auto simp: fj_def split: sum.splits)

lemma uc_Inl: "uc r = Inl e \<Longrightarrow> \<exists>m. e = Storage m"
  by (auto simp: uc_def use_case_of_fjall_def split: sum.splits)

lemma fj_Inl: "fj r = Inl e \<Longrightarrow> \<exists>m. e = Storage m"
  by (auto simp: fj_def use_case_of_fjall_def split: sum.splits)

section \<open>What the operations do to the database contents\<close>

text \<open>The effect of one batch item and of a whole transaction on the contents.\<close>

definition write_ops :: "codec_ops \<Rightarrow> bytes \<Rightarrow> bytes \<Rightarrow> instant option \<Rightarrow> batch_op list" where
  "write_ops C sk raw expires_at =
     BInsert DATA_KEYSPACE sk raw #
       (case expires_at of
          Some ex \<Rightarrow> [BInsert EXPIRY_KEYSPACE (expiry_index_key (unix_timestamp (cd_time C) ex) sk) []]
        | None \<Rightarrow> [])"

lemma batch_item_of_ops:
  "batch_item_of S b (TxnSet k v ex) = Inr it \<Longrightarrow>
     \<exists>raw. encode_entry (sv_codec S) v ex = Inr raw
        \<and> item_ops it = write_ops (sv_codec S) (data_storage_key b k) raw ex
        \<and> item_key it = data_storage_key b k"
  by (cases ex) (auto simp: Let_def write_ops_def split: sum.splits)

lemma apply_write_ops_data [simp]:
  "apply_bops (write_ops C sk raw ex) c DATA_KEYSPACE = (c DATA_KEYSPACE)(sk := Some raw)"
  by (simp add: write_ops_def split: option.splits)

lemma abs_entry_write:
  "bucket_ok b \<Longrightarrow> bucket_ok b' \<Longrightarrow>
     abs_entry C (apply_bops (write_ops C (data_storage_key b k) raw ex) c) b' k' =
     (if b' = b \<and> k' = k then decoded C (Some raw) else abs_entry C c b' k')"
  by (auto simp: abs_entry_def data_storage_key_eq)

lemma abs_entry_remove:
  "bucket_ok b \<Longrightarrow> bucket_ok b' \<Longrightarrow>
     abs_entry C (apply_bop (BRemove DATA_KEYSPACE (data_storage_key b k)) c) b' k' =
     (if b' = b \<and> k' = k then None else abs_entry C c b' k')"
  by (auto simp: abs_entry_def decoded_def data_storage_key_eq)

lemma index_inv_remove: "index_inv C c \<Longrightarrow> index_inv C (apply_bop (BRemove DATA_KEYSPACE sk) c)"
  by (simp add: index_inv_def)

lemma current_value_base:
  "current_value S now cur = Inr c \<Longrightarrow> counter_base now (decoded (sv_codec S) cur) = Inr c"
  by (auto simp: current_value_def counter_base_def decoded_def
      split: option.splits sum.splits if_splits)

lemma current_value_domain:
  "current_value S now cur = Inl (DomainErr e) \<Longrightarrow> counter_base now (decoded (sv_codec S) cur) = Inl e"
  by (auto simp: current_value_def counter_base_def decoded_def dest!: uc_Inl
      split: option.splits sum.splits if_splits)

text \<open>The errors of the counter and transaction operations.\<close>

lemma increment_error:
  assumes "fjall_increment S st now b k op ex = (Inl e, st')"
  shows "(\<exists>m. e = Storage m) \<or> (\<exists>d. e = DomainErr d)"
  using assms
  by (auto simp: fjall_increment_def current_value_def put_entry_def Let_def dest: uc_Inl fj_Inl
      split: sum.splits prod.splits option.splits if_splits)

lemma apply_batch_error: "fjall_apply_batch S st b ops = (Inl e, st') \<Longrightarrow> \<exists>m. e = Storage m"
proof -
  have "\<exists>m. e = Storage m" if "batch_items S b ops = Inl e" for e ops
    using that
  proof (induction ops)
    case (Cons op ops)
    then show ?case by (cases op) (auto simp: Let_def dest: uc_Inl split: sum.splits)
  qed simp
  then show "fjall_apply_batch S st b ops = (Inl e, st') \<Longrightarrow> \<exists>m. e = Storage m"
    by (auto simp: fjall_apply_batch_def Let_def dest: uc_Inl fj_Inl split: sum.splits prod.splits if_splits)
qed

section \<open>The adapter over a database that keeps its laws\<close>

locale fjall_store =
  db: fjall_db "sv_fjall S" view +
  pc: postcard_api "pc_enc (sv_codec S)" "pc_dec (sv_codec S)" +
  tm: time_api "cd_time (sv_codec S)" valid
  for S :: "'db store_env" and view :: "'db \<Rightarrow> contents" and valid :: "instant \<Rightarrow> bool"
begin

abbreviation C where "C \<equiv> sv_codec S"

abbreviation contents_of where "contents_of st \<equiv> view (st_db st)"

abbreviation entry where "entry st \<equiv> abs_entry C (contents_of st)"

abbreviation good where "good st \<equiv> index_inv C (contents_of st)"

lemma encode_expires:
  "encode_entry C v ex = Inr raw \<Longrightarrow>
     decode_entry_expires_unix C raw = Inr (map_option (unix_timestamp (cd_time C)) ex)"
  by (auto simp: encode_entry_def decode_entry_expires_unix_def dest!: pc.dec_enc split: sum.splits)

lemma decode_encode_entry:
  assumes "encode_entry C v ex = Inr raw" and "value_ok v" and "pred_option valid ex"
  shows "decode_entry C raw = Inr (truncated_entry v ex)"
proof -
  have "pc_dec C raw = Inr \<lparr>ec_payload = payload v, ec_kind = kind v,
      ec_expires_unix = map_option (unix_timestamp (cd_time C)) ex\<rparr>"
    using assms(1) pc.dec_enc by (auto simp: encode_entry_def split: sum.splits)
  then show ?thesis
    using assms(2,3) tm.truncated
    by (cases ex) (auto simp: decode_entry_def StoredValue_new_self expires_at_from_unix_def truncated_entry_def)
qed

lemma decoded_write:
  "encode_entry C v ex = Inr raw \<Longrightarrow> value_ok v \<Longrightarrow> pred_option valid ex \<Longrightarrow>
     decoded C (Some raw) = Some (truncated_entry v ex)"
  by (simp add: decoded_def decode_encode_entry)

lemma index_inv_write:
  assumes "index_inv C c" and "encode_entry C v ex = Inr raw"
  shows "index_inv C (apply_bops (write_ops C sk raw ex) c)"
  using assms(1) encode_expires [OF assms(2)]
  by (cases ex) (auto simp: index_inv_def has_expiry_def write_ops_def)

lemma put_entry_contents:
  assumes "put_entry S st sk raw ex = (r, st')"
  shows "contents_of st' = contents_of st \<and> (\<exists>e. r = Inl e) \<or>
    contents_of st' = apply_bops (write_ops C sk raw ex) (contents_of st)"
    and "st_poisoned st' = st_poisoned st"
proof -
  show "st_poisoned st' = st_poisoned st"
    using assms by (auto simp: put_entry_def Let_def split: option.splits prod.splits)
  show "contents_of st' = contents_of st \<and> (\<exists>e. r = Inl e) \<or>
    contents_of st' = apply_bops (write_ops C sk raw ex) (contents_of st)"
  proof (cases ex)
    case None
    then obtain q where "fj_insert (sv_fjall S) (st_db st) DATA_KEYSPACE sk raw = (q, st_db st')" "r = fj q"
      using assms by (auto simp: put_entry_def Let_def split: prod.splits)
    then show ?thesis
      using db.insert_cases None by (fastforce simp: write_ops_def fj_def)
  next
    case (Some t)
    then obtain q where "fj_commit (sv_fjall S) (st_db st) (write_ops C sk raw ex) = (q, st_db st')" "r = fj q"
      using assms by (auto simp: put_entry_def write_ops_def Let_def split: prod.splits)
    then show ?thesis using db.commit_cases by (fastforce simp: fj_def)
  qed
qed

lemma put_entry_good:
  "put_entry S st sk raw ex = (r, st') \<Longrightarrow> encode_entry C v ex = Inr raw \<Longrightarrow> good st \<Longrightarrow> good st'"
  using put_entry_contents(1) index_inv_write by metis

lemma get_entry: "fjall_get S st b k = Inr r \<Longrightarrow> r = entry st b k"
  by (auto simp: fjall_get_def abs_entry_def decoded_def Let_def dest!: db.get_Inr
      split: sum.splits option.splits) 

lemma set_cases:
  assumes "fjall_set S st b k v ex = (r, st')"
  shows "(\<exists>raw. encode_entry C v ex = Inr raw \<and> put_entry S st (data_storage_key b k) raw ex = (r, st'))
    \<or> st' = st \<and> (\<exists>m. r = Inl (Storage m))"
  using assms by (auto simp: fjall_set_def Let_def dest: uc_Inl split: sum.splits)

lemma set_good: "fjall_set S st b k v ex = (r, st') \<Longrightarrow> good st \<Longrightarrow> good st'"
  using set_cases put_entry_good by blast

lemma set_entry:
  assumes "fjall_set S st b k v ex = (Inr u, st')" and "value_ok v" and "pred_option valid ex"
    and "bucket_ok b" and "bucket_ok b'"
  shows "entry st' b' k' = (if b' = b \<and> k' = k then Some (truncated_entry v ex) else entry st b' k')"
proof -
  obtain raw where raw: "encode_entry C v ex = Inr raw"
      "put_entry S st (data_storage_key b k) raw ex = (Inr u, st')"
    using set_cases [OF assms(1)] by blast
  then have "contents_of st' = apply_bops (write_ops C (data_storage_key b k) raw ex) (contents_of st)"
    using put_entry_contents(1) by fastforce
  then show ?thesis
    using decoded_write [OF raw(1) assms(2,3)] assms(4,5) by (simp add: abs_entry_write)
qed

lemma set_frame:
  assumes "fjall_set S st b k v ex = (r, st')" and "bucket_ok b" and "bucket_ok b'" and "(b', k') \<noteq> (b, k)"
  shows "entry st' b' k' = entry st b' k'"
proof (cases "st' = st")
  case False
  then obtain raw where "put_entry S st (data_storage_key b k) raw ex = (r, st')"
    using set_cases [OF assms(1)] by blast
  from put_entry_contents(1) [OF this] show ?thesis
    using assms(2-) by (auto simp: abs_entry_write)
qed simp

lemma delete_cases:
  assumes "fjall_delete S st b k = (r, st')"
  obtains (failed) e where "r = Inl e" and "st' = st"
    | (absent) "contents_of st DATA_KEYSPACE (data_storage_key b k) = None" and "r = Inr False" and "st' = st"
    | (removed) q where "contents_of st DATA_KEYSPACE (data_storage_key b k) \<noteq> None"
        and "fj_remove (sv_fjall S) (st_db st) DATA_KEYSPACE (data_storage_key b k) = (q, st_db st')"
        and "r = (case fj q of Inl e \<Rightarrow> Inl e | Inr _ \<Rightarrow> Inr True)"
proof -
  let ?sk = "data_storage_key b k"
  show thesis
  proof (cases "uc (lock_for (sv_hash S) (st_poisoned st) ?sk)")
    case (Inl e)
    then show thesis using assms failed [of e] by (simp add: fjall_delete_def)
  next
    case locked: (Inr u)
    show thesis
    proof (cases "fj (fj_contains_key (sv_fjall S) (st_db st) DATA_KEYSPACE ?sk)")
      case (Inl e)
      then show thesis using assms locked failed [of e] by (simp add: fjall_delete_def)
    next
      case (Inr existed)
      then have "existed = (contents_of st DATA_KEYSPACE ?sk \<noteq> None)"
        using db.contains_Inr by simp
      then show thesis
      proof (cases existed)
        case True
        obtain q db' where rm: "fj_remove (sv_fjall S) (st_db st) DATA_KEYSPACE ?sk = (q, db')"
          by fastforce
        then have "r = (case fj q of Inl e \<Rightarrow> Inl e | Inr _ \<Rightarrow> Inr True)" and "st' = st\<lparr>st_db := db'\<rparr>"
          using assms locked Inr True by (simp_all add: fjall_delete_def)
        then show thesis using removed [of q] rm True \<open>existed = _\<close> by simp
      next
        case False
        then have "r = Inr False" and "st' = st"
          using assms locked Inr by (simp_all add: fjall_delete_def)
        then show thesis using absent False \<open>existed = _\<close> by blast
      qed
    qed
  qed
qed

lemma delete_contents:
  assumes "fjall_delete S st b k = (r, st')"
  shows "contents_of st' = contents_of st \<and> r \<noteq> Inr True \<or>
    contents_of st' = apply_bop (BRemove DATA_KEYSPACE (data_storage_key b k)) (contents_of st)
      \<and> contents_of st DATA_KEYSPACE (data_storage_key b k) \<noteq> None \<and> r \<noteq> Inr False"
    and "r = Inr False \<Longrightarrow> contents_of st DATA_KEYSPACE (data_storage_key b k) = None"
  using assms
  by (cases rule: delete_cases; force simp: fj_def dest!: db.remove_cases split: sum.splits)+

lemma delete_good: "fjall_delete S st b k = (r, st') \<Longrightarrow> good st \<Longrightarrow> good st'"
  using delete_contents(1) index_inv_remove by metis

lemma delete_entry:
  assumes "fjall_delete S st b k = (Inr existed, st')" and "bucket_ok b" and "bucket_ok b'"
  shows "entry st' b' k' = (if b' = b \<and> k' = k then None else entry st b' k')"
proof (cases existed)
  case True
  then show ?thesis using delete_contents(1) [OF assms(1)] assms(2,3)
    by (auto simp: abs_entry_remove simp del: apply_bop.simps)
next
  case False
  then have "contents_of st' = contents_of st" and "entry st b k = None"
    using delete_contents [OF assms(1)] by (auto simp: abs_entry_def decoded_def)
  then show ?thesis by auto
qed

lemma delete_frame:
  assumes "fjall_delete S st b k = (r, st')" and "bucket_ok b" and "bucket_ok b'" and "(b', k') \<noteq> (b, k)"
  shows "entry st' b' k' = entry st b' k'"
  using delete_contents(1) [OF assms(1)] assms(2-)
  by (auto simp: abs_entry_remove simp del: apply_bop.simps)

lemma delete_existed:
  "fjall_delete S st b k = (Inr existed, st') \<Longrightarrow> entry st b k \<noteq> None \<Longrightarrow> existed"
  using delete_contents(2) by (cases existed) (auto simp: abs_entry_def decoded_def)

lemma delete_no_NotFound: "fjall_delete S st b k = (Inl e, st') \<Longrightarrow> e \<noteq> NotFound"
  by (auto simp: fjall_delete_def Let_def dest!: uc_Inl fj_Inl split: sum.splits prod.splits if_splits)

text \<open>An increment either leaves the store alone or ends in the shared write.\<close>

lemma increment_cases:
  assumes "fjall_increment S st now b k op ex = (r, st')"
  obtains (failed) e where "r = Inl e" and "st' = st"
      and "\<And>d. e = DomainErr d \<Longrightarrow> incremented now op (entry st b k) = Inl d"
    | (written) v raw q where "incremented now op (entry st b k) = Inr v"
        and "encode_entry C v ex = Inr raw"
        and "put_entry S st (data_storage_key b k) raw ex = (q, st')"
        and "r = (case q of Inl e \<Rightarrow> Inl e | Inr _ \<Rightarrow> Inr v)"
proof -
  let ?sk = "data_storage_key b k"
  note def = fjall_increment_def Let_def
  show thesis
  proof (cases "uc (lock_for (sv_hash S) (st_poisoned st) ?sk)")
    case (Inl e)
    then show thesis using assms failed [of e] uc_Inl [OF Inl] by (auto simp: def)
  next
    case locked: (Inr u)
    show thesis
    proof (cases "fj (fj_get (sv_fjall S) (st_db st) DATA_KEYSPACE ?sk)")
      case (Inl e)
      then show thesis using assms locked failed [of e] fj_Inl [OF Inl] by (auto simp: def)
    next
      case got: (Inr cur)
      then have en: "entry st b k = decoded C cur" using db.get_Inr by (simp add: abs_entry_def)
      show thesis
      proof (cases "current_value S now cur")
        case (Inl e)
        then have "r = Inl e" and "st' = st" using assms locked got by (simp_all add: def)
        moreover have "incremented now op (entry st b k) = Inl d" if "e = DomainErr d" for d
          using current_value_domain [of S now cur d] Inl en that by (simp add: incremented_def)
        ultimately show thesis using failed by blast
      next
        case (Inr c)
        then have base: "counter_base now (entry st b k) = Inr c" using current_value_base en by simp
        show thesis
        proof (cases "incremented now op (entry st b k)")
          case (Inl d)
          then have "r = Inl (DomainErr d)" and "st' = st"
            using assms locked got Inr base by (auto simp: def incremented_def split: sum.splits)
          then show thesis using failed Inl by blast
        next
          case v: (Inr v)
          then obtain c' where c': "CounterOp_apply op c = Inr c'" "CounterValue_into_stored c' = Inr v"
            using base by (auto simp: incremented_def split: sum.splits)
          show thesis
          proof (cases "uc (encode_entry C v ex)")
            case (Inl e)
            then have "r = Inl e" and "st' = st" using assms locked got Inr c' by (simp_all add: def)
            then show thesis using failed uc_Inl [OF \<open>uc _ = Inl e\<close>] by auto
          next
            case raw: (Inr raw)
            obtain q st'' where "put_entry S st ?sk raw ex = (q, st'')" by fastforce
            moreover from this have "r = (case q of Inl e \<Rightarrow> Inl e | Inr _ \<Rightarrow> Inr v)" and "st'' = st'"
              using assms locked got Inr c' raw by (simp_all add: def)
            ultimately show thesis using written v raw by simp
          qed
        qed
      qed
    qed
  qed
qed

lemma increment_good: "fjall_increment S st now b k op ex = (r, st') \<Longrightarrow> good st \<Longrightarrow> good st'"
  by (erule increment_cases) (auto dest: put_entry_good)

lemma increment_entry:
  assumes "fjall_increment S st now b k op ex = (Inr v, st')" and "counter_op_ok op"
    and "pred_option valid ex" and "bucket_ok b" and "bucket_ok b'"
  shows "incremented now op (entry st b k) = Inr v"
    and "entry st' b' k' = (if b' = b \<and> k' = k then Some (truncated_entry v ex) else entry st b' k')"
proof -
  obtain raw u where inc: "incremented now op (entry st b k) = Inr v"
    and raw: "encode_entry C v ex = Inr raw"
    and put: "put_entry S st (data_storage_key b k) raw ex = (Inr u, st')"
    using assms(1) by (cases rule: increment_cases) (auto split: sum.splits)
  show "incremented now op (entry st b k) = Inr v" by (rule inc)
  have "contents_of st' = apply_bops (write_ops C (data_storage_key b k) raw ex) (contents_of st)"
    using put_entry_contents(1) [OF put] by simp
  then show "entry st' b' k' = (if b' = b \<and> k' = k then Some (truncated_entry v ex) else entry st b' k')"
    using decoded_write [OF raw incremented_ok [OF inc assms(2)] assms(3)] assms(4,5)
    by (simp add: abs_entry_write)
qed

lemma increment_frame:
  assumes "fjall_increment S st now b k op ex = (r, st')" and "bucket_ok b" and "bucket_ok b'" and "(b', k') \<noteq> (b, k)"
  shows "entry st' b' k' = entry st b' k'"
  using assms(1)
proof (cases rule: increment_cases)
  case (written v raw q)
  then show ?thesis using put_entry_contents(1) [OF written(3)] assms(2-) by (auto simp: abs_entry_write)
qed simp

lemma increment_domain_error:
  assumes "fjall_increment S st now b k op ex = (Inl (DomainErr d), st')"
  shows "incremented now op (entry st b k) = Inl d \<and> st' = st"
  using assms
proof (cases rule: increment_cases)
  case (written v raw q)
  then show ?thesis
    by (cases ex) (auto simp: put_entry_def Let_def dest: fj_Inl split: sum.splits prod.splits)
qed auto

text \<open>A transaction acts on the contents through the operations of its items, in order.\<close>

lemma batch_item_contents:
  assumes "batch_item_of S b op = Inr it" and "txn_op_ok valid op" and "bucket_ok b" and "bucket_ok b'"
  shows "abs_entry C (apply_bops (item_ops it) c) b' =
    (if b' = b then txn_effect op (abs_entry C c b) else abs_entry C c b')"
proof (cases op)
  case (TxnSet k v ex)
  then obtain raw where "encode_entry C v ex = Inr raw"
    and "item_ops it = write_ops C (data_storage_key b k) raw ex"
    using assms(1) batch_item_of_ops by blast
  then show ?thesis
    using TxnSet assms(2-) by (auto simp: abs_entry_write decoded_write)
next
  case (TxnDelete k)
  then show ?thesis
    using assms(1,3,4) by (auto simp: abs_entry_remove simp del: apply_bop.simps)
qed

lemma batch_item_good:
  "batch_item_of S b op = Inr it \<Longrightarrow> index_inv C c \<Longrightarrow> index_inv C (apply_bops (item_ops it) c)"
  using batch_item_of_ops index_inv_write index_inv_remove by (cases op) fastforce+

lemma batch_items_contents:
  assumes "batch_items S b ops = Inr its" and "list_all (txn_op_ok valid) ops"
    and "bucket_ok b" and "bucket_ok b'"
  shows "abs_entry C (apply_bops (concat (map item_ops its)) c) b' =
    (if b' = b then txn_effects ops (abs_entry C c b) else abs_entry C c b')"
  using assms(1,2)
  by (induction ops arbitrary: its c)
    (auto simp: apply_bops_append batch_item_contents assms(3,4) split: sum.splits)

lemma batch_items_good:
  "batch_items S b ops = Inr its \<Longrightarrow> index_inv C c \<Longrightarrow>
     index_inv C (apply_bops (concat (map item_ops its)) c)"
  by (induction ops arbitrary: its c)
    (auto simp: apply_bops_append dest: batch_item_good split: sum.splits)

lemma apply_batch_cases:
  assumes "fjall_apply_batch S st b ops = (r, st')"
  obtains (unchanged) "contents_of st' = contents_of st" and "ops \<noteq> [] \<Longrightarrow> \<exists>e. r = Inl e"
    | (applied) its where "batch_items S b ops = Inr its"
        and "contents_of st' = apply_bops (concat (map item_ops its)) (contents_of st)"
proof -
  consider "st' = st" "ops \<noteq> [] \<longrightarrow> (\<exists>e. r = Inl e)"
    | its q where "batch_items S b ops = Inr its" "r = fj q"
      "fj_commit (sv_fjall S) (st_db st) (concat (map item_ops its)) = (q, st_db st')"
    using assms by (auto simp: fjall_apply_batch_def Let_def split: if_splits sum.splits prod.splits)
  then show thesis
    using unchanged applied db.commit_cases by cases (fastforce simp: fj_def)+
qed

lemma apply_batch_good: "fjall_apply_batch S st b ops = (r, st') \<Longrightarrow> good st \<Longrightarrow> good st'"
  by (erule apply_batch_cases) (auto dest: batch_items_good)

lemma apply_batch_atomic:
  assumes "fjall_apply_batch S st b ops = (r, st')" and "list_all (txn_op_ok valid) ops" and "bucket_ok b"
  shows "entry st' b = txn_effects ops (entry st b) \<or> entry st' b = entry st b \<and> (\<exists>e. r = Inl e)"
  using assms(1)
  by (cases rule: apply_batch_cases)
    (cases "ops = []", auto simp: batch_items_contents [OF _ assms(2,3,3)])

text \<open>A batch leaves every key alone that none of its operations names.\<close>

lemma batch_items_frame:
  assumes "batch_items S b ops = Inr its" and "bucket_ok b" and "bucket_ok b'"
    and "b' = b \<Longrightarrow> k' \<notin> txn_key ` set ops"
  shows "abs_entry C (apply_bops (concat (map item_ops its)) c) b' k' = abs_entry C c b' k'"
  using assms(1,4)
proof (induction ops arbitrary: its c)
  case (Cons op ops)
  then obtain it its' where i: "batch_item_of S b op = Inr it" "batch_items S b ops = Inr its'" "its = it # its'"
    by (auto split: sum.splits)
  have "abs_entry C (apply_bops (item_ops it) c) b' k' = abs_entry C c b' k'"
  proof (cases op)
    case (TxnSet k v ex)
    then show ?thesis
      using batch_item_of_ops i(1) Cons.prems(2) assms(2,3) by (fastforce simp: abs_entry_write)
  next
    case (TxnDelete k)
    then show ?thesis
      using i(1) Cons.prems(2) assms(2,3) by (auto simp: abs_entry_remove simp del: apply_bop.simps)
  qed
  with Cons.IH [OF i(2)] Cons.prems(2) i(3) show ?case by (simp add: apply_bops_append)
qed simp

lemma apply_batch_keys:
  assumes "fjall_apply_batch S st b ops = (r, st')" and "bucket_ok b" and "bucket_ok b'"
    and "b' = b \<Longrightarrow> k' \<notin> txn_key ` set ops"
  shows "entry st' b' k' = entry st b' k'"
  using assms(1)
  by (cases rule: apply_batch_cases) (simp_all add: batch_items_frame [OF _ assms(2-4)])

lemma apply_batch_frame:
  assumes "fjall_apply_batch S st b ops = (r, st')" and "list_all (txn_op_ok valid) ops"
    and "bucket_ok b" and "bucket_ok b'" and "b' \<noteq> b"
  shows "entry st' b' = entry st b'"
  using assms(1)
  by (cases rule: apply_batch_cases) (simp_all add: batch_items_contents [OF _ assms(2-4)] assms(5))

end

section \<open>The adapter over the in-memory store\<close>

text \<open>The first eight bytes of a key stand for its hash; an entry is 64 bytes wide.\<close>

definition mem_env :: "mem_db store_env" where
  "mem_env =
     \<lparr>sv_fjall = mem_fjall, sv_codec = wire_codec,
      sv_hash = (\<lambda>k. foldl (\<lambda>h b. h * 31 + ucast b) 7 k), sv_entry_size = 64\<rparr>"

definition mem_store :: "mem_db store" where
  "mem_store = \<lparr>st_db = (\<lambda>_. []), st_poisoned = (\<lambda>_. False)\<rparr>"

interpretation mem_store: fjall_store mem_env mem_view time_valid
  by (simp add: fjall_store_def mem_env_def wire_codec_def
      mem.fjall_db_axioms wire.postcard_api_axioms time_crate.time_api_axioms)

lemma mem_store_good: "index_inv (sv_codec mem_env) (mem_view (st_db mem_store))"
  by (simp add: index_inv_def mem_view_def mem_store_def)

text \<open>Without poisoned locks the in-memory adapter never fails.\<close>

lemma mem_env_simps [simp]:
  "fj_get (sv_fjall mem_env) db ks k = Inr (map_of (db ks) k)"
  "fj_contains_key (sv_fjall mem_env) db ks k = Inr (map_of (db ks) k \<noteq> None)"
  "fj_insert (sv_fjall mem_env) db ks k v = (Inr (), mem_apply (BInsert ks k v) db)"
  "fj_remove (sv_fjall mem_env) db ks k = (Inr (), mem_apply (BRemove ks k) db)"
  "fj_commit (sv_fjall mem_env) db ops = (Inr (), fold mem_apply ops db)"
  "fj_iter (sv_fjall mem_env) db ks = map Inr (mem_entries (db ks))"
  "fj_prefix (sv_fjall mem_env) db ks p = map Inr (filter (\<lambda>e. starts_with (fst e) p) (mem_entries (db ks)))"
  "sv_codec mem_env = wire_codec"
  by (simp_all add: mem_env_def mem_fjall_def)

lemma mem_encode: "\<exists>raw. encode_entry wire_codec v ex = Inr raw"
  by (simp add: encode_entry_def wire_codec_def entry_enc_def)

lemma mem_put: "\<exists>db. put_entry mem_env st sk raw ex = (Inr (), st\<lparr>st_db := db\<rparr>)"
  by (auto simp: put_entry_def Let_def split: option.splits)

lemma mem_set_total:
  assumes "st_poisoned st = (\<lambda>_. False)"
  shows "\<exists>st'. fjall_set mem_env st b k v ex = (Inr (), st') \<and> st_poisoned st' = (\<lambda>_. False)"
proof -
  obtain raw where "encode_entry wire_codec v ex = Inr raw" using mem_encode by blast
  then show ?thesis
    using assms mem_put [of st "data_storage_key b k" raw ex]
    by (auto simp: fjall_set_def lock_for_def Let_def)
qed

lemma mem_batch_items: "\<exists>its. batch_items mem_env b ops = Inr its"
proof (induction ops)
  case (Cons op ops)
  then obtain its where "batch_items mem_env b ops = Inr its" by blast
  then show ?case
  proof (cases op)
    case (TxnSet k v ex)
    obtain raw where "encode_entry wire_codec v ex = Inr raw" using mem_encode by blast
    then show ?thesis using TxnSet \<open>batch_items _ _ _ = _\<close> by (simp add: Let_def)
  qed simp
qed simp

lemma mem_batch_total:
  assumes "st_poisoned st = (\<lambda>_. False)"
  shows "\<exists>st'. fjall_apply_batch mem_env st b ops = (Inr (), st') \<and> st_poisoned st' = (\<lambda>_. False)"
proof -
  obtain its where "batch_items mem_env b ops = Inr its" using mem_batch_items by blast
  then show ?thesis
    using assms by (auto simp: fjall_apply_batch_def lock_stripes_for_keys_eq Let_def)
qed

lemma mem_increment_total:
  assumes "st_poisoned st = (\<lambda>_. False)" and "st_db st DATA_KEYSPACE = []" and "incremented now op None = Inr v"
  shows "\<exists>st'. fjall_increment mem_env st now b k op ex = (Inr v, st') \<and> st_poisoned st' = (\<lambda>_. False)"
proof -
  obtain raw where "encode_entry wire_codec v ex = Inr raw" using mem_encode by blast
  then show ?thesis
    using assms mem_put [of st "data_storage_key b k" raw ex]
    by (auto simp: fjall_increment_def lock_for_def Let_def current_value_def incremented_def counter_base_def
        split: sum.splits)
qed

lemma mem_get:
  "abs_entry wire_codec (mem_view (st_db st)) b k = Some en \<Longrightarrow> fjall_get mem_env st b k = Inr (Some en)"
  by (auto simp: fjall_get_def abs_entry_def decoded_def mem_view_def Let_def split: option.splits sum.splits)

definition demo_bucket :: bucket_id where "demo_bucket = BucketId (bs ''b1'')"
definition demo_key :: key where "demo_key = Key (bs ''n'')"
definition demo_value :: stored_value where "demo_value = \<lparr>payload = bs ''42'', kind = Int64\<rparr>"

lemma demo_ok: "bucket_ok demo_bucket" "value_ok demo_value" "pred_option time_valid (Some 1500000000)"
proof -
  show "bucket_ok demo_bucket" by code_simp
  show "value_ok demo_value" by code_simp
  show "pred_option time_valid (Some 1500000000)" by (simp add: time_valid_def time_min_def time_max_def)
qed

lemma mem_store_unpoisoned: "st_poisoned mem_store = (\<lambda>_. False)"
  by (simp add: mem_store_def)

section \<open>Properties\<close>

text \<open>
  The database holds a correct map from bucket and key to entry: a successful write of a
  value is read back exactly, with its expiry cut to the second, and no other key of any
  bucket changes.
\<close>

lemma store_set_then_get:
  assumes "fjall_store S view valid" and "fjall_set S st b k v ex = (Inr u, st')"
    and "value_ok v" and "pred_option valid ex" and "bucket_ok b" and "bucket_ok b'"
    and "fjall_get S st' b' k' = Inr r"
  shows "r = (if b' = b \<and> k' = k then Some (truncated_entry v ex)
              else abs_entry (sv_codec S) (view (st_db st)) b' k')"
  using fjall_store.get_entry [OF assms(1,7)] fjall_store.set_entry [OF assms(1-6)] by simp

lemma store_set_then_get_example:
  "\<exists>st'. fjall_set mem_env mem_store demo_bucket demo_key demo_value (Some 1500000000) = (Inr (), st')
     \<and> fjall_get mem_env st' demo_bucket demo_key
         = Inr (Some \<lparr>se_value = demo_value, se_expires_at = Some 1000000000\<rparr>)"
proof -
  let ?ex = "Some 1500000000 :: instant option"
  obtain st' where st': "fjall_set mem_env mem_store demo_bucket demo_key demo_value ?ex = (Inr (), st')"
    using mem_set_total [OF mem_store_unpoisoned] by blast
  then obtain r where r: "fjall_get mem_env st' demo_bucket demo_key = Inr r"
    using mem_get mem_store.set_entry [OF st' demo_ok(2,3,1,1)] by simp
  from store_set_then_get [OF mem_store.fjall_store_axioms st' demo_ok(2,3,1,1) r]
  show ?thesis using st' r by (simp add: truncated_entry_def)
qed

text \<open>
  A transaction is all or nothing: whatever happens inside the backend, the entries of its
  bucket after it are either those before it or those with every operation applied in order;
  success means applied, and no other bucket changes.
\<close>

lemma txn_all_or_nothing:
  assumes "fjall_store S view valid" and "fjall_apply_batch S st b ops = (r, st')"
    and "list_all (txn_op_ok valid) ops" and "bucket_ok b" and "bucket_ok b'"
  shows "abs_entry (sv_codec S) (view (st_db st')) b' \<in>
      (let before = abs_entry (sv_codec S) (view (st_db st)) b' in
       if b' \<noteq> b then {before}
       else if \<exists>u. r = Inr u then {txn_effects ops before} else {before, txn_effects ops before})"
proof (cases "b' = b")
  case True
  then show ?thesis using fjall_store.apply_batch_atomic [OF assms(1-4)] by (auto simp: Let_def)
next
  case False
  then show ?thesis using fjall_store.apply_batch_frame [OF assms(1-5) False] by (simp add: Let_def)
qed

definition demo_txn :: "txn_op list" where
  "demo_txn = [TxnSet demo_key demo_value None, TxnSet (Key (bs ''m'')) demo_value None, TxnDelete demo_key]"

lemma txn_all_or_nothing_example:
  "\<exists>st'. fjall_apply_batch mem_env mem_store demo_bucket demo_txn = (Inr (), st')
     \<and> abs_entry wire_codec (mem_view (st_db st')) demo_bucket =
         txn_effects demo_txn (abs_entry wire_codec (mem_view (st_db mem_store)) demo_bucket)"
proof -
  have ok: "list_all (txn_op_ok time_valid) demo_txn"
    using demo_ok(2) by (simp add: demo_txn_def)
  obtain st' where st': "fjall_apply_batch mem_env mem_store demo_bucket demo_txn = (Inr (), st')"
    using mem_batch_total [OF mem_store_unpoisoned] by blast
  from txn_all_or_nothing [OF mem_store.fjall_store_axioms st' ok demo_ok(1,1)] st'
  show ?thesis by simp
qed

text \<open>
  Every operation of the adapter, successful or failed, keeps the expiry index complete:
  each stored entry with an expiry has its index key, so the sweeper can find it.
\<close>

lemma store_ops_keep_index:
  assumes "fjall_store S view valid" and "index_inv (sv_codec S) (view (st_db st))"
  shows "index_inv (sv_codec S) (view (st_db (snd (fjall_set S st b k v ex))))
    \<and> index_inv (sv_codec S) (view (st_db (snd (fjall_delete S st b k))))
    \<and> index_inv (sv_codec S) (view (st_db (snd (fjall_increment S st now b k op ex))))
    \<and> index_inv (sv_codec S) (view (st_db (snd (fjall_apply_batch S st b ops))))"
  using fjall_store.set_good [OF assms(1) _ assms(2)] fjall_store.delete_good [OF assms(1) _ assms(2)]
    fjall_store.increment_good [OF assms(1) _ assms(2)] fjall_store.apply_batch_good [OF assms(1) _ assms(2)]
  by (intro conjI; metis prod.collapse)

lemma store_ops_keep_index_example:
  "index_inv wire_codec (mem_view (st_db
     (snd (fjall_set mem_env mem_store demo_bucket demo_key demo_value (Some 1500000000)))))"
  using store_ops_keep_index [OF mem_store.fjall_store_axioms mem_store_good] by simp

text \<open>
  C16. An increment is an atomic read-modify-write: on success the returned value is the stored
  counter (zero when the entry is missing or expired) plus the operand, and exactly that value
  replaces the entry; on a refused operand (not a number, overflow) nothing changes.
\<close>

theorem increment_read_modify_write:
  assumes "fjall_store S view valid" and "fjall_increment S st now b k op ex = (r, st')"
    and "counter_op_ok op" and "pred_option valid ex" and "bucket_ok b" and "bucket_ok b'"
  shows "case r of
      Inr v \<Rightarrow> incremented now op (abs_entry (sv_codec S) (view (st_db st)) b k) = Inr v
        \<and> abs_entry (sv_codec S) (view (st_db st')) b' k' =
            (if b' = b \<and> k' = k then Some (truncated_entry v ex)
             else abs_entry (sv_codec S) (view (st_db st)) b' k')
    | Inl (DomainErr d) \<Rightarrow>
        incremented now op (abs_entry (sv_codec S) (view (st_db st)) b k) = Inl d \<and> st' = st
    | Inl e \<Rightarrow> \<exists>m. e = Storage m"
proof (cases r)
  case (Inl e)
  then show ?thesis
    using fjall_store.increment_domain_error [OF assms(1)] increment_error assms(2)
    by (cases e) fastforce+
next
  case (Inr v)
  then show ?thesis
    using fjall_store.increment_entry [OF assms(1) _ assms(3-6)] assms(2) by auto
qed

theorem increment_read_modify_write_witness:
  "\<exists>st'. fjall_increment mem_env mem_store 0 demo_bucket demo_key (OpInt 5) None
      = (Inr \<lparr>payload = bs ''5'', kind = Int64\<rparr>, st')
     \<and> abs_entry wire_codec (mem_view (st_db st')) demo_bucket demo_key
         = Some \<lparr>se_value = \<lparr>payload = bs ''5'', kind = Int64\<rparr>, se_expires_at = None\<rparr>"
proof -
  have empty: "st_db mem_store DATA_KEYSPACE = []" by (simp add: mem_store_def)
  have inc: "incremented 0 (OpInt 5) None = Inr \<lparr>payload = bs ''5'', kind = Int64\<rparr>" by code_simp
  obtain st' where st': "fjall_increment mem_env mem_store 0 demo_bucket demo_key (OpInt 5) None
      = (Inr \<lparr>payload = bs ''5'', kind = Int64\<rparr>, st')"
    using mem_increment_total [OF mem_store_unpoisoned empty inc] by blast
  from increment_read_modify_write [OF mem_store.fjall_store_axioms st' _ _ demo_ok(1,1), of demo_key] st'
  show ?thesis by (simp add: truncated_entry_def)
qed

end
