(* ===== verification/Listing.thy ===== *)
theory Listing
  imports Store
begin

text \<open>
  \<open>FjallStore::list\<close> and \<open>list_inner\<close> of \<open>keydock-fjall/src/store.rs\<close>: one page of a
  bucket's live keys, ascending or descending.  The forward scan stops as soon as the page
  is full; the reverse scan has no backward iterator and keeps a sliding window of the last
  \<open>skip + limit\<close> rows.  Both are shown equal to the same page of one reference list,
  \<open>live_rows\<close>, which is exactly the bucket's live entries under the prefix in key order.
\<close>

section \<open>The scan\<close>

definition USIZE_MAX :: nat where "USIZE_MAX = 2 ^ 64 - 1"
definition ISIZE_MAX :: nat where "ISIZE_MAX = 2 ^ 63 - 1"

definition saturating_add :: "nat \<Rightarrow> nat \<Rightarrow> nat" where
  "saturating_add a b = min (a + b) USIZE_MAX"

text \<open>
  One step of either loop: the row a guard contributes, no row for a malformed key or an
  expired entry, or the error that ends the listing.
\<close>

definition list_row ::
  "'db store_env \<Rightarrow> bucket_id \<Rightarrow> list_opts \<Rightarrow> (string + bytes \<times> bytes) \<Rightarrow> use_case_error + list_entry option" where
  "list_row S b opts guard =
     (case fj guard of
        Inl e \<Rightarrow> Inl e
      | Inr (uk, uv) \<Rightarrow>
          (case user_key_from_storage_key uk b of
             None \<Rightarrow> Inr None
           | Some user_key \<Rightarrow>
               if lo_include_values opts then
                 (case uc (decode_entry (sv_codec S) uv) of
                    Inl e \<Rightarrow> Inl e
                  | Inr entry \<Rightarrow>
                      if (case (lo_expires_before opts, se_expires_at entry) of
                            (Some cutoff, Some ex) \<Rightarrow> ex \<le> cutoff | _ \<Rightarrow> False)
                      then Inr None
                      else Inr (Some \<lparr>le_key = user_key, le_value = Some (se_value entry)\<rparr>))
               else
                 (case uc (decode_entry_expires_unix (sv_codec S) uv) of
                    Inl e \<Rightarrow> Inl e
                  | Inr expires_unix \<Rightarrow>
                      if (case (map_option (unix_timestamp (cd_time (sv_codec S))) (lo_expires_before opts),
                                expires_unix) of
                            (Some cutoff, Some ex) \<Rightarrow> sint ex \<le> sint cutoff | _ \<Rightarrow> False)
                      then Inr None
                      else Inr (Some \<lparr>le_key = user_key, le_value = None\<rparr>))))"

fun list_forward ::
  "'db store_env \<Rightarrow> bucket_id \<Rightarrow> list_opts \<Rightarrow> nat \<Rightarrow> nat \<Rightarrow> list_entry list \<Rightarrow>
     (string + bytes \<times> bytes) list \<Rightarrow> use_case_error + list_entry list" where
  "list_forward S b opts skip_remaining taken out [] = Inr out"
| "list_forward S b opts skip_remaining taken out (guard # guards) =
     (if lo_limit opts \<le> taken then Inr out
      else
        (case list_row S b opts guard of
           Inl e \<Rightarrow> Inl e
         | Inr None \<Rightarrow> list_forward S b opts skip_remaining taken out guards
         | Inr (Some row) \<Rightarrow>
             if 0 < skip_remaining then list_forward S b opts (skip_remaining - 1) taken out guards
             else list_forward S b opts skip_remaining (taken + 1) (out @ [row]) guards))"

text \<open>The inner \<open>while\<close> of the reverse scan drops from the front down to the window.\<close>

fun trim_front :: "nat \<Rightarrow> 'a list \<Rightarrow> 'a list" where
  "trim_front window [] = []"
| "trim_front window (x # xs) = (if window < length (x # xs) then trim_front window xs else x # xs)"

fun list_reverse ::
  "'db store_env \<Rightarrow> bucket_id \<Rightarrow> list_opts \<Rightarrow> nat \<Rightarrow> list_entry list \<Rightarrow>
     (string + bytes \<times> bytes) list \<Rightarrow> use_case_error + list_entry list" where
  "list_reverse S b opts window deque [] =
     Inr (take (lo_limit opts) (drop (lo_skip opts) (rev deque)))"
| "list_reverse S b opts window deque (guard # guards) =
     (case list_row S b opts guard of
        Inl e \<Rightarrow> Inl e
      | Inr None \<Rightarrow> list_reverse S b opts window deque guards
      | Inr (Some row) \<Rightarrow> list_reverse S b opts window (trim_front window (deque @ [row])) guards)"

text \<open>
  The whole operation.  \<open>VecDeque::with_capacity\<close> panics when the requested capacity does
  not fit the address space.
\<close>

definition fjall_list ::
  "'db store_env \<Rightarrow> 'db store \<Rightarrow> bucket_id \<Rightarrow> list_opts \<Rightarrow> (use_case_error + list_entry list) run" where
  "fjall_list S st b opts =
     (if lo_limit opts = 0 then Done (Inr [])
      else
        (let guards = fj_prefix (sv_fjall S) (st_db st) DATA_KEYSPACE (data_key_prefix b (lo_prefix opts))
         in if lo_reverse opts then
              (let window = saturating_add (lo_skip opts) (lo_limit opts) in
               if window = 0 then Done (Inr [])
               else if ISIZE_MAX < window * sv_entry_size S then Panicked
               else Done (list_reverse S b opts window [] guards))
            else Done (list_forward S b opts (lo_skip opts) 0 [] guards)))"

section \<open>The reference list\<close>

fun list_rows ::
  "'db store_env \<Rightarrow> bucket_id \<Rightarrow> list_opts \<Rightarrow> (string + bytes \<times> bytes) list \<Rightarrow> use_case_error + list_entry list" where
  "list_rows S b opts [] = Inr []"
| "list_rows S b opts (guard # guards) =
     (case list_row S b opts guard of
        Inl e \<Rightarrow> Inl e
      | Inr row \<Rightarrow>
          (case list_rows S b opts guards of
             Inl e \<Rightarrow> Inl e
           | Inr rows \<Rightarrow> Inr (case row of None \<Rightarrow> rows | Some r \<Rightarrow> r # rows)))"

definition page :: "list_opts \<Rightarrow> 'a list \<Rightarrow> 'a list" where
  "page opts rows = take (lo_limit opts) (drop (lo_skip opts) (if lo_reverse opts then rev rows else rows))"

lemma trim_front_eq: "trim_front w xs = drop (length xs - w) xs"
  by (induction xs) (auto simp: Suc_diff_le not_less)

lemma trim_front_append: "trim_front w (trim_front w xs @ ys) = trim_front w (xs @ ys)"
  by (simp add: trim_front_eq drop_append) (cases "length xs \<le> w"; simp add: min_def add.commute)

lemma list_forward_rows:
  "list_rows S b opts gs = Inr rows \<Longrightarrow> taken \<le> lo_limit opts \<Longrightarrow>
     list_forward S b opts skip taken out gs = Inr (out @ take (lo_limit opts - taken) (drop skip rows))"
proof (induction gs arbitrary: rows skip taken out)
  case Nil
  then show ?case by simp
next
  case (Cons g gs)
  then obtain row rest where row: "list_row S b opts g = Inr row" and rest: "list_rows S b opts gs = Inr rest"
    and rows: "rows = (case row of None \<Rightarrow> rest | Some r \<Rightarrow> r # rest)"
    by (auto split: sum.splits)
  show ?case
  proof (cases "lo_limit opts \<le> taken")
    case False
    then have "lo_limit opts - taken = Suc (lo_limit opts - Suc taken)" by simp
    then show ?thesis
      using False row rows Cons.IH [OF rest] Cons.prems(2)
      by (cases row; cases skip) (simp_all add: Suc_le_eq)
  qed (use Cons.prems in simp)
qed

lemma list_reverse_rows:
  "list_rows S b opts gs = Inr rows \<Longrightarrow>
     list_reverse S b opts w (trim_front w acc) gs =
       Inr (take (lo_limit opts) (drop (lo_skip opts) (rev (trim_front w (acc @ rows)))))"
proof (induction gs arbitrary: rows acc)
  case Nil
  then show ?case by simp
next
  case (Cons g gs)
  then obtain row rest where row: "list_row S b opts g = Inr row" and rest: "list_rows S b opts gs = Inr rest"
    and rows: "rows = (case row of None \<Rightarrow> rest | Some r \<Rightarrow> r # rest)"
    by (auto split: sum.splits)
  show ?case
    using row rows Cons.IH [OF rest] by (cases row) (simp_all add: trim_front_append)
qed

lemma list_reverse_error:
  "list_rows S b opts gs = Inl e \<Longrightarrow> list_reverse S b opts w acc gs = Inl e"
  by (induction gs arbitrary: acc) (auto split: sum.splits option.splits)

lemma rev_trim_front: "rev (trim_front w xs) = take w (rev xs)"
  by (cases "w \<le> length xs") (simp_all add: trim_front_eq rev_drop)

lemma page_of_window:
  "take l (drop s (take (s + l) xs)) = take l (drop s xs)"
  by (simp add: drop_take)

lemma no_panic_no_saturation:
  assumes "0 < n" and "saturating_add s l * n \<le> ISIZE_MAX"
  shows "saturating_add s l = s + l"
proof (rule ccontr)
  assume "saturating_add s l \<noteq> s + l"
  then have "saturating_add s l = USIZE_MAX" by (auto simp: saturating_add_def min_def split: if_splits)
  then have "USIZE_MAX \<le> ISIZE_MAX" using assms by (metis le_trans mult_le_mono2 nat_mult_1_right Suc_leI One_nat_def)
  then show False by (simp add: USIZE_MAX_def ISIZE_MAX_def)
qed

text \<open>Every listing that does not panic is the page of its rows.\<close>

lemma fjall_list_page:
  assumes "list_rows S b opts (fj_prefix (sv_fjall S) (st_db st) DATA_KEYSPACE (data_key_prefix b (lo_prefix opts))) = Inr rows"
    and "0 < sv_entry_size S" and "fjall_list S st b opts = Done r"
  shows "r = Inr (page opts rows)"
proof (cases "lo_limit opts = 0 \<or> \<not> lo_reverse opts")
  case True
  then show ?thesis
    using assms(3) list_forward_rows [OF assms(1), of 0 "lo_skip opts" "[]"]
    by (auto simp: fjall_list_def page_def Let_def split: if_splits)
next
  case False
  let ?w = "saturating_add (lo_skip opts) (lo_limit opts)"
  have fits: "?w * sv_entry_size S \<le> ISIZE_MAX" using assms(3) False
    by (auto simp: fjall_list_def Let_def saturating_add_def USIZE_MAX_def split: if_splits)
  have w: "?w = lo_skip opts + lo_limit opts" by (rule no_panic_no_saturation [OF assms(2) fits])
  show ?thesis
    using assms(3) False fits w list_reverse_rows [OF assms(1), of ?w "[]"]
    by (auto simp: fjall_list_def Let_def page_def rev_trim_front page_of_window)
qed

section \<open>The rows are the live entries\<close>

definition live :: "instant option \<Rightarrow> stored_entry \<Rightarrow> bool" where
  "live cutoff en \<longleftrightarrow>
     (case (cutoff, se_expires_at en) of (Some c, Some ex) \<Rightarrow> c < ex | _ \<Rightarrow> True)"

definition row_of :: "codec_ops \<Rightarrow> bucket_id \<Rightarrow> list_opts \<Rightarrow> bytes \<times> bytes \<Rightarrow> list_entry option" where
  "row_of C b opts kv =
     (case (user_key_from_storage_key (fst kv) b, decode_entry C (snd kv)) of
        (Some k, Inr en) \<Rightarrow>
          if live (lo_expires_before opts) en
          then Some \<lparr>le_key = k, le_value = (if lo_include_values opts then Some (se_value en) else None)\<rparr>
          else None
      | _ \<Rightarrow> None)"

definition all_decode :: "codec_ops \<Rightarrow> bucket_id \<Rightarrow> contents \<Rightarrow> bool" where
  "all_decode C b c \<longleftrightarrow> (\<forall>k v. c DATA_KEYSPACE (data_storage_key b k) = Some v \<longrightarrow> (\<exists>en. decode_entry C v = Inr en))"

text \<open>What a listing with these options has to show of a bucket.\<close>

definition listed :: "list_opts \<Rightarrow> (key \<Rightarrow> stored_entry option) \<Rightarrow> list_entry \<Rightarrow> bool" where
  "listed opts m row \<longleftrightarrow>
     (\<exists>en. m (le_key row) = Some en \<and> key_ok (le_key row) \<and> live (lo_expires_before opts) en
        \<and> (case lo_prefix opts of None \<Rightarrow> True | Some p \<Rightarrow> starts_with (as_bytes (le_key row)) p)
        \<and> le_value row = (if lo_include_values opts then Some (se_value en) else None))"

lemma row_of_Some_iff:
  "row_of C b opts kv = Some row \<longleftrightarrow>
     fst kv = data_storage_key b (le_key row) \<and> key_ok (le_key row) \<and>
     (\<exists>en. decode_entry C (snd kv) = Inr en \<and> live (lo_expires_before opts) en
        \<and> le_value row = (if lo_include_values opts then Some (se_value en) else None))"
proof -
  have "row_of C b opts kv = Some row \<longleftrightarrow> user_key_from_storage_key (fst kv) b = Some (le_key row) \<and>
     (\<exists>en. decode_entry C (snd kv) = Inr en \<and> live (lo_expires_before opts) en
        \<and> le_value row = (if lo_include_values opts then Some (se_value en) else None))"
    by (cases row) (auto simp: row_of_def split: option.splits sum.splits)
  then show ?thesis by (simp add: user_key_Some_iff)
qed

lemma row_of_key: "row_of C b opts kv = Some r \<Longrightarrow> fst kv = data_storage_key b (le_key r)"
  by (simp add: row_of_Some_iff)

lemma map_filter_sorted:
  assumes "sorted_wrt (<) (map fst kvs)"
  shows "sorted_wrt (<) (map le_key (List.map_filter (row_of C b opts) kvs))"
  using assms
proof (induction kvs)
  case (Cons kv kvs)
  have "le_key r < le_key r'"
    if row: "row_of C b opts kv = Some r" and mem: "r' \<in> set (List.map_filter (row_of C b opts) kvs)" for r r'
  proof -
    obtain kv' where "kv' \<in> set kvs" "row_of C b opts kv' = Some r'"
      using mem by (auto simp: map_filter_def)
    then have "fst kv < fst kv'" and "fst kv' = data_storage_key b (le_key r')"
      using Cons.prems row_of_key [of C b opts kv' r'] by auto
    then show ?thesis using row_of_key [OF row] by (simp add: storage_key_order less_key_def)
  qed
  then show ?case using Cons by (auto simp: map_filter_simps split: option.split)
qed simp

context fjall_store
begin

lemma list_row_eq:
  assumes "decode_entry C (snd kv) = Inr en" and "pred_option valid (lo_expires_before opts)"
  shows "list_row S b opts (Inr kv) = Inr (row_of C b opts kv)"
proof (cases "user_key_from_storage_key (fst kv) b")
  case (Some k)
  obtain c where c: "pc_dec C (snd kv) = Inr c" using assms(1) by (auto simp: decode_entry_def split: sum.splits)
  then have ex: "decode_entry_expires_unix C (snd kv) = Inr (ec_expires_unix c)"
    by (simp add: decode_entry_expires_unix_def)
  have "(case (map_option (unix_timestamp (cd_time C)) (lo_expires_before opts), ec_expires_unix c) of
      (Some cutoff, Some ex) \<Rightarrow> sint ex \<le> sint cutoff | _ \<Rightarrow> False) \<longleftrightarrow> \<not> live (lo_expires_before opts) en"
  proof (cases "lo_expires_before opts"; cases "ec_expires_unix c")
    fix cut ts assume o: "lo_expires_before opts = Some cut" and ts: "ec_expires_unix c = Some ts"
    then obtain t where "from_unix_timestamp (cd_time C) ts = Inr t" and "se_expires_at en = Some t"
      using assms(1) c by (auto simp: decode_entry_def expires_at_from_unix_def split: sum.splits)
    then show ?thesis using tm.whole_second_passed [of ts t cut] assms(2) o ts by (auto simp: live_def)
  qed (use assms(1) c in \<open>auto simp: live_def decode_entry_def split: sum.splits\<close>)
  moreover have "(case (lo_expires_before opts, se_expires_at en) of
      (Some cutoff, Some ex) \<Rightarrow> ex \<le> cutoff | _ \<Rightarrow> False) \<longleftrightarrow> \<not> live (lo_expires_before opts) en"
    by (auto simp: live_def split: option.splits)
  ultimately show ?thesis
    using Some assms(1) ex by (cases kv) (simp add: list_row_def row_of_def)
qed (cases kv, simp add: list_row_def row_of_def)

lemma list_rows_eq:
  assumes "no_errors gs" and "\<And>kv. kv \<in> set (oks gs) \<Longrightarrow> \<exists>en. decode_entry C (snd kv) = Inr en"
    and "pred_option valid (lo_expires_before opts)"
  shows "list_rows S b opts gs = Inr (List.map_filter (row_of C b opts) (oks gs))"
  using assms(1,2)
proof (induction gs)
  case (Cons g gs)
  then obtain kv where "g = Inr kv" by (cases g) (auto simp: no_errors_def)
  moreover from this obtain en where "decode_entry C (snd kv) = Inr en"
    using Cons.prems(2) [of kv] by auto
  moreover have "list_rows S b opts gs = Inr (List.map_filter (row_of C b opts) (oks gs))"
    using Cons \<open>g = _\<close> by (auto simp: no_errors_def)
  ultimately show ?case
    using list_row_eq assms(3) by (simp add: map_filter_simps split: option.splits)
qed (simp add: map_filter_simps)

lemma prefixed_storage_key:
  assumes "starts_with sk (data_key_prefix b p)"
  shows "\<exists>k. sk = data_storage_key b k"
proof -
  obtain r where "sk = data_key_prefix b p @ r"
    using assms by (auto simp: starts_with_prefix prefix_def)
  then have "sk = data_storage_key b (Key ((case p of None \<Rightarrow> [] | Some q \<Rightarrow> q) @ r))"
    by (simp add: data_storage_key_def data_key_prefix_def)
  then show ?thesis by blast
qed

lemma list_complete:
  fixes st b opts
  defines "gs \<equiv> fj_prefix (sv_fjall S) (st_db st) DATA_KEYSPACE (data_key_prefix b (lo_prefix opts))"
  assumes "no_errors gs" and "all_decode C b (contents_of st)"
    and "pred_option valid (lo_expires_before opts)"
  obtains rows where "list_rows S b opts gs = Inr rows"
    and "sorted_wrt (<) (map le_key rows)"
    and "\<And>row. row \<in> set rows \<longleftrightarrow> listed opts (entry st b) row"
proof -
  have gs_iff: "(sk, v) \<in> set (oks gs) \<longleftrightarrow> contents_of st DATA_KEYSPACE sk = Some v
      \<and> starts_with sk (data_key_prefix b (lo_prefix opts))" for sk v
    using db.prefix_sound db.prefix_complete assms(2) unfolding gs_def by blast
  let ?rows = "List.map_filter (row_of C b opts) (oks gs)"
  have dec: "\<exists>en. decode_entry C (snd kv) = Inr en" if "kv \<in> set (oks gs)" for kv
    using that gs_iff [of "fst kv" "snd kv"] prefixed_storage_key assms(3) unfolding all_decode_def by fastforce
  have "row \<in> set ?rows \<longleftrightarrow> listed opts (entry st b) row" for row
  proof
    assume "row \<in> set ?rows"
    then obtain kv where kv: "kv \<in> set (oks gs)" "row_of C b opts kv = Some row"
      by (auto simp: map_filter_def)
    then have "contents_of st DATA_KEYSPACE (data_storage_key b (le_key row)) = Some (snd kv)"
      and "starts_with (data_storage_key b (le_key row)) (data_key_prefix b (lo_prefix opts))"
      using gs_iff [of "data_storage_key b (le_key row)" "snd kv"] row_of_key [OF kv(2)]
      by (metis prod.collapse)+
    then show "listed opts (entry st b) row"
      using kv(2) storage_key_has_prefix [of b "le_key row" "lo_prefix opts"]
      by (auto simp: listed_def row_of_Some_iff abs_entry_def decoded_def)
  next
    assume l: "listed opts (entry st b) row"
    then obtain v where v: "contents_of st DATA_KEYSPACE (data_storage_key b (le_key row)) = Some v"
      by (auto simp: listed_def abs_entry_def decoded_def split: option.splits)
    then have "row_of C b opts (data_storage_key b (le_key row), v) = Some row"
      using l by (auto simp: listed_def row_of_Some_iff abs_entry_def decoded_def split: sum.splits)
    moreover have "(data_storage_key b (le_key row), v) \<in> set (oks gs)"
      using l v gs_iff storage_key_has_prefix [of b "le_key row" "lo_prefix opts"] by (auto simp: listed_def)
    ultimately show "row \<in> set ?rows" by (force simp: map_filter_def)
  qed
  then show thesis
    using that [OF list_rows_eq [OF assms(2) dec assms(4)]] map_filter_sorted db.prefix_sorted
    unfolding gs_def by blast
qed

end

section \<open>The adapter provides the port's contract\<close>

definition fjall_repo :: "'db store_env \<Rightarrow> 'db store key_repo" where
  "fjall_repo S =
     \<lparr>kr_get = fjall_get S, kr_set = fjall_set S, kr_delete = fjall_delete S, kr_list = fjall_list S,
      kr_increment = fjall_increment S, kr_apply_batch = fjall_apply_batch S\<rparr>"

lemma fjall_repo_simps [simp]:
  "kr_get (fjall_repo S) = fjall_get S" "kr_set (fjall_repo S) = fjall_set S"
  "kr_delete (fjall_repo S) = fjall_delete S" "kr_list (fjall_repo S) = fjall_list S"
  "kr_increment (fjall_repo S) = fjall_increment S" "kr_apply_batch (fjall_repo S) = fjall_apply_batch S"
  by (simp_all add: fjall_repo_def)

sublocale fjall_store \<subseteq> repo: key_repository "fjall_repo S"
  "\<lambda>st. abs_entry (sv_codec S) (view (st_db st))" "\<lambda>st. index_inv (sv_codec S) (view (st_db st))"
  bucket_ok valid
proof (unfold_locales, unfold fjall_repo_simps)
  fix st st' now b k op ex v
  assume "fjall_increment S st now b k op ex = (Inr v, st')"
  then show "incremented now op (abs_entry (sv_codec S) (view (st_db st)) b k) = Inr v"
    by (cases rule: increment_cases) (auto split: sum.splits)
qed (rule get_entry set_entry set_frame set_good delete_entry delete_existed delete_good
    increment_entry(2) increment_domain_error increment_good
    apply_batch_atomic apply_batch_frame apply_batch_good; assumption)+

context fjall_store
begin

lemma is_repository:
  "key_repository (fjall_repo S)
     (\<lambda>st. abs_entry (sv_codec S) (view (st_db st))) (\<lambda>st. index_inv (sv_codec S) (view (st_db st)))
     bucket_ok valid"
  by (rule repo.key_repository_axioms)

end

section \<open>Properties\<close>

text \<open>
  C18. A listing shows exactly the live entries: with an intact bucket and no backend error,
  the page is cut from the strictly ascending list of all live keys under the prefix (its
  reverse for a descending listing), each with its value when values are asked for.
\<close>

theorem list_is_page_of_live_entries:
  assumes "fjall_store S view valid"
    and "no_errors (fj_prefix (sv_fjall S) (st_db st) DATA_KEYSPACE (data_key_prefix b (lo_prefix opts)))"
    and "all_decode (sv_codec S) b (view (st_db st))" and "pred_option valid (lo_expires_before opts)"
    and "0 < sv_entry_size S" and "fjall_list S st b opts = Done r"
  shows "\<exists>rows. r = Inr (page opts rows)
    \<and> sorted_wrt (<) (map le_key rows)
    \<and> (\<forall>row. row \<in> set rows \<longleftrightarrow> listed opts (abs_entry (sv_codec S) (view (st_db st)) b) row)"
  using fjall_store.list_complete [OF assms(1-4)] fjall_list_page [OF _ assms(5,6)] by metis

definition demo_opts :: list_opts where
  "demo_opts = \<lparr>lo_prefix = None, lo_limit = 10, lo_skip = 0, lo_reverse = True,
     lo_include_values = True, lo_expires_before = Some 0\<rparr>"

lemma demo_list_rows:
  assumes "fjall_set mem_env mem_store demo_bucket demo_key demo_value (Some 1500000000) = (Inr (), st')"
  shows "all_decode wire_codec demo_bucket (mem_view (st_db st'))"
    and "\<exists>r. fjall_list mem_env st' demo_bucket demo_opts = Done r"
proof -
  have "abs_entry wire_codec (mem_view (st_db st')) demo_bucket k \<noteq> None"
    if "mem_view (st_db st') DATA_KEYSPACE (data_storage_key demo_bucket k) \<noteq> None" for k
  proof (cases "k = demo_key")
    case True
    then show ?thesis using mem_store.set_entry [OF assms demo_ok(2,3,1,1)] by simp
  next
    case False
    then show ?thesis
      using that mem_store.set_cases [OF assms] mem_store.put_entry_contents(1)
      by (fastforce simp: mem_store_def mem_view_def)
  qed
  then show "all_decode wire_codec demo_bucket (mem_view (st_db st'))"
    by (fastforce simp: all_decode_def abs_entry_def decoded_def split: sum.splits)
  show "\<exists>r. fjall_list mem_env st' demo_bucket demo_opts = Done r"
    by (simp add: fjall_list_def demo_opts_def saturating_add_def USIZE_MAX_def ISIZE_MAX_def mem_env_def)
qed

theorem list_is_page_of_live_entries_witness:
  "\<exists>st' rows. fjall_set mem_env mem_store demo_bucket demo_key demo_value (Some 1500000000) = (Inr (), st')
     \<and> fjall_list mem_env st' demo_bucket demo_opts = Done (Inr (page demo_opts rows))
     \<and> \<lparr>le_key = demo_key, le_value = Some demo_value\<rparr> \<in> set rows"
proof -
  obtain st' where st': "fjall_set mem_env mem_store demo_bucket demo_key demo_value (Some 1500000000) = (Inr (), st')"
    using mem_set_total [OF mem_store_unpoisoned] by blast
  obtain r where r: "fjall_list mem_env st' demo_bucket demo_opts = Done r"
    using demo_list_rows(2) [OF st'] by blast
  have en: "abs_entry wire_codec (mem_view (st_db st')) demo_bucket demo_key
      = Some (truncated_entry demo_value (Some 1500000000))"
    using mem_store.set_entry [OF st' demo_ok(2,3,1,1)] by simp
  have "key_ok demo_key" by code_simp
  then have "listed demo_opts (abs_entry wire_codec (mem_view (st_db st')) demo_bucket)
      \<lparr>le_key = demo_key, le_value = Some demo_value\<rparr>"
    using en by (simp add: listed_def demo_opts_def truncated_entry_def live_def)
  moreover have "time_valid 0" by (simp add: time_valid_def time_min_def time_max_def)
  ultimately show ?thesis
    using list_is_page_of_live_entries [OF mem_store.fjall_store_axioms _ _ _ _ r]
      demo_list_rows(1) [OF st'] st' r
    by (fastforce simp: no_errors_def demo_opts_def mem_env_def [THEN arg_cong [where f = sv_entry_size]])
qed


end
