(* ===== verification/Keys.thy ===== *)
theory Keys
  imports Listing
begin

text \<open>
  \<open>keydock-usecase/src/keys.rs\<close> and \<open>txn.rs\<close>: the use cases on keys.  \<open>KeyService\<close> infers the
  kind of a body, turns a time-to-live into an instant, hides expired entries and delegates
  to the repository, which is an argument.  The lemmas are proved for every repository that
  keeps the contract \<open>key_repository\<close>; the properties state them for the fjall adapter.
\<close>

section \<open>KeyService\<close>

record list_opts_input =
  li_prefix :: "bytes option"
  li_limit :: "nat option"
  li_skip :: "nat option"
  li_reverse :: "bool option"
  li_include_values :: "bool option"

definition unwrap_or :: "'a option \<Rightarrow> 'a \<Rightarrow> 'a" where
  "unwrap_or x d = (case x of Some a \<Rightarrow> a | None \<Rightarrow> d)"

definition KeyService_get ::
  "'st key_repo \<Rightarrow> instant \<Rightarrow> 'st \<Rightarrow> bucket_id \<Rightarrow> key \<Rightarrow> use_case_error + stored_entry" where
  "KeyService_get R now st b k =
     (case kr_get R st b k of
        Inl e \<Rightarrow> Inl e
      | Inr None \<Rightarrow> Inl NotFound
      | Inr (Some entry) \<Rightarrow>
          if (case se_expires_at entry of Some ex \<Rightarrow> ex \<le> now | None \<Rightarrow> False) then Inl NotFound
          else Inr entry)"

definition DEFAULT_LIMIT :: nat where "DEFAULT_LIMIT = 10000"

definition list_opts_of :: "instant \<Rightarrow> list_opts_input \<Rightarrow> list_opts" where
  "list_opts_of now i =
     \<lparr>lo_prefix = li_prefix i, lo_limit = unwrap_or (li_limit i) DEFAULT_LIMIT,
      lo_skip = unwrap_or (li_skip i) 0, lo_reverse = unwrap_or (li_reverse i) False,
      lo_include_values = unwrap_or (li_include_values i) False, lo_expires_before = Some now\<rparr>"

definition KeyService_list ::
  "'st key_repo \<Rightarrow> instant \<Rightarrow> 'st \<Rightarrow> bucket_id \<Rightarrow> list_opts_input \<Rightarrow> (use_case_error + list_entry list) run" where
  "KeyService_list R now st b i = kr_list R st b (list_opts_of now i)"

text \<open>\<open>json_ok\<close> stands for \<open>serde_json::from_str::<Value>\<close> succeeding.\<close>

definition infer_value_kind :: "(str \<Rightarrow> bool) \<Rightarrow> bytes \<Rightarrow> str option \<Rightarrow> value_kind" where
  "infer_value_kind json_ok body content_type =
     (let guess =
        (case from_utf8 body of
           None \<Rightarrow> Raw
         | Some s \<Rightarrow>
             (let t = trim s in
              if parse_i64 t \<noteq> None then Int64
              else if (case parse_f64 t of Some f \<Rightarrow> is_finite_f64 f | None \<Rightarrow> False) then Float64
              else if json_ok t then Json
              else Utf8))
      in case content_type of
           None \<Rightarrow> guess
         | Some ct \<Rightarrow>
             (let lower = to_ascii_lowercase ct in
              if contains_sub lower (bs ''application/json'') then Json
              else if trim (hd (split_on 0x3B lower)) = bs ''text/plain''
              then (if from_utf8 body \<noteq> None then Utf8 else Raw)
              else guess))"

definition infer_stored_value :: "(str \<Rightarrow> bool) \<Rightarrow> bytes \<Rightarrow> str option \<Rightarrow> use_case_error + stored_value" where
  "infer_stored_value json_ok body content_type =
     (case StoredValue_new body (infer_value_kind json_ok body content_type) of
        Inl e \<Rightarrow> Inl (DomainErr e)
      | Inr v \<Rightarrow> Inr v)"

definition resolve_ttl ::
  "time_ops \<Rightarrow> instant \<Rightarrow> u64 option \<Rightarrow> u64 option \<Rightarrow> use_case_error + instant option" where
  "resolve_ttl T now ttl_override default_ttl =
     (case (case ttl_override of Some s \<Rightarrow> Some s | None \<Rightarrow> default_ttl) of
        None \<Rightarrow> Inr None
      | Some secs \<Rightarrow>
          if secs = 0 then Inr None
          else if i64_max < uint secs then Inl (DomainErr (InvalidTtl ''ttl seconds out of supported range''))
          else
            (case checked_add_secs T now secs of
               None \<Rightarrow> Inl (DomainErr (InvalidTtl ''ttl resulting instant out of range''))
             | Some t \<Rightarrow> Inr (Some t)))"

definition KeyService_set ::
  "time_ops \<Rightarrow> (str \<Rightarrow> bool) \<Rightarrow> 'st key_repo \<Rightarrow> instant \<Rightarrow> 'st \<Rightarrow> bucket_id \<Rightarrow> key \<Rightarrow> bytes \<Rightarrow> str option \<Rightarrow>
     u64 option \<Rightarrow> u64 option \<Rightarrow> (use_case_error + stored_value) \<times> 'st" where
  "KeyService_set T json_ok R now st b k body content_type ttl_override default_ttl =
     (case infer_stored_value json_ok body content_type of
        Inl e \<Rightarrow> (Inl e, st)
      | Inr v \<Rightarrow>
          (case resolve_ttl T now ttl_override default_ttl of
             Inl e \<Rightarrow> (Inl e, st)
           | Inr expires_at \<Rightarrow>
               (let (r, st') = kr_set R st b k v expires_at
                in (case r of Inl e \<Rightarrow> Inl e | Inr _ \<Rightarrow> Inr v, st'))))"

text \<open>\<open>store_now\<close> is the repository's own reading of the clock.\<close>

definition KeyService_increment ::
  "time_ops \<Rightarrow> 'st key_repo \<Rightarrow> instant \<Rightarrow> instant \<Rightarrow> 'st \<Rightarrow> bucket_id \<Rightarrow> key \<Rightarrow> counter_op \<Rightarrow>
     u64 option \<Rightarrow> u64 option \<Rightarrow> (use_case_error + stored_value) \<times> 'st" where
  "KeyService_increment T R now store_now st b k op ttl_override default_ttl =
     (case resolve_ttl T now ttl_override default_ttl of
        Inl e \<Rightarrow> (Inl e, st)
      | Inr expires_at \<Rightarrow> kr_increment R st store_now b k op expires_at)"

definition KeyService_delete ::
  "'st key_repo \<Rightarrow> 'st \<Rightarrow> bucket_id \<Rightarrow> key \<Rightarrow> (use_case_error + unit) \<times> 'st" where
  "KeyService_delete R st b k =
     (let (r, st') = kr_delete R st b k
      in (case r of Inl e \<Rightarrow> Inl e | Inr existed \<Rightarrow> if existed then Inr () else Inl NotFound, st'))"

section \<open>TxnService\<close>

definition TxnService_execute ::
  "'st key_repo \<Rightarrow> 'st \<Rightarrow> bucket_id \<Rightarrow> txn_op list \<Rightarrow> (use_case_error + unit) \<times> 'st" where
  "TxnService_execute R st b ops = kr_apply_batch R st b ops"

section \<open>Kinds and times to live\<close>

lemma infer_stored_value_Inr:
  "infer_stored_value json_ok body ct = Inr v \<longleftrightarrow>
     v = \<lparr>payload = body, kind = infer_value_kind json_ok body ct\<rparr> \<and> length body \<le> MAX_VALUE_BYTES"
  by (auto simp: infer_stored_value_def StoredValue_new_Inr value_ok_def StoredValue_new_def split: sum.splits if_splits)

lemma infer_stored_value_ok: "infer_stored_value json_ok body ct = Inr v \<Longrightarrow> value_ok v"
  by (simp add: infer_stored_value_Inr value_ok_def)

text \<open>A body inferred to be a number is one the counter accepts.\<close>

lemma inferred_number_counts:
  assumes "infer_value_kind json_ok body ct = K" and "K = Int64 \<or> K = Float64"
  shows "\<exists>c. CounterValue_from_stored \<lparr>payload = body, kind = K\<rparr> = Inr c"
  using assms
  by (auto simp: infer_value_kind_def CounterValue_from_stored_def Let_def finite_iff
      split: option.splits if_splits)

definition effective_ttl :: "u64 option \<Rightarrow> u64 option \<Rightarrow> nat" where
  "effective_ttl ttl_override default_ttl =
     unat (unwrap_or (case ttl_override of Some s \<Rightarrow> Some s | None \<Rightarrow> default_ttl) 0)"

context time_api
begin

lemma resolve_ttl_cases:
  assumes "valid now"
  shows "resolve_ttl T now ttl_override default_ttl =
    (let secs = int (effective_ttl ttl_override default_ttl) in
     if secs = 0 then Inr None
     else if i64_max < secs then Inl (DomainErr (InvalidTtl ''ttl seconds out of supported range''))
     else if valid (now + secs * nanos) then Inr (Some (now + secs * nanos))
     else Inl (DomainErr (InvalidTtl ''ttl resulting instant out of range'')))"
proof -
  have small: "sint s = int (unat s)" if "\<not> i64_max < uint s" for s :: u64
  proof -
    have "0 \<le> uint s" by simp
    then have "i64_min \<le> uint s" unfolding i64_min_def by (rule order_trans [rotated]) simp
    then show ?thesis using that sint_of_int_i64 [of "uint s"] by simp
  qed
  have "checked_add_secs T now s =
      (if valid (now + int (unat s) * nanos) then Some (now + int (unat s) * nanos) else None)"
    if "\<not> i64_max < uint s" for s
    using add_Some [OF assms, of s] add_None [OF assms, of s] small [OF that]
    by (cases "checked_add_secs T now s") auto
  then show ?thesis
    by (auto simp: resolve_ttl_def effective_ttl_def unwrap_or_def Let_def uint_0_iff split: option.splits)
qed

lemma resolve_ttl_valid: "valid now \<Longrightarrow> resolve_ttl T now ovr dflt = Inr ex \<Longrightarrow> pred_option valid ex"
  by (auto simp: resolve_ttl_cases Let_def split: if_splits)

end

section \<open>The use cases over any repository that keeps its contract\<close>

context key_repository
begin

lemma service_set_cases:
  assumes "KeyService_set T json_ok R now st b k body ct ovr dflt = (Inr v, st')"
  obtains ex u where "infer_stored_value json_ok body ct = Inr v" and "resolve_ttl T now ovr dflt = Inr ex"
    and "kr_set R st b k v ex = (Inr u, st')"
  using assms by (auto simp: KeyService_set_def Let_def split: sum.splits prod.splits)

lemma service_set_entry:
  assumes "time_api T valid" and "valid now" and "bucket_valid b"
    and "KeyService_set T json_ok R now st b k body ct ovr dflt = (Inr v, st')"
  shows "\<exists>ex. resolve_ttl T now ovr dflt = Inr ex \<and> entry st' b k = Some (truncated_entry v ex)"
    and "v = \<lparr>payload = body, kind = infer_value_kind json_ok body ct\<rparr>"
    and "\<And>b' k'. bucket_valid b' \<Longrightarrow> (b', k') \<noteq> (b, k) \<Longrightarrow> entry st' b' k' = entry st b' k'"
proof -
  obtain ex u where c: "infer_stored_value json_ok body ct = Inr v" "resolve_ttl T now ovr dflt = Inr ex"
    "kr_set R st b k v ex = (Inr u, st')"
    using service_set_cases [OF assms(4)] .
  have "entry st' b k = Some (truncated_entry v ex)"
    using set_writes [OF c(3) infer_stored_value_ok [OF c(1)] _ assms(3,3)]
      time_api.resolve_ttl_valid [OF assms(1,2) c(2)] by simp
  then show "\<exists>ex. resolve_ttl T now ovr dflt = Inr ex \<and> entry st' b k = Some (truncated_entry v ex)"
    using c(2) by blast
  show "v = \<lparr>payload = body, kind = infer_value_kind json_ok body ct\<rparr>"
    using c(1) by (simp add: infer_stored_value_Inr)
  show "entry st' b' k' = entry st b' k'" if "bucket_valid b'" "(b', k') \<noteq> (b, k)" for b' k'
    using set_others [OF c(3) assms(3) that] .
qed

lemma service_get_live:
  assumes "kr_get R st b k = Inr r"
  shows "KeyService_get R now st b k =
    (case entry st b k of
       Some en \<Rightarrow> if live (Some now) en then Inr en else Inl NotFound
     | None \<Rightarrow> Inl NotFound)"
  using get_reads [OF assms] assms
  by (auto simp: KeyService_get_def live_def split: option.splits)

lemma service_delete:
  assumes "KeyService_delete R st b k = (Inr u, st')" and "bucket_valid b" and "bucket_valid b'"
  shows "entry st' b' k' = (if b' = b \<and> k' = k then None else entry st b' k')"
  using assms delete_removes
  by (auto simp: KeyService_delete_def Let_def split: sum.splits prod.splits if_splits)

lemma service_delete_missing:
  assumes "KeyService_delete R st b k = (Inl NotFound, st')" and "bucket_valid b"
    and "kr_delete R st b k = (Inr existed, st')"
  shows "entry st b k = None \<and> (\<forall>k'. entry st' b k' = entry st b k')"
proof -
  have "\<not> existed" using assms(1,3) by (auto simp: KeyService_delete_def split: if_splits)
  then have "entry st b k = None" using delete_found [OF assms(3)] by blast
  then show ?thesis using delete_removes [OF assms(3,2,2)] by auto
qed

end

section \<open>Writing with a time to live, then reading\<close>

lemma service_ttl:
  assumes "fjall_store S view valid" and "valid now" and "bucket_ok b"
    and "KeyService_set (cd_time (sv_codec S)) json_ok (fjall_repo S) now st b k body ct ovr dflt = (Inr v, st')"
    and "fjall_get S st' b k = Inr r"
  shows "KeyService_get (fjall_repo S) now' st' b k =
    (let secs = int (effective_ttl ovr dflt); until = (now div nanos + secs) * nanos in
     if secs = 0 then Inr \<lparr>se_value = \<lparr>payload = body, kind = infer_value_kind json_ok body ct\<rparr>, se_expires_at = None\<rparr>
     else if now' < until
       then Inr \<lparr>se_value = \<lparr>payload = body, kind = infer_value_kind json_ok body ct\<rparr>, se_expires_at = Some until\<rparr>
       else Inl NotFound)"
proof -
  note repo = fjall_store.is_repository [OF assms(1)]
  have tm: "time_api (cd_time (sv_codec S)) valid" using assms(1) by (simp add: fjall_store_def)
  obtain ex where ex: "resolve_ttl (cd_time (sv_codec S)) now ovr dflt = Inr ex"
    and en: "abs_entry (sv_codec S) (view (st_db st')) b k = Some (truncated_entry v ex)"
    using key_repository.service_set_entry(1) [OF repo tm assms(2-4)] by blast
  have v: "v = \<lparr>payload = body, kind = infer_value_kind json_ok body ct\<rparr>"
    using key_repository.service_set_entry(2) [OF repo tm assms(2-4)] .
  have "ex = (let secs = int (effective_ttl ovr dflt) in if secs = 0 then None else Some (now + secs * nanos))"
    using ex unfolding time_api.resolve_ttl_cases [OF tm assms(2)] by (auto simp: Let_def split: if_splits)
  then show ?thesis
    using key_repository.service_get_live [OF repo, of st' b k r now'] en v assms(5)
    by (auto simp: Let_def truncated_entry_def live_def)
qed

section \<open>Properties\<close>

text \<open>
  A value stays readable for its time to live and no longer: after a successful write
  with \<open>secs\<close> seconds to live (the override, else the bucket's default; zero means for ever),
  a read returns exactly the written body, its inferred kind and its expiry until the whole
  second in which the time runs out, and \<open>NotFound\<close> from then on.
\<close>

lemma set_then_get_within_ttl:
  assumes "fjall_store S view valid" and "valid now" and "bucket_ok b"
    and "KeyService_set (cd_time (sv_codec S)) json_ok (fjall_repo S) now st b k body ct ovr dflt = (Inr v, st')"
    and "fjall_get S st' b k = Inr r"
  shows "KeyService_get (fjall_repo S) now' st' b k =
    (let secs = int (effective_ttl ovr dflt); until = (now div nanos + secs) * nanos in
     if secs = 0 then Inr \<lparr>se_value = \<lparr>payload = body, kind = infer_value_kind json_ok body ct\<rparr>, se_expires_at = None\<rparr>
     else if now' < until
       then Inr \<lparr>se_value = \<lparr>payload = body, kind = infer_value_kind json_ok body ct\<rparr>, se_expires_at = Some until\<rparr>
       else Inl NotFound)"
  by (rule service_ttl [OF assms])

lemma demo_service_set:
  "\<exists>st'. KeyService_set time_crate (\<lambda>_. False) (fjall_repo mem_env) 500000000 mem_store demo_bucket demo_key
     (bs ''hi'') None (Some 60) None = (Inr \<lparr>payload = bs ''hi'', kind = Utf8\<rparr>, st')"
proof -
  let ?v = "\<lparr>payload = bs ''hi'', kind = Utf8\<rparr>"
  have v: "infer_stored_value (\<lambda>_. False) (bs ''hi'') None = Inr ?v" by code_simp
  have "resolve_ttl time_crate 500000000 (Some 60) None = Inr (Some 60500000000)" by code_simp
  moreover obtain st' where "fjall_set mem_env mem_store demo_bucket demo_key ?v (Some 60500000000) = (Inr (), st')"
    using mem_set_total [OF mem_store_unpoisoned] by blast
  ultimately show ?thesis using v by (simp add: KeyService_set_def)
qed

lemma set_then_get_within_ttl_example:
  "\<exists>st'. KeyService_set time_crate (\<lambda>_. False) (fjall_repo mem_env) 500000000 mem_store demo_bucket demo_key
       (bs ''hi'') None (Some 60) None = (Inr \<lparr>payload = bs ''hi'', kind = Utf8\<rparr>, st')
     \<and> KeyService_get (fjall_repo mem_env) 59999999999 st' demo_bucket demo_key =
         Inr \<lparr>se_value = \<lparr>payload = bs ''hi'', kind = Utf8\<rparr>, se_expires_at = Some 60000000000\<rparr>"
proof -
  obtain st' where st': "KeyService_set time_crate (\<lambda>_. False) (fjall_repo mem_env) 500000000 mem_store
      demo_bucket demo_key (bs ''hi'') None (Some 60) None = (Inr \<lparr>payload = bs ''hi'', kind = Utf8\<rparr>, st')"
    using demo_service_set by blast
  have tc: "cd_time (sv_codec mem_env) = time_crate" by (simp add: wire_codec_def)
  have now: "time_valid 500000000" by code_simp
  note repo = mem_store.is_repository
  obtain en where "abs_entry (sv_codec mem_env) (mem_view (st_db st')) demo_bucket demo_key = Some en"
    using key_repository.service_set_entry(1) [OF repo time_crate.time_api_axioms now demo_ok(1) st'] by blast
  then obtain r where r: "fjall_get mem_env st' demo_bucket demo_key = Inr r" using mem_get by auto
  have k: "infer_value_kind (\<lambda>_. False) (bs ''hi'') None = Utf8" by code_simp
  have t: "effective_ttl (Some 60) None = 60" by code_simp
  from set_then_get_within_ttl [OF mem_store.fjall_store_axioms now demo_ok(1) _ r, unfolded tc, OF st']
  show ?thesis using st' by (simp add: k t)
qed

text \<open>
  A deletion answers \<open>NotFound\<close> only when there was nothing to delete, and after it,
  whatever its answer, the key is gone and every other key of every bucket is as before;
  a backend error aside.
\<close>

lemma delete_removes_exactly_one_key:
  assumes "fjall_store S view valid" and "bucket_ok b" and "bucket_ok b'"
    and "KeyService_delete (fjall_repo S) st b k = (r, st')" and "r = Inr u \<or> r = Inl NotFound"
  shows "abs_entry (sv_codec S) (view (st_db st')) b' k' =
      (if b' = b \<and> k' = k then None else abs_entry (sv_codec S) (view (st_db st)) b' k')
    \<and> (r = Inl NotFound \<longrightarrow> abs_entry (sv_codec S) (view (st_db st)) b k = None)"
proof -
  note repo = fjall_store.is_repository [OF assms(1)]
  obtain existed where d: "fjall_delete S st b k = (Inr existed, st')"
    using assms(4,5) fjall_store.delete_no_NotFound [OF assms(1), of st b k NotFound st']
    by (auto simp: KeyService_delete_def split: sum.splits prod.splits if_splits)
  then have "abs_entry (sv_codec S) (view (st_db st')) b' k' =
      (if b' = b \<and> k' = k then None else abs_entry (sv_codec S) (view (st_db st)) b' k')"
    using key_repository.delete_removes [OF repo, of st b k existed st' b' k'] assms(2,3) by simp
  moreover have "r = Inl NotFound \<longrightarrow> abs_entry (sv_codec S) (view (st_db st)) b k = None"
    using key_repository.service_delete_missing [OF repo _ assms(2), of st k st' existed] d assms(4) by simp
  ultimately show ?thesis by blast
qed

lemma delete_removes_exactly_one_key_example:
  "\<exists>st'. KeyService_delete (fjall_repo mem_env) mem_store demo_bucket demo_key = (Inl NotFound, st')
     \<and> abs_entry wire_codec (mem_view (st_db st')) demo_bucket demo_key = None"
proof -
  have d: "KeyService_delete (fjall_repo mem_env) mem_store demo_bucket demo_key = (Inl NotFound, mem_store)"
    by (simp add: KeyService_delete_def fjall_delete_def lock_for_def Let_def mem_store_def)
  from delete_removes_exactly_one_key [OF mem_store.fjall_store_axioms demo_ok(1,1) d, of _ demo_key] d
  show ?thesis by simp
qed

text \<open>
  What is stored as a number counts as one: a body the service classifies as an integer
  or a float, with or without a content type, is accepted as the operand of an increment.
\<close>

lemma numeric_bodies_count:
  assumes "infer_value_kind json_ok body ct \<in> {Int64, Float64}"
  shows "\<exists>c. CounterValue_from_stored \<lparr>payload = body, kind = infer_value_kind json_ok body ct\<rparr> = Inr c
    \<and> counter_value_ok c"
  using inferred_number_counts [of json_ok body ct] CounterValue_from_stored_ok assms by blast

lemma numeric_bodies_count_example:
  "infer_value_kind (\<lambda>_. False) (bs '' 42 '') None = Int64 \<and>
     (\<exists>c. CounterValue_from_stored \<lparr>payload = bs '' 42 '', kind = Int64\<rparr> = Inr c \<and> counter_value_ok c)"
proof -
  have "infer_value_kind (\<lambda>_. False) (bs '' 42 '') None = Int64" by code_simp
  with numeric_bodies_count [of "\<lambda>_. False" "bs '' 42 ''" None] show ?thesis by simp
qed

end
