(* ===== verification/Gc.thy ===== *)
theory Gc
  imports Listing
begin

text \<open>
  \<open>keydock-fjall/src/gc.rs\<close>: the sweeper that removes expired entries.  It walks a snapshot
  of the expiry index in key order, stops at the first key that has not expired, and for
  each earlier key removes the index key and then the entry, if the entry still has that
  expiry.  One guard is one step under the stripe lock of its storage key, so other
  operations run between steps: \<open>gc_trace\<close> interleaves them.
\<close>

section \<open>The sweep\<close>

record gc_stats =
  expiry_scanned :: nat
  expiry_removed :: nat
  keys_removed :: nat

datatype gc_flow = Continue | Break

text \<open>The tail of the loop body, once the index key is removed: verify the entry and drop it.\<close>

definition gc_drop_entry ::
  "'db store_env \<Rightarrow> i64 \<Rightarrow> i64 \<Rightarrow> bytes \<Rightarrow> gc_stats \<Rightarrow> 'db store \<Rightarrow> gc_stats \<times> 'db store" where
  "gc_drop_entry S now_ts expires_unix storage_key stats st =
     (case fj_get (sv_fjall S) (st_db st) DATA_KEYSPACE storage_key of
        Inl e \<Rightarrow> (stats, st)
      | Inr None \<Rightarrow> (stats, st)
      | Inr (Some v) \<Rightarrow>
          (case decode_entry_expires_unix (sv_codec S) v of
             Inl e \<Rightarrow> (stats, st)
           | Inr None \<Rightarrow> (stats, st)
           | Inr (Some actual_unix) \<Rightarrow>
               if sint now_ts < sint actual_unix then (stats, st)
               else if actual_unix \<noteq> expires_unix then (stats, st)
               else
                 (case fj_remove (sv_fjall S) (st_db st) DATA_KEYSPACE storage_key of
                    (Inr _, db) \<Rightarrow> (stats\<lparr>keys_removed := keys_removed stats + 1\<rparr>, st\<lparr>st_db := db\<rparr>)
                  | (Inl e, db) \<Rightarrow> (stats, st\<lparr>st_db := db\<rparr>))))"

definition gc_step ::
  "'db store_env \<Rightarrow> i64 \<Rightarrow> (string + bytes \<times> bytes) \<Rightarrow> gc_stats \<Rightarrow> 'db store \<Rightarrow>
     gc_flow \<times> gc_stats \<times> 'db store" where
  "gc_step S now_ts guard stats0 st =
     (let stats = stats0\<lparr>expiry_scanned := expiry_scanned stats0 + 1\<rparr> in
      case guard of
        Inl e \<Rightarrow> (Continue, stats, st)
      | Inr (expiry_key, _) \<Rightarrow>
          (case parse_expiry_index_key expiry_key of
             None \<Rightarrow> (Continue, stats, st)
           | Some (expires_unix, storage_key) \<Rightarrow>
               if sint now_ts < sint expires_unix then (Break, stats, st)
               else
                 (case lock_for (sv_hash S) (st_poisoned st) storage_key of
                    Inl e \<Rightarrow> (Continue, stats, st)
                  | Inr _ \<Rightarrow>
                      (case fj_remove (sv_fjall S) (st_db st) EXPIRY_KEYSPACE expiry_key of
                         (Inl e, db) \<Rightarrow> (Continue, stats, st\<lparr>st_db := db\<rparr>)
                       | (Inr _, db) \<Rightarrow>
                           (Continue,
                            gc_drop_entry S now_ts expires_unix storage_key
                              (stats\<lparr>expiry_removed := expiry_removed stats + 1\<rparr>) (st\<lparr>st_db := db\<rparr>))))))"

fun sweep_loop ::
  "'db store_env \<Rightarrow> i64 \<Rightarrow> (string + bytes \<times> bytes) list \<Rightarrow> gc_stats \<Rightarrow> 'db store \<Rightarrow> gc_stats \<times> 'db store" where
  "sweep_loop S now_ts [] stats st = (stats, st)"
| "sweep_loop S now_ts (guard # guards) stats st =
     (case gc_step S now_ts guard stats st of
        (Break, stats', st') \<Rightarrow> (stats', st')
      | (Continue, stats', st') \<Rightarrow> sweep_loop S now_ts guards stats' st')"

definition sweep_keyspace :: "'db store_env \<Rightarrow> instant \<Rightarrow> 'db store \<Rightarrow> gc_stats \<times> 'db store" where
  "sweep_keyspace S now st =
     sweep_loop S (unix_timestamp (cd_time (sv_codec S)) now)
       (fj_iter (sv_fjall S) (st_db st) EXPIRY_KEYSPACE)
       \<lparr>expiry_scanned = 0, expiry_removed = 0, keys_removed = 0\<rparr> st"

section \<open>A sweep between other operations\<close>

text \<open>What a client operation may do to the store, as the sweeper sees it.\<close>

inductive client_step :: "'db store_env \<Rightarrow> 'db store \<Rightarrow> 'db store \<Rightarrow> bool" for S where
  set: "fjall_set S st b k v ex = (r, st') \<Longrightarrow> client_step S st st'"
| delete: "fjall_delete S st b k = (r', st') \<Longrightarrow> client_step S st st'"
| increment: "fjall_increment S st now b k op ex = (r'', st') \<Longrightarrow> client_step S st st'"
| batch: "fjall_apply_batch S st b ops = (r, st') \<Longrightarrow> client_step S st st'"

text \<open>
  A state of a running sweep: the guards still to visit and the store.
\<close>

inductive gc_trace ::
  "'db store_env \<Rightarrow> i64 \<Rightarrow> (string + bytes \<times> bytes) list \<times> 'db store \<Rightarrow>
     (string + bytes \<times> bytes) list \<times> 'db store \<Rightarrow> bool" for S now_ts where
  start: "gc_trace S now_ts c c"
| client: "gc_trace S now_ts c (gs, st) \<Longrightarrow> client_step S st st' \<Longrightarrow> gc_trace S now_ts c (gs, st')"
| visit: "gc_trace S now_ts c (g # gs, st) \<Longrightarrow> gc_step S now_ts g stats st = (Continue, stats', st') \<Longrightarrow>
    gc_trace S now_ts c (gs, st')"
| stop: "gc_trace S now_ts c (g # gs, st) \<Longrightarrow> gc_step S now_ts g stats st = (Break, stats', st') \<Longrightarrow>
    gc_trace S now_ts c ([], st')"

section \<open>What a step removes\<close>

definition expired_at :: "codec_ops \<Rightarrow> i64 \<Rightarrow> bytes \<Rightarrow> bool" where
  "expired_at C now_ts v \<longleftrightarrow> (\<exists>ts. has_expiry C v ts \<and> sint ts \<le> sint now_ts)"

text \<open>A change of the contents that only drops expired entries and index keys.\<close>

definition only_expired_dropped :: "codec_ops \<Rightarrow> i64 \<Rightarrow> contents \<Rightarrow> contents \<Rightarrow> bool" where
  "only_expired_dropped C now_ts c c' \<longleftrightarrow>
     (\<forall>sk. c' DATA_KEYSPACE sk = c DATA_KEYSPACE sk
        \<or> c' DATA_KEYSPACE sk = None \<and> (\<exists>v. c DATA_KEYSPACE sk = Some v \<and> expired_at C now_ts v))
     \<and> c' META_KEYSPACE = c META_KEYSPACE"

lemma only_expired_refl [simp]: "only_expired_dropped C now_ts c c"
  by (simp add: only_expired_dropped_def)

lemma only_expired_trans:
  "only_expired_dropped C now_ts a b \<Longrightarrow> only_expired_dropped C now_ts b c \<Longrightarrow> only_expired_dropped C now_ts a c"
  unfolding only_expired_dropped_def by metis

lemma gc_step_shape:
  assumes "gc_step S now_ts g stats st = (flow, stats', st')"
  obtains (idle) "st' = st"
    | (failed) u ts sk e w where "parse_expiry_index_key u = Some (ts, sk)" and "sint ts \<le> sint now_ts"
        and "fj_remove (sv_fjall S) (st_db st) EXPIRY_KEYSPACE u = (Inl e, st_db st')"
        and "g = Inr (u, w)"
    | (removed) u ts sk db' s w where "parse_expiry_index_key u = Some (ts, sk)" and "sint ts \<le> sint now_ts"
        and "fj_remove (sv_fjall S) (st_db st) EXPIRY_KEYSPACE u = (Inr (), db')"
        and "gc_drop_entry S now_ts ts sk s (st\<lparr>st_db := db'\<rparr>) = (stats', st')" and "g = Inr (u, w)"
proof (cases "\<exists>u w ts sk. g = Inr (u, w) \<and> parse_expiry_index_key u = Some (ts, sk) \<and> sint ts \<le> sint now_ts
    \<and> (\<exists>i. lock_for (sv_hash S) (st_poisoned st) sk = Inr i)")
  case True
  then obtain u w ts sk i where g: "g = Inr (u, w)" and p: "parse_expiry_index_key u = Some (ts, sk)"
    and le: "sint ts \<le> sint now_ts" and l: "lock_for (sv_hash S) (st_poisoned st) sk = Inr i"
    by blast
  obtain q db' where rm: "fj_remove (sv_fjall S) (st_db st) EXPIRY_KEYSPACE u = (q, db')" by fastforce
  note step = assms g p l le rm
  show thesis
  proof (cases q)
    case (Inl e)
    then show thesis using failed [OF p le, of e] step by (auto simp: gc_step_def Let_def not_less)
  next
    case (Inr x)
    then show thesis using removed [OF p le, of db'] step by (auto simp: gc_step_def Let_def not_less)
  qed
next
  case False
  then have "st' = st"
    using assms by (auto simp: gc_step_def Let_def not_less split: sum.splits option.splits if_splits)
  then show thesis by (rule idle)
qed

text \<open>A backend whose reads, removals and iterators do not fail.\<close>

definition reliable :: "'db fjall_ops \<Rightarrow> bool" where
  "reliable F \<longleftrightarrow>
     (\<forall>db ks k. \<exists>r. fj_get F db ks k = Inr r)
     \<and> (\<forall>db ks k. \<exists>db'. fj_remove F db ks k = (Inr (), db'))
     \<and> (\<forall>db ks. no_errors (fj_iter F db ks))"

text \<open>The index keys of all expired entries are still to be visited.\<close>

definition pending :: "codec_ops \<Rightarrow> i64 \<Rightarrow> (string + bytes \<times> bytes) list \<Rightarrow> contents \<Rightarrow> bool" where
  "pending C now_ts gs c \<longleftrightarrow>
     (\<forall>sk v ts. sk \<noteq> [] \<longrightarrow> c DATA_KEYSPACE sk = Some v \<longrightarrow> has_expiry C v ts \<longrightarrow> sint ts \<le> sint now_ts \<longrightarrow>
        expiry_index_key ts sk \<in> fst ` set (oks gs))"

context fjall_store
begin

text \<open>The sweeper's calls, by their effect on the contents.\<close>

lemma drop_entry_cases:
  assumes "gc_drop_entry S now_ts ts sk stats st = (stats', st')"
  shows "contents_of st' = contents_of st \<or>
    contents_of st' = apply_bop (BRemove DATA_KEYSPACE sk) (contents_of st)
      \<and> (\<exists>v. contents_of st DATA_KEYSPACE sk = Some v \<and> has_expiry C v ts \<and> sint ts \<le> sint now_ts)"
proof -
  consider "st' = st"
    | v q where "fj_get (sv_fjall S) (st_db st) DATA_KEYSPACE sk = Inr (Some v)"
      "decode_entry_expires_unix C v = Inr (Some ts)" "\<not> sint now_ts < sint ts"
      "fj_remove (sv_fjall S) (st_db st) DATA_KEYSPACE sk = (q, st_db st')"
    using assms by (auto simp: gc_drop_entry_def split: sum.splits option.splits if_splits prod.splits)
  then show ?thesis
  proof cases
    case (2 v q)
    then show ?thesis using db.get_Inr [OF 2(1)] db.remove_cases [OF 2(4)] by (auto simp: has_expiry_def)
  qed simp
qed

lemma gc_step_cases:
  assumes "gc_step S now_ts g stats st = (flow, stats', st')"
  obtains (idle) "st' = st"
    | (removed) ts sk u where "parse_expiry_index_key u = Some (ts, sk)" and "sint ts \<le> sint now_ts"
      and "contents_of st' = apply_bop (BRemove EXPIRY_KEYSPACE u) (contents_of st)
        \<or> contents_of st' = contents_of st
        \<or> contents_of st' = apply_bop (BRemove DATA_KEYSPACE sk) (apply_bop (BRemove EXPIRY_KEYSPACE u) (contents_of st))
          \<and> (\<exists>v. contents_of st DATA_KEYSPACE sk = Some v \<and> has_expiry C v ts)"
  using assms
proof (cases rule: gc_step_shape)
  case (failed u ts sk e)
  then show thesis using removed [OF failed(1,2)] db.remove_cases [OF failed(3)] by blast
next
  case (removed u ts sk db' s)
  have "contents_of (st\<lparr>st_db := db'\<rparr>) = apply_bop (BRemove EXPIRY_KEYSPACE u) (contents_of st)"
    using db.remove_Inr [OF removed(3)] by simp
  then show thesis using that(2) [OF removed(1,2)] drop_entry_cases [OF removed(4)] by auto
qed (rule idle)

lemma gc_step_only_expired:
  "gc_step S now_ts g stats st = (flow, stats', st') \<Longrightarrow>
     only_expired_dropped C now_ts (contents_of st) (contents_of st')"
  by (erule gc_step_cases) (auto simp: only_expired_dropped_def expired_at_def split: if_splits)

lemma sweep_only_expired:
  "sweep_loop S now_ts gs stats st = (stats', st') \<Longrightarrow>
     only_expired_dropped C now_ts (contents_of st) (contents_of st')"
proof (induction gs arbitrary: stats st)
  case (Cons g gs)
  obtain flow s1 st1 where step: "gc_step S now_ts g stats st = (flow, s1, st1)" by (metis prod_cases3)
  then have "only_expired_dropped C now_ts (contents_of st1) (contents_of st')"
    using Cons by (cases flow) auto
  then show ?case using gc_step_only_expired [OF step] only_expired_trans by blast
qed simp

text \<open>Without backend failures a step does its whole job.\<close>

lemma drop_entry_exact:
  assumes "reliable (sv_fjall S)" and "gc_drop_entry S now_ts ts sk stats st = (stats', st')"
    and "sint ts \<le> sint now_ts"
  shows "contents_of st' =
      (if \<exists>v. contents_of st DATA_KEYSPACE sk = Some v \<and> has_expiry C v ts
       then apply_bop (BRemove DATA_KEYSPACE sk) (contents_of st) else contents_of st)"
    and "st_poisoned st' = st_poisoned st"
proof -
  obtain r where r: "fj_get (sv_fjall S) (st_db st) DATA_KEYSPACE sk = Inr r"
    using assms(1) unfolding reliable_def by blast
  obtain db' where rm: "fj_remove (sv_fjall S) (st_db st) DATA_KEYSPACE sk = (Inr (), db')"
    using assms(1) unfolding reliable_def by blast
  note facts = r db.get_Inr [OF r] rm db.remove_Inr [OF rm] assms(2,3)
  show "contents_of st' =
      (if \<exists>v. contents_of st DATA_KEYSPACE sk = Some v \<and> has_expiry C v ts
       then apply_bop (BRemove DATA_KEYSPACE sk) (contents_of st) else contents_of st)"
    using facts
    by (auto simp: gc_drop_entry_def has_expiry_def split: option.splits sum.splits if_splits)
  show "st_poisoned st' = st_poisoned st"
    using facts by (auto simp: gc_drop_entry_def split: option.splits sum.splits if_splits)
qed

lemma gc_step_exact:
  assumes "reliable (sv_fjall S)" and "st_poisoned st = (\<lambda>_. False)"
    and "gc_step S now_ts (Inr (u, w)) stats st = (flow, stats', st')"
    and "parse_expiry_index_key u = Some (ts, sk)"
  shows "if sint now_ts < sint ts then flow = Break \<and> st' = st
    else flow = Continue \<and> st_poisoned st' = (\<lambda>_. False) \<and> contents_of st' =
      (let c = apply_bop (BRemove EXPIRY_KEYSPACE u) (contents_of st) in
       if \<exists>v. contents_of st DATA_KEYSPACE sk = Some v \<and> has_expiry C v ts
       then apply_bop (BRemove DATA_KEYSPACE sk) c else c)"
proof (cases "sint now_ts < sint ts")
  case True
  then show ?thesis using assms(3,4) by (simp add: gc_step_def Let_def)
next
  case False
  obtain db' where rm: "fj_remove (sv_fjall S) (st_db st) EXPIRY_KEYSPACE u = (Inr (), db')"
    using assms(1) unfolding reliable_def by blast
  let ?st = "st\<lparr>st_db := db'\<rparr>"
  have lock: "lock_for (sv_hash S) (st_poisoned st) sk = Inr (stripe_index (sv_hash S) sk)"
    by (simp add: assms(2) lock_for_def)
  obtain s where "flow = Continue" and d: "gc_drop_entry S now_ts ts sk s ?st = (stats', st')"
    using assms(3,4) False rm lock by (auto simp: gc_step_def Let_def)
  moreover have "contents_of ?st = apply_bop (BRemove EXPIRY_KEYSPACE u) (contents_of st)"
    using db.remove_Inr [OF rm] by simp
  ultimately show ?thesis
    using False assms(2) drop_entry_exact [OF assms(1) d] by (auto simp: Let_def)
qed

lemma gc_step_index:
  assumes "reliable (sv_fjall S)" and "gc_step S now_ts g stats st = (flow, stats', st')" and "good st"
  shows "good st'"
  using assms(2)
proof (cases rule: gc_step_shape)
  case (failed u ts sk e)
  then show ?thesis using assms(1) unfolding reliable_def by (metis Inl_Inr_False prod.inject)
next
  case (removed u ts sk db' s)
  have "contents_of (st\<lparr>st_db := db'\<rparr>) = apply_bop (BRemove EXPIRY_KEYSPACE u) (contents_of st)"
    using db.remove_Inr [OF removed(3)] by simp
  then show ?thesis
    using drop_entry_exact(1) [OF assms(1) removed(4,2)] assms(3) parse_expiry_index_key_Some [OF removed(1)]
    by (auto simp: index_inv_def expiry_index_key_inj split: if_splits)
qed (use assms(3) in simp)

lemma client_step_index: "client_step S st st' \<Longrightarrow> good st \<Longrightarrow> good st'"
  by (induction rule: client_step.induct)
    (blast intro: set_good delete_good increment_good apply_batch_good)+

lemma gc_trace_index:
  "gc_trace S now_ts c c' \<Longrightarrow> reliable (sv_fjall S) \<Longrightarrow> good (snd c) \<Longrightarrow> good (snd c')"
  by (induction rule: gc_trace.induct) (auto dest: client_step_index gc_step_index)

lemma pending_Nil: "pending C now_ts [] c \<Longrightarrow> sk \<noteq> [] \<Longrightarrow> c DATA_KEYSPACE sk = Some v \<Longrightarrow> \<not> expired_at C now_ts v"
  by (auto simp: pending_def expired_at_def)

text \<open>The early stop: behind an unexpired key in ascending order nothing expired is left.\<close>

lemma pending_Break:
  assumes "pending C now_ts (Inr (expiry_index_key ts0 sk0, w) # gs) c" and "sint now_ts < sint ts0"
    and "sorted_wrt (<) (map fst (oks (Inr (expiry_index_key ts0 sk0, w) # gs)))"
  shows "pending C now_ts [] c"
proof -
  have False if "sk \<noteq> []" "c DATA_KEYSPACE sk = Some v" "has_expiry C v ts" "sint ts \<le> sint now_ts" for sk v ts
  proof -
    have less: "expiry_index_key ts sk < expiry_index_key ts0 sk0"
      using that(4) assms(2) by (intro expiry_index_key_mono) simp
    have "expiry_index_key ts sk \<in> fst ` set (oks (Inr (expiry_index_key ts0 sk0, w) # gs))"
      using assms(1) that unfolding pending_def by blast
    then have "expiry_index_key ts0 sk0 \<le> expiry_index_key ts sk" using assms(3) by force
    then show False using less by simp
  qed
  then show ?thesis unfolding pending_def by blast
qed

lemma sweep_loop_complete:
  assumes "reliable (sv_fjall S)" and "sweep_loop S now_ts gs stats st = (stats', st')"
    and "st_poisoned st = (\<lambda>_. False)" and "no_errors gs" and "sorted_wrt (<) (map fst (oks gs))"
    and "pending C now_ts gs (contents_of st)"
  shows "pending C now_ts [] (contents_of st')"
  using assms(2-)
proof (induction gs arbitrary: stats st)
  case (Cons g gs)
  obtain u w where g: "g = Inr (u, w)" using Cons.prems(3) by (cases g) (auto simp: no_errors_def)
  obtain flow s1 st1 where step: "gc_step S now_ts g stats st = (flow, s1, st1)" by (metis prod_cases3)
  have gs: "no_errors gs" "sorted_wrt (<) (map fst (oks gs))"
    using Cons.prems(3,4) g by (auto simp: no_errors_def)
  show ?case
  proof (cases "parse_expiry_index_key u")
    case None
    then have "flow = Continue" "st1 = st" using step g by (simp_all add: gc_step_def Let_def)
    moreover have "pending C now_ts gs (contents_of st)"
      using Cons.prems(5) g None parse_expiry_index_key_build unfolding pending_def by fastforce
    ultimately show ?thesis using Cons.IH [OF _ Cons.prems(2) gs] Cons.prems(1) step by simp
  next
    case (Some p)
    obtain ts sk where p: "parse_expiry_index_key u = Some (ts, sk)" using Some by (cases p) simp
    have u: "u = expiry_index_key ts sk" by (rule parse_expiry_index_key_Some [OF p])
    note exact = gc_step_exact [OF assms(1) Cons.prems(2) step [unfolded g] p]
    show ?thesis
    proof (cases "sint now_ts < sint ts")
      case True
      then show ?thesis
        using exact Cons.prems(1,4,5) step pending_Break [of now_ts ts sk w gs] g u by simp
    next
      case False
      have "pending C now_ts gs (contents_of st1)"
        using exact False Cons.prems(5) g u
        by (auto simp: pending_def Let_def expiry_index_key_inj split: if_splits) blast
      then show ?thesis
        using exact False Cons.IH [OF _ _ gs] Cons.prems(1) step by auto
    qed
  qed
qed auto

lemma sweep_complete:
  assumes "reliable (sv_fjall S)" and "st_poisoned st = (\<lambda>_. False)" and "good st"
    and "sweep_keyspace S now st = (stats, st')"
  shows "pending C (unix_timestamp (cd_time C) now) [] (contents_of st')"
proof (rule sweep_loop_complete [OF assms(1) assms(4) [unfolded sweep_keyspace_def] assms(2)])
  show *: "no_errors (fj_iter (sv_fjall S) (st_db st) EXPIRY_KEYSPACE)"
    using assms(1) unfolding reliable_def by blast
  show "pending C (unix_timestamp (cd_time C) now) (fj_iter (sv_fjall S) (st_db st) EXPIRY_KEYSPACE) (contents_of st)"
    using assms(3) db.iter_complete [OF *] unfolding pending_def index_inv_def by force
qed (rule db.iter_sorted)

lemma sweep_exact:
  assumes "reliable (sv_fjall S)" and "st_poisoned st = (\<lambda>_. False)" and "good st"
    and "sweep_keyspace S now st = (stats, st')"
  shows "contents_of st' DATA_KEYSPACE (data_storage_key b k) =
    (case contents_of st DATA_KEYSPACE (data_storage_key b k) of
       Some v \<Rightarrow> if expired_at C (unix_timestamp (cd_time C) now) v then None else Some v
     | None \<Rightarrow> None)"
proof (cases "contents_of st' DATA_KEYSPACE (data_storage_key b k) = contents_of st DATA_KEYSPACE (data_storage_key b k)")
  case True
  then show ?thesis
    using pending_Nil [OF sweep_complete [OF assms] data_storage_key_not_Nil]
    by (auto split: option.split)
next
  case False
  then show ?thesis
    using sweep_only_expired [OF assms(4) [unfolded sweep_keyspace_def]]
    unfolding only_expired_dropped_def by force
qed

text \<open>In terms of entries: expired is not live.\<close>

lemma expired_at_live:
  assumes "decode_entry C v = Inr en" and "valid now"
  shows "expired_at C (unix_timestamp (cd_time C) now) v \<longleftrightarrow> \<not> live (Some now) en"
proof -
  obtain c where c: "pc_dec C v = Inr c" using assms(1) by (auto simp: decode_entry_def split: sum.splits)
  then have ex: "decode_entry_expires_unix C v = Inr (ec_expires_unix c)"
    by (simp add: decode_entry_expires_unix_def)
  show ?thesis
  proof (cases "ec_expires_unix c")
    case None
    then show ?thesis using assms(1) c ex
      by (auto simp: expired_at_def has_expiry_def live_def decode_entry_def split: sum.splits)
  next
    case (Some ts)
    then obtain t where "from_unix_timestamp (cd_time C) ts = Inr t" and "se_expires_at en = Some t"
      using assms(1) c by (auto simp: decode_entry_def expires_at_from_unix_def split: sum.splits)
    then show ?thesis
      using tm.whole_second_passed [of ts t now] assms(2) ex Some
      by (auto simp: expired_at_def has_expiry_def live_def)
  qed
qed

lemma step_spares_live:
  assumes "gc_step S (unix_timestamp (cd_time C) now) g stats st = (flow, stats', st')" and "valid now"
    and "entry st b k = Some en" and "live (Some now) en"
  shows "entry st' b k = Some en"
proof -
  obtain v where v: "contents_of st DATA_KEYSPACE (data_storage_key b k) = Some v" "decode_entry C v = Inr en"
    using assms(3) by (auto simp: abs_entry_def decoded_def split: option.splits sum.splits)
  then have "\<not> expired_at C (unix_timestamp (cd_time C) now) v" using expired_at_live assms(2,4) by blast
  then have "contents_of st' DATA_KEYSPACE (data_storage_key b k) = Some v"
    using gc_step_only_expired [OF assms(1)] v(1)
    unfolding only_expired_dropped_def by (metis option.inject)
  then show ?thesis using v by (simp add: abs_entry_def decoded_def)
qed

lemma sweep_entries:
  assumes "reliable (sv_fjall S)" and "st_poisoned st = (\<lambda>_. False)" and "good st"
    and "sweep_keyspace S now st = (stats, st')" and "valid now"
  shows "entry st' b k =
    (case entry st b k of Some en \<Rightarrow> if live (Some now) en then Some en else None | None \<Rightarrow> None)"
  using sweep_exact [OF assms(1-4), of b k] expired_at_live [OF _ assms(5)]
  by (auto simp: abs_entry_def decoded_def split: option.splits sum.splits if_splits)

end

section \<open>Properties\<close>

lemma mem_reliable: "reliable (sv_fjall mem_env)"
  by (auto simp: reliable_def no_errors_def)

text \<open>
  C15. The sweeper never removes a live entry: whatever a step finds, in whatever state the
  other operations have left the store, and even when the backend fails in the middle, an
  entry that has not expired at the sweep's time is still there after the step.
\<close>

theorem gc_spares_live_entries:
  assumes "fjall_store S view valid" and "valid now"
    and "gc_step S (unix_timestamp (cd_time (sv_codec S)) now) g stats st = (flow, stats', st')"
    and "abs_entry (sv_codec S) (view (st_db st)) b k = Some en" and "live (Some now) en"
  shows "abs_entry (sv_codec S) (view (st_db st')) b k = Some en"
  using fjall_store.step_spares_live [OF assms(1,3,2,4,5)] .

lemma time_valid_small: "0 \<le> t \<Longrightarrow> t \<le> 1000000000000 \<Longrightarrow> time_valid t"
  by (auto simp: time_valid_def time_min_def time_max_def)

theorem gc_spares_live_entries_witness:
  "\<exists>st' st'' flow stats.
     fjall_set mem_env mem_store demo_bucket demo_key demo_value (Some 1500000000) = (Inr (), st')
     \<and> gc_step mem_env (unix_timestamp time_crate 0)
         (Inr (expiry_index_key 1 (data_storage_key demo_bucket demo_key), []))
         \<lparr>expiry_scanned = 0, expiry_removed = 0, keys_removed = 0\<rparr> st' = (flow, stats, st'')
     \<and> abs_entry wire_codec (mem_view (st_db st'')) demo_bucket demo_key
         = Some (truncated_entry demo_value (Some 1500000000))"
proof -
  let ?g = "Inr (expiry_index_key 1 (data_storage_key demo_bucket demo_key), [])"
  obtain st' where st': "fjall_set mem_env mem_store demo_bucket demo_key demo_value (Some 1500000000) = (Inr (), st')"
    using mem_set_total [OF mem_store_unpoisoned] by blast
  have en: "abs_entry wire_codec (mem_view (st_db st')) demo_bucket demo_key
      = Some (truncated_entry demo_value (Some 1500000000))"
    using mem_store.set_entry [OF st' demo_ok(2,3,1,1)] by simp
  obtain flow stats st'' where step: "gc_step mem_env (unix_timestamp time_crate 0) ?g
      \<lparr>expiry_scanned = 0, expiry_removed = 0, keys_removed = 0\<rparr> st' = (flow, stats, st'')"
    by (metis prod_cases3)
  have "live (Some 0) (truncated_entry demo_value (Some 1500000000))"
    by (simp add: live_def truncated_entry_def)
  then have "abs_entry wire_codec (mem_view (st_db st'')) demo_bucket demo_key
      = Some (truncated_entry demo_value (Some 1500000000))"
    using gc_spares_live_entries [OF mem_store.fjall_store_axioms time_valid_small, of 0 ?g _ st' flow stats st''] step en
    by (simp add: wire_codec_def)
  then show ?thesis using st' step by blast
qed

end
