(* ===== verification/Buckets.thy ===== *)
theory Buckets
  imports Gc
begin

text \<open>
  Bucket metadata: \<open>keydock-fjall/src/codec.rs\<close> (the stored form of a policy) and the
  \<open>BucketRepository\<close> half of \<open>store.rs\<close>.  Policies live in the keyspace \<open>meta\<close> under the
  bucket id; the key-value operations never touch it and the bucket operations never touch
  entries.  The port's contract is the locale \<open>bucket_repository\<close>.
\<close>

section \<open>The stored policy\<close>

record stored_bucket_policy =
  s_secret_key_hash :: "bytes option"
  s_read_key_hash :: "bytes option"
  s_write_key_hash :: "bytes option"
  s_signing_key :: "bytes option"
  s_signing_key_generation :: u64
  s_default_ttl_secs :: "u64 option"
  s_anonymous_access :: permission

definition stored_of_policy :: "bucket_policy \<Rightarrow> stored_bucket_policy" where
  "stored_of_policy p =
     \<lparr>s_secret_key_hash = secret_key_hash p, s_read_key_hash = read_key_hash p,
      s_write_key_hash = write_key_hash p, s_signing_key = map_option (\<lambda>k. k) (signing_key p),
      s_signing_key_generation = signing_key_generation p, s_default_ttl_secs = default_ttl_secs p,
      s_anonymous_access = anonymous_access p\<rparr>"

definition policy_of_stored :: "stored_bucket_policy \<Rightarrow> bucket_policy" where
  "policy_of_stored s =
     \<lparr>default_ttl_secs = s_default_ttl_secs s, anonymous_access = s_anonymous_access s,
      secret_key_hash = s_secret_key_hash s, read_key_hash = s_read_key_hash s,
      write_key_hash = s_write_key_hash s, signing_key = map_option (\<lambda>b. b) (s_signing_key s),
      signing_key_generation = s_signing_key_generation s\<rparr>"

text \<open>\<open>serde_json\<close> on the stored form: writing may fail, and reading inverts it.\<close>

record policy_json =
  pj_to_vec :: "stored_bucket_policy \<Rightarrow> string + bytes"
  pj_from_slice :: "bytes \<Rightarrow> string + stored_bucket_policy"

locale policy_json_api =
  fixes J :: policy_json
  assumes json_roundtrip: "pj_to_vec J s = Inr b \<Longrightarrow> pj_from_slice J b = Inr s"

datatype codec_error = SerdeJson string

definition encode_policy :: "policy_json \<Rightarrow> bucket_policy \<Rightarrow> codec_error + bytes" where
  "encode_policy J p = (case pj_to_vec J (stored_of_policy p) of Inl e \<Rightarrow> Inl (SerdeJson e) | Inr b \<Rightarrow> Inr b)"

definition decode_policy :: "policy_json \<Rightarrow> bytes \<Rightarrow> codec_error + bucket_policy" where
  "decode_policy J b =
     (case pj_from_slice J b of Inl e \<Rightarrow> Inl (SerdeJson e) | Inr s \<Rightarrow> Inr (policy_of_stored s))"

fun use_case_of_codec :: "codec_error \<Rightarrow> use_case_error" where
  "use_case_of_codec (SerdeJson m) = Storage m"

lemma policy_stored_inverse [simp]: "policy_of_stored (stored_of_policy p) = p"
  by (simp add: policy_of_stored_def stored_of_policy_def option.map_ident)

lemma stored_policy_inverse [simp]: "stored_of_policy (policy_of_stored s) = s"
  by (simp add: policy_of_stored_def stored_of_policy_def option.map_ident)

context policy_json_api
begin

lemma decode_encode_policy: "encode_policy J p = Inr b \<Longrightarrow> decode_policy J b = Inr p"
  by (auto simp: encode_policy_def decode_policy_def dest: json_roundtrip split: sum.splits)

end

section \<open>The bucket operations of the store\<close>

definition PING_KEY :: bytes where "PING_KEY = bs ''__ping__''"

text \<open>\<open>fail_ping\<close> is the switch of the feature \<open>testkit\<close>; production builds have it off.\<close>

definition fjall_ping_metadata :: "'db store_env \<Rightarrow> bool \<Rightarrow> 'db store \<Rightarrow> use_case_error + unit" where
  "fjall_ping_metadata S fail_ping st =
     (if fail_ping then Inl (Storage ''testkit ping failure'')
      else (case fj (fj_get (sv_fjall S) (st_db st) META_KEYSPACE PING_KEY) of
              Inl e \<Rightarrow> Inl e | Inr _ \<Rightarrow> Inr ()))"

definition fjall_get_policy ::
  "'db store_env \<Rightarrow> policy_json \<Rightarrow> 'db store \<Rightarrow> bucket_id \<Rightarrow> use_case_error + bucket_policy option" where
  "fjall_get_policy S J st b =
     (case fj (fj_get (sv_fjall S) (st_db st) META_KEYSPACE (as_str b)) of
        Inl e \<Rightarrow> Inl e
      | Inr (Some v) \<Rightarrow>
          (case decode_policy J v of Inl e \<Rightarrow> Inl (use_case_of_codec e) | Inr p \<Rightarrow> Inr (Some p))
      | Inr None \<Rightarrow> Inr None)"

definition fjall_create_bucket ::
  "'db store_env \<Rightarrow> policy_json \<Rightarrow> 'db store \<Rightarrow> bucket_id \<Rightarrow> bucket_policy \<Rightarrow> (use_case_error + unit) \<times> 'db store" where
  "fjall_create_bucket S J st b policy =
     (case encode_policy J policy of
        Inl e \<Rightarrow> (Inl (use_case_of_codec e), st)
      | Inr v \<Rightarrow>
          (let (r, db) = fj_insert (sv_fjall S) (st_db st) META_KEYSPACE (as_str b) v
           in (fj r, st\<lparr>st_db := db\<rparr>)))"

definition fjall_delete_bucket ::
  "'db store_env \<Rightarrow> 'db store \<Rightarrow> bucket_id \<Rightarrow> (use_case_error + unit) \<times> 'db store" where
  "fjall_delete_bucket S st b =
     (let (r, db) = fj_remove (sv_fjall S) (st_db st) META_KEYSPACE (as_str b)
      in (fj r, st\<lparr>st_db := db\<rparr>))"

section \<open>The port's contract\<close>

record 'st bucket_repo =
  br_ping :: "'st \<Rightarrow> use_case_error + unit"
  br_get_policy :: "'st \<Rightarrow> bucket_id \<Rightarrow> use_case_error + bucket_policy option"
  br_create :: "'st \<Rightarrow> bucket_id \<Rightarrow> bucket_policy \<Rightarrow> (use_case_error + unit) \<times> 'st"
  br_delete :: "'st \<Rightarrow> bucket_id \<Rightarrow> (use_case_error + unit) \<times> 'st"

locale bucket_repository =
  fixes B :: "'st bucket_repo"
    and policy_of :: "'st \<Rightarrow> bucket_id \<Rightarrow> bucket_policy option"
    and entries :: "'st \<Rightarrow> bucket_id \<Rightarrow> key \<Rightarrow> stored_entry option"
  assumes get_policy_reads: "br_get_policy B st b = Inr p \<Longrightarrow> p = policy_of st b"
    and create_writes: "br_create B st b pol = (Inr u, st') \<Longrightarrow> policy_of st' = (policy_of st)(b := Some pol)"
    and create_others: "br_create B st b pol = (r, st') \<Longrightarrow> b' \<noteq> b \<Longrightarrow> policy_of st' b' = policy_of st b'"
    and create_entries: "br_create B st b pol = (r, st') \<Longrightarrow> entries st' = entries st"
    and delete_removes: "br_delete B st b = (Inr u, st') \<Longrightarrow> policy_of st' = (policy_of st)(b := None)"
    and delete_others: "br_delete B st b = (r, st') \<Longrightarrow> b' \<noteq> b \<Longrightarrow> policy_of st' b' = policy_of st b'"
    and delete_entries: "br_delete B st b = (r, st') \<Longrightarrow> entries st' = entries st"
begin

lemma create_then_get:
  "br_create B st b pol = (Inr u, st') \<Longrightarrow> br_get_policy B st' b' = Inr p \<Longrightarrow>
     p = (if b' = b then Some pol else policy_of st b')"
  using get_policy_reads create_writes by fastforce

lemma delete_then_get:
  "br_delete B st b = (Inr u, st') \<Longrightarrow> br_get_policy B st' b = Inr p \<Longrightarrow> p = None"
  using get_policy_reads delete_removes by fastforce

end

definition fjall_buckets :: "'db store_env \<Rightarrow> policy_json \<Rightarrow> 'db store bucket_repo" where
  "fjall_buckets S J =
     \<lparr>br_ping = fjall_ping_metadata S False, br_get_policy = fjall_get_policy S J,
      br_create = fjall_create_bucket S J, br_delete = fjall_delete_bucket S\<rparr>"

lemma fjall_buckets_simps [simp]:
  "br_ping (fjall_buckets S J) = fjall_ping_metadata S False"
  "br_get_policy (fjall_buckets S J) = fjall_get_policy S J"
  "br_create (fjall_buckets S J) = fjall_create_bucket S J"
  "br_delete (fjall_buckets S J) = fjall_delete_bucket S"
  by (simp_all add: fjall_buckets_def)

definition abs_policy :: "policy_json \<Rightarrow> contents \<Rightarrow> bucket_id \<Rightarrow> bucket_policy option" where
  "abs_policy J c b =
     (case c META_KEYSPACE (as_str b) of
        None \<Rightarrow> None
      | Some v \<Rightarrow> (case decode_policy J v of Inl _ \<Rightarrow> None | Inr p \<Rightarrow> Some p))"

lemma as_str_eq_iff [simp]: "as_str b = as_str b' \<longleftrightarrow> b = b'"
  by (cases b; cases b') simp

locale fjall_backend = fjall_store + js: policy_json_api J for J
begin

lemma create_cases:
  assumes "fjall_create_bucket S J st b pol = (r, st')"
  shows "contents_of st' = contents_of st \<and> (\<exists>e. r = Inl e) \<or>
    (\<exists>v. encode_policy J pol = Inr v \<and> contents_of st' = apply_bop (BInsert META_KEYSPACE (as_str b) v) (contents_of st))"
proof (cases "encode_policy J pol")
  case (Inr v)
  obtain q db' where ins: "fj_insert (sv_fjall S) (st_db st) META_KEYSPACE (as_str b) v = (q, db')" by fastforce
  then have "r = fj q" "st' = st\<lparr>st_db := db'\<rparr>" using assms Inr by (simp_all add: fjall_create_bucket_def)
  then show ?thesis using db.insert_cases [OF ins] Inr by (auto simp: fj_def)
qed (use assms in \<open>auto simp: fjall_create_bucket_def\<close>)

lemma delete_bucket_cases:
  assumes "fjall_delete_bucket S st b = (r, st')"
  shows "contents_of st' = contents_of st \<and> (\<exists>e. r = Inl e) \<or>
    contents_of st' = apply_bop (BRemove META_KEYSPACE (as_str b)) (contents_of st)"
proof -
  obtain q db' where rm: "fj_remove (sv_fjall S) (st_db st) META_KEYSPACE (as_str b) = (q, db')" by fastforce
  then have "r = fj q" "st' = st\<lparr>st_db := db'\<rparr>" using assms by (simp_all add: fjall_delete_bucket_def)
  then show ?thesis using db.remove_cases [OF rm] by (auto simp: fj_def)
qed

lemma get_policy_abs: "fjall_get_policy S J st b = Inr p \<Longrightarrow> p = abs_policy J (contents_of st) b"
  by (auto simp: fjall_get_policy_def abs_policy_def dest!: db.get_Inr split: sum.splits option.splits)

lemma abs_policy_insert:
  "encode_policy J pol = Inr v \<Longrightarrow>
     abs_policy J (apply_bop (BInsert META_KEYSPACE (as_str b) v) c) = (abs_policy J c)(b := Some pol)"
  by (auto simp: abs_policy_def fun_eq_iff js.decode_encode_policy)

lemma abs_policy_remove:
  "abs_policy J (apply_bop (BRemove META_KEYSPACE (as_str b)) c) = (abs_policy J c)(b := None)"
  by (auto simp: abs_policy_def fun_eq_iff)

lemma abs_entry_meta:
  "abs_entry C (apply_bop (BInsert META_KEYSPACE x v) c) = abs_entry C c"
  "abs_entry C (apply_bop (BRemove META_KEYSPACE x) c) = abs_entry C c"
  by (simp_all add: abs_entry_def fun_eq_iff)

end

sublocale fjall_backend \<subseteq> bk: bucket_repository "fjall_buckets S J"
  "\<lambda>st. abs_policy J (view (st_db st))" "\<lambda>st. abs_entry (sv_codec S) (view (st_db st))"
proof (unfold_locales, unfold fjall_buckets_simps)
  show "p = abs_policy J (view (st_db st)) b" if "fjall_get_policy S J st b = Inr p" for st b p
    using that by (rule get_policy_abs)
next
  fix st st' b pol u assume "fjall_create_bucket S J st b pol = (Inr u, st')"
  then show "abs_policy J (view (st_db st')) = (abs_policy J (view (st_db st)))(b := Some pol)"
    using create_cases abs_policy_insert by (metis Inl_Inr_False)
next
  fix st st' b b' pol r assume "fjall_create_bucket S J st b pol = (r, st')" "b' \<noteq> b"
  then show "abs_policy J (view (st_db st')) b' = abs_policy J (view (st_db st)) b'"
    using create_cases abs_policy_insert by (metis fun_upd_other)
next
  fix st st' b pol r assume "fjall_create_bucket S J st b pol = (r, st')"
  then show "abs_entry (sv_codec S) (view (st_db st')) = abs_entry (sv_codec S) (view (st_db st))"
    using create_cases abs_entry_meta(1) by metis
next
  fix st st' b u assume "fjall_delete_bucket S st b = (Inr u, st')"
  then show "abs_policy J (view (st_db st')) = (abs_policy J (view (st_db st)))(b := None)"
    using delete_bucket_cases abs_policy_remove by (metis Inl_Inr_False)
next
  fix st st' b b' r assume "fjall_delete_bucket S st b = (r, st')" "b' \<noteq> b"
  then show "abs_policy J (view (st_db st')) b' = abs_policy J (view (st_db st)) b'"
    using delete_bucket_cases abs_policy_remove by (metis fun_upd_other)
next
  fix st st' b r assume "fjall_delete_bucket S st b = (r, st')"
  then show "abs_entry (sv_codec S) (view (st_db st')) = abs_entry (sv_codec S) (view (st_db st))"
    using delete_bucket_cases abs_entry_meta(2) by metis
qed

context fjall_backend
begin

text \<open>The two halves of the store do not touch each other's keyspaces.\<close>

lemma write_ops_meta [simp]: "apply_bops (write_ops C sk raw ex) c META_KEYSPACE = c META_KEYSPACE"
  by (simp add: write_ops_def split: option.splits)

lemma item_ops_meta: "apply_bops (item_ops it) c META_KEYSPACE = c META_KEYSPACE"
  by (cases it) (simp_all split: option.splits)

lemma items_ops_meta: "apply_bops (concat (map item_ops its)) c META_KEYSPACE = c META_KEYSPACE"
  by (induction its arbitrary: c) (simp_all add: apply_bops_append item_ops_meta)

lemma put_entry_meta:
  "put_entry S st sk raw ex = (r, st') \<Longrightarrow> contents_of st' META_KEYSPACE = contents_of st META_KEYSPACE"
  using put_entry_contents(1) write_ops_meta by metis

lemma client_step_meta:
  assumes "client_step S st st'"
  shows "contents_of st' META_KEYSPACE = contents_of st META_KEYSPACE"
  using assms
proof cases
  case (set b k v ex r)
  then show ?thesis using set_cases put_entry_meta by metis
next
  case (delete b k r)
  then show ?thesis using delete_contents(1) [OF delete] by auto
next
  case (increment now b k op ex r)
  then show ?thesis using put_entry_meta by (cases rule: increment_cases) auto
next
  case (batch b ops r)
  then show ?thesis by (cases rule: apply_batch_cases) (auto simp: items_ops_meta)
qed

lemma bucket_ops_keep_index:
  "fjall_create_bucket S J st b pol = (r, st') \<Longrightarrow> good st \<Longrightarrow> good st'"
  "fjall_delete_bucket S st b = (r', st') \<Longrightarrow> good st \<Longrightarrow> good st'"
  using create_cases delete_bucket_cases by (fastforce simp: index_inv_def)+

lemma is_bucket_repository:
  "bucket_repository (fjall_buckets S J) (\<lambda>st. abs_policy J (view (st_db st)))
     (\<lambda>st. abs_entry (sv_codec S) (view (st_db st)))"
  by (rule bk.bucket_repository_axioms)

end

section \<open>A concrete instance\<close>

definition put_policy :: "stored_bucket_policy \<Rightarrow> bytes" where
  "put_policy s =
     put_option put_bytes (s_secret_key_hash s) @ put_option put_bytes (s_read_key_hash s) @
     put_option put_bytes (s_write_key_hash s) @ put_option put_bytes (s_signing_key s) @
     put_int (uint (s_signing_key_generation s)) @
     put_option put_int (map_option uint (s_default_ttl_secs s)) @ put_permission (s_anonymous_access s)"

definition get_policy_fields :: "bytes \<Rightarrow> stored_bucket_policy option" where
  "get_policy_fields s =
     do { (sk, s) \<leftarrow> get_option get_bytes s; (r, s) \<leftarrow> get_option get_bytes s; (w, s) \<leftarrow> get_option get_bytes s;
          (k, s) \<leftarrow> get_option get_bytes s; (g, s) \<leftarrow> get_int s; (t, s) \<leftarrow> get_option get_int s;
          (a, s) \<leftarrow> get_permission s;
          Some \<lparr>s_secret_key_hash = sk, s_read_key_hash = r, s_write_key_hash = w, s_signing_key = k,
            s_signing_key_generation = of_int g, s_default_ttl_secs = map_option of_int t, s_anonymous_access = a\<rparr> }"

definition wire_policy :: policy_json where
  "wire_policy =
     \<lparr>pj_to_vec = (\<lambda>s. Inr (put_policy s)),
      pj_from_slice = (\<lambda>b. case get_policy_fields b of None \<Rightarrow> Inl ''invalid'' | Some s \<Rightarrow> Inr s)\<rparr>"

lemma policy_fields: "get_policy_fields (put_policy s) = Some s"
proof -
  have "get_permission (put_permission (s_anonymous_access s)) = Some (s_anonymous_access s, [])"
    using get_put(4) [of "s_anonymous_access s" "[]"] by simp
  then show ?thesis
    by (simp add: get_policy_fields_def put_policy_def option.map_comp o_def option.map_ident)
qed

interpretation wire_policy: policy_json_api wire_policy
  by unfold_locales (auto simp: wire_policy_def policy_fields)

interpretation mem_backend: fjall_backend mem_env mem_view time_valid wire_policy
  by (simp add: fjall_backend_def mem_store.fjall_store_axioms wire_policy.policy_json_api_axioms)

lemma mem_create_total: "\<exists>st'. fjall_create_bucket mem_env wire_policy st b pol = (Inr (), st')"
  by (simp add: fjall_create_bucket_def encode_policy_def wire_policy_def)

section \<open>Properties\<close>

text \<open>
  A bucket's policy is stored faithfully: after a successful creation or update the
  policy reads back unchanged, every other bucket keeps its policy, and no entry changes.
\<close>

lemma policy_write_then_read:
  assumes "fjall_backend S view valid J" and "fjall_create_bucket S J st b pol = (Inr u, st')"
    and "fjall_get_policy S J st' b' = Inr p"
  shows "p = (if b' = b then Some pol else abs_policy J (view (st_db st)) b')
    \<and> abs_entry (sv_codec S) (view (st_db st')) = abs_entry (sv_codec S) (view (st_db st))"
  using bucket_repository.create_then_get [OF fjall_backend.is_bucket_repository [OF assms(1)]]
    bucket_repository.create_entries [OF fjall_backend.is_bucket_repository [OF assms(1)]] assms(2,3)
  by fastforce

definition demo_bucket_policy :: bucket_policy where
  "demo_bucket_policy = \<lparr>default_ttl_secs = Some 60, anonymous_access = NONE, secret_key_hash = Some [1, 2],
     read_key_hash = None, write_key_hash = Some [3], signing_key = Some [9], signing_key_generation = 7\<rparr>"

lemma policy_write_then_read_example:
  "\<exists>st'. fjall_create_bucket mem_env wire_policy mem_store demo_bucket demo_bucket_policy = (Inr (), st')
     \<and> fjall_get_policy mem_env wire_policy st' demo_bucket = Inr (Some demo_bucket_policy)"
proof -
  obtain st' where st': "fjall_create_bucket mem_env wire_policy mem_store demo_bucket demo_bucket_policy = (Inr (), st')"
    using mem_create_total by blast
  have "abs_policy wire_policy (mem_view (st_db st')) demo_bucket = Some demo_bucket_policy"
    using mem_backend.bk.create_writes [of mem_store demo_bucket demo_bucket_policy "()" st'] st' by simp
  then obtain p where p: "fjall_get_policy mem_env wire_policy st' demo_bucket = Inr p"
    by (auto simp: fjall_get_policy_def abs_policy_def mem_view_def split: option.splits sum.splits)
  from policy_write_then_read [OF mem_backend.fjall_backend_axioms st' p] st' p
  show ?thesis by simp
qed

text \<open>
  Metadata and data are independent: no key operation, transaction or step of the
  sweeper changes any bucket's policy, whether it succeeds or fails, and the bucket
  operations keep the expiry index complete.
\<close>

lemma metadata_independent_of_data:
  assumes "fjall_backend S view valid J"
  shows "(client_step S st st' \<or> gc_step S now_ts g stats st = (flow, stats', st')
       \<longrightarrow> abs_policy J (view (st_db st')) = abs_policy J (view (st_db st)))
    \<and> (index_inv (sv_codec S) (view (st_db st)) \<longrightarrow>
        index_inv (sv_codec S) (view (st_db (snd (fjall_create_bucket S J st b pol))))
        \<and> index_inv (sv_codec S) (view (st_db (snd (fjall_delete_bucket S st b)))))"
proof -
  have fs: "fjall_store S view valid" using assms by (simp add: fjall_backend_def)
  have "view (st_db st') META_KEYSPACE = view (st_db st) META_KEYSPACE"
    if "client_step S st st' \<or> gc_step S now_ts g stats st = (flow, stats', st')"
    using that fjall_backend.client_step_meta [OF assms] fjall_store.gc_step_only_expired [OF fs]
    unfolding only_expired_dropped_def by blast
  moreover have "index_inv (sv_codec S) (view (st_db (snd (fjall_create_bucket S J st b pol))))"
    and "index_inv (sv_codec S) (view (st_db (snd (fjall_delete_bucket S st b))))"
    if "index_inv (sv_codec S) (view (st_db st))"
    using that fjall_backend.bucket_ops_keep_index [OF assms] by (metis prod.collapse)+
  ultimately show ?thesis by (auto simp: abs_policy_def fun_eq_iff)
qed

lemma metadata_independent_of_data_example:
  "\<exists>st'. client_step mem_env mem_store st' \<and>
     abs_policy wire_policy (mem_view (st_db st')) = abs_policy wire_policy (mem_view (st_db mem_store))"
proof -
  obtain st' where "fjall_set mem_env mem_store demo_bucket demo_key demo_value None = (Inr (), st')"
    using mem_set_total [OF mem_store_unpoisoned] by blast
  then have "client_step mem_env mem_store st'" by (rule client_step.set)
  with metadata_independent_of_data [OF mem_backend.fjall_backend_axioms] show ?thesis by blast
qed

end
