(* ===== verification/Auth.thy ===== *)
theory Auth
  imports Backend
begin

text \<open>
  \<open>keydock-usecase/src/crypto.rs\<close>, \<open>ct.rs\<close>, \<open>tokens.rs\<close> and \<open>auth.rs\<close>: keyed hashes of
  credentials, signed temporary tokens, and the resolution of a presented credential to an
  identity.  HMAC, base64, the constant-time comparison and the JSON form of the claims are
  third-party code, held by \<open>crypto_ops\<close>; what the code relies on is the locale
  \<open>crypto_api\<close>.
\<close>

section \<open>Third-party code\<close>

record crypto_ops =
  cr_hmac :: "bytes \<Rightarrow> bytes \<Rightarrow> bytes option"
  cr_ct_eq :: "bytes \<Rightarrow> bytes \<Rightarrow> bool"
  cr_b64_encode :: "bytes \<Rightarrow> str"
  cr_b64_decode :: "str \<Rightarrow> bytes option"
  cr_claims_to_vec :: "claims \<Rightarrow> bytes option"
  cr_claims_from_slice :: "bytes \<Rightarrow> claims option"

abbreviation DOT :: byte where "DOT \<equiv> 0x2E"

text \<open>
  Base64url text decodes to what was encoded and has no dot; the JSON of claims parses back;
  slices compare equal in constant time exactly when they are equal.
\<close>

locale crypto_api =
  fixes K :: crypto_ops
  assumes ct_eq: "cr_ct_eq K a b \<longleftrightarrow> a = b"
    and b64_roundtrip: "cr_b64_decode K (cr_b64_encode K x) = Some x"
    and b64_no_dot: "DOT \<notin> set (cr_b64_encode K x)"
    and claims_roundtrip: "cr_claims_to_vec K c = Some j \<Longrightarrow> cr_claims_from_slice K j = Some c"

section \<open>crypto.rs and ct.rs\<close>

datatype hmac_error = InvalidKey

definition hmac_sha256 :: "crypto_ops \<Rightarrow> bytes \<Rightarrow> bytes \<Rightarrow> hmac_error + bytes" where
  "hmac_sha256 K key data = (case cr_hmac K key data of None \<Rightarrow> Inl InvalidKey | Some mac \<Rightarrow> Inr mac)"

definition eq_bytes :: "crypto_ops \<Rightarrow> bytes \<Rightarrow> bytes \<Rightarrow> bool" where
  "eq_bytes K a b = cr_ct_eq K a b"

section \<open>tokens.rs\<close>

definition mint :: "crypto_ops \<Rightarrow> claims \<Rightarrow> bytes \<Rightarrow> token_error + str" where
  "mint K claims key =
     (case cr_claims_to_vec K claims of
        None \<Rightarrow> Inl Serialize
      | Some json \<Rightarrow>
          (case hmac_sha256 K key json of
             Inl _ \<Rightarrow> Inl InvalidFormat
           | Inr sig \<Rightarrow> Inr (cr_b64_encode K json @ [DOT] @ cr_b64_encode K sig)))"

definition verify :: "crypto_ops \<Rightarrow> str \<Rightarrow> bucket_policy \<Rightarrow> bucket_id \<Rightarrow> instant \<Rightarrow> token_error + claims" where
  "verify K raw policy bucket now =
     (case signing_key policy of
        None \<Rightarrow> Inl NoSigningKey
      | Some key \<Rightarrow>
          (case split_once DOT raw of
             None \<Rightarrow> Inl InvalidFormat
           | Some (payload_b64, sig_b64) \<Rightarrow>
               (case cr_b64_decode K payload_b64 of
                  None \<Rightarrow> Inl InvalidFormat
                | Some json \<Rightarrow>
                    (case cr_b64_decode K sig_b64 of
                       None \<Rightarrow> Inl InvalidFormat
                     | Some expected_sig \<Rightarrow>
                         (case hmac_sha256 K key json of
                            Inl _ \<Rightarrow> Inl InvalidFormat
                          | Inr computed \<Rightarrow>
                              if length computed \<noteq> length expected_sig \<or> \<not> eq_bytes K computed expected_sig
                              then Inl InvalidSignature
                              else
                                (case cr_claims_from_slice K json of
                                   None \<Rightarrow> Inl InvalidFormat
                                 | Some claims \<Rightarrow>
                                     if c_exp claims \<le> now then Inl Expired
                                     else if c_bucket claims \<noteq> bucket then Inl BucketMismatch
                                     else if c_bucket_generation claims \<noteq> signing_key_generation policy
                                     then Inl GenerationMismatch
                                     else Inr claims))))))"

section \<open>auth.rs\<close>

definition hash_credential :: "crypto_ops \<Rightarrow> str \<Rightarrow> bytes \<Rightarrow> auth_error + bytes" where
  "hash_credential K raw root_key =
     (case hmac_sha256 K root_key raw of Inl _ \<Rightarrow> Inl InvalidKeyMaterial | Inr h \<Rightarrow> Inr h)"

definition verify_credential :: "crypto_ops \<Rightarrow> str \<Rightarrow> bytes \<Rightarrow> bytes \<Rightarrow> bool" where
  "verify_credential K presented stored_hash root_key =
     (case hash_credential K presented root_key of
        Inl _ \<Rightarrow> False
      | Inr computed \<Rightarrow> length computed = length stored_hash \<and> eq_bytes K computed stored_hash)"

text \<open>A configured key hash that the credential matches.\<close>

definition matches :: "crypto_ops \<Rightarrow> bytes \<Rightarrow> bytes option \<Rightarrow> str \<Rightarrow> bool" where
  "matches K root_key h cred = (case h of None \<Rightarrow> False | Some h \<Rightarrow> verify_credential K cred h root_key)"

definition resolve ::
  "crypto_ops \<Rightarrow> str option \<Rightarrow> bucket_policy \<Rightarrow> bucket_id \<Rightarrow> bytes \<Rightarrow> instant \<Rightarrow> auth_error + resolved_identity" where
  "resolve K raw policy bucket root_key now =
     (case raw of
        None \<Rightarrow> Inr Anonymous
      | Some cred \<Rightarrow>
          if matches K root_key (secret_key_hash policy) cred then Inr Admin
          else if matches K root_key (write_key_hash policy) cred then Inr (Scoped WRITE_ONLY [])
          else if matches K root_key (read_key_hash policy) cred then Inr (Scoped READ_ENUMERATE [])
          else
            (case verify K cred policy bucket now of
               Inl _ \<Rightarrow> Inl InvalidCredential
             | Inr claims \<Rightarrow> Inr (Scoped (c_permissions claims) (c_allowed_prefix claims))))"

section \<open>What a token proves\<close>

text \<open>
  The text of a token that carries the claims under the key: it decodes to their JSON and to
  its keyed hash.
\<close>

definition signed_token :: "crypto_ops \<Rightarrow> bytes \<Rightarrow> claims \<Rightarrow> str \<Rightarrow> bool" where
  "signed_token K key c raw \<longleftrightarrow>
     (\<exists>p s json. raw = p @ DOT # s \<and> DOT \<notin> set p \<and> cr_b64_decode K p = Some json
        \<and> cr_claims_from_slice K json = Some c \<and> cr_b64_decode K s = cr_hmac K key json
        \<and> cr_hmac K key json \<noteq> None)"

definition token_current :: "bucket_policy \<Rightarrow> bucket_id \<Rightarrow> instant \<Rightarrow> claims \<Rightarrow> bool" where
  "token_current policy bucket now c \<longleftrightarrow>
     now < c_exp c \<and> c_bucket c = bucket \<and> c_bucket_generation c = signing_key_generation policy"

context crypto_api
begin

lemma eq_bytes_iff [simp]: "eq_bytes K a b \<longleftrightarrow> a = b"
  by (simp add: eq_bytes_def ct_eq)

lemma mint_signed:
  assumes "mint K c key = Inr raw"
  shows "signed_token K key c raw"
proof -
  obtain j m where j: "cr_claims_to_vec K c = Some j" "cr_hmac K key j = Some m"
    and raw: "raw = cr_b64_encode K j @ DOT # cr_b64_encode K m"
    using assms by (auto simp: mint_def hmac_sha256_def split: option.splits sum.splits)
  show ?thesis
    unfolding signed_token_def
    by (rule exI [of _ "cr_b64_encode K j"], rule exI [of _ "cr_b64_encode K m"], rule exI [of _ j])
      (use j raw b64_roundtrip b64_no_dot claims_roundtrip in auto)
qed

lemma signed_split:
  assumes "signed_token K key c raw"
  obtains p s json m where "split_once DOT raw = Some (p, s)" and "cr_b64_decode K p = Some json"
    and "cr_claims_from_slice K json = Some c" and "cr_hmac K key json = Some m" and "cr_b64_decode K s = Some m"
  using assms unfolding signed_token_def by (metis option.exhaust split_once_Some_iff)

lemma verify_signed:
  assumes "signing_key policy = Some key" and "signed_token K key c raw"
  shows "verify K raw policy bucket now =
    (if c_exp c \<le> now then Inl Expired
     else if c_bucket c \<noteq> bucket then Inl BucketMismatch
     else if c_bucket_generation c \<noteq> signing_key_generation policy then Inl GenerationMismatch
     else Inr c)"
proof -
  obtain p s json m where "split_once DOT raw = Some (p, s)" "cr_b64_decode K p = Some json"
    "cr_claims_from_slice K json = Some c" "cr_hmac K key json = Some m" "cr_b64_decode K s = Some m"
    by (rule signed_split [OF assms(2)])
  then show ?thesis using assms(1) by (simp add: verify_def hmac_sha256_def)
qed

lemma verify_complete:
  "signing_key policy = Some key \<Longrightarrow> signed_token K key c raw \<Longrightarrow> token_current policy bucket now c \<Longrightarrow>
     verify K raw policy bucket now = Inr c"
  by (simp add: verify_signed token_current_def)

lemma verify_sound:
  assumes "verify K raw policy bucket now = Inr c"
  shows "\<exists>key. signing_key policy = Some key \<and> signed_token K key c raw \<and> token_current policy bucket now c"
  using assms unfolding signed_token_def
  by (fastforce simp: verify_def hmac_sha256_def token_current_def split_once_Some_iff
      split: option.splits sum.splits if_splits)

lemma verify_iff:
  "verify K raw policy bucket now = Inr c \<longleftrightarrow>
     (\<exists>key. signing_key policy = Some key \<and> signed_token K key c raw \<and> token_current policy bucket now c)"
  using verify_sound verify_complete by blast

lemma matches_iff:
  "matches K rk h cred \<longleftrightarrow> (\<exists>m. h = Some m \<and> cr_hmac K rk cred = Some m)"
  by (auto simp: matches_def verify_credential_def hash_credential_def hmac_sha256_def split: option.splits)

end

section \<open>A concrete instance\<close>

text \<open>
  Two letters per byte for base64, the key before the data for HMAC and length-prefixed
  fields for JSON: enough to satisfy the laws and to evaluate the functions.
\<close>

definition put_claims :: "claims \<Rightarrow> bytes" where
  "put_claims c =
     put_int (uint (c_version c)) @ put_bytes (as_str (c_bucket c)) @ put_int (uint (c_bucket_generation c)) @
     put_bytes (c_allowed_prefix c) @ put_permission (c_permissions c) @ put_int (c_iat c) @ put_int (c_exp c)"

definition get_claims :: "bytes \<Rightarrow> claims option" where
  "get_claims s =
     do { (v, s) \<leftarrow> get_int s; (b, s) \<leftarrow> get_bytes s; (g, s) \<leftarrow> get_int s; (p, s) \<leftarrow> get_bytes s;
          (m, s) \<leftarrow> get_permission s; (i, s) \<leftarrow> get_int s; (e, s) \<leftarrow> get_int s;
          Some \<lparr>c_version = of_int v, c_bucket = BucketId b, c_bucket_generation = of_int g,
            c_allowed_prefix = p, c_permissions = m, c_iat = i, c_exp = e\<rparr> }"

definition demo_crypto :: crypto_ops where
  "demo_crypto =
     \<lparr>cr_hmac = (\<lambda>k d. Some (k @ d)), cr_ct_eq = (=), cr_b64_encode = nibble_enc, cr_b64_decode = nibble_dec,
      cr_claims_to_vec = (\<lambda>c. Some (put_claims c)), cr_claims_from_slice = get_claims\<rparr>"

lemma nibble_no_dot: "DOT \<notin> set (nibble_enc b)"
proof -
  have "of_nat (65 + n) \<noteq> DOT" if "n < 16" for n
  proof
    assume "of_nat (65 + n) = DOT"
    then have "unat (of_nat (65 + n) :: byte) = unat DOT" by (simp only:)
    then have "65 + n = 46" using that unat_of_nat_byte [of "65 + n"] by (simp only:) simp
    then show False by simp
  qed
  moreover have "unat x div 16 < 16" for x :: byte using unsigned_less [of x, where ?'a = nat] by simp
  ultimately show ?thesis by (fastforce simp: nibble_enc_def simp del: of_nat_add)
qed

lemma claims_fields: "get_claims (put_claims c) = Some c"
proof -
  have "get_int (put_int (c_exp c)) = Some (c_exp c, [])" using get_put(2) [of "c_exp c" "[]"] by simp
  then show ?thesis by (simp add: get_claims_def put_claims_def)
qed

interpretation demo_crypto: crypto_api demo_crypto
  by unfold_locales (auto simp: demo_crypto_def nibble_roundtrip nibble_no_dot claims_fields)

section \<open>Properties\<close>

text \<open>
  C20. A token is accepted exactly when it is genuine and current: its two parts decode, the
  second is the keyed hash of the first under the bucket's signing key, and its claims name
  this bucket, the policy's current key generation, and an instant still to come.
\<close>

theorem token_accepted_iff_genuine_and_current:
  assumes "crypto_api K"
  shows "verify K raw policy bucket now = Inr c \<longleftrightarrow>
    (\<exists>key. signing_key policy = Some key \<and> signed_token K key c raw \<and> token_current policy bucket now c)"
  by (rule crypto_api.verify_iff [OF assms])

definition demo_policy :: bucket_policy where
  "demo_policy = \<lparr>default_ttl_secs = Some 60, anonymous_access = NONE, secret_key_hash = Some (bs ''root!admin''),
     read_key_hash = None, write_key_hash = Some (bs ''root!writer''), signing_key = Some (bs ''s3cr3t''),
     signing_key_generation = 1\<rparr>"

definition demo_claims :: claims where
  "demo_claims = \<lparr>c_version = 1, c_bucket = BucketId (bs ''b1''), c_bucket_generation = 1,
     c_allowed_prefix = bs ''user:'', c_permissions = READ_ONLY, c_iat = 0, c_exp = 5000000000\<rparr>"

definition demo_token :: str where
  "demo_token = nibble_enc (put_claims demo_claims) @ [DOT] @ nibble_enc (bs ''s3cr3t'' @ put_claims demo_claims)"

lemma demo_mint: "mint demo_crypto demo_claims (bs ''s3cr3t'') = Inr demo_token"
  by (simp add: mint_def hmac_sha256_def demo_crypto_def demo_token_def)

lemma demo_current: "token_current demo_policy (BucketId (bs ''b1'')) 1000000000 demo_claims"
  by (simp add: token_current_def demo_policy_def demo_claims_def)

theorem token_accepted_iff_genuine_and_current_witness:
  "verify demo_crypto demo_token demo_policy (BucketId (bs ''b1'')) 1000000000 = Inr demo_claims"
proof -
  have "signed_token demo_crypto (bs ''s3cr3t'') demo_claims demo_token"
    by (rule demo_crypto.mint_signed [OF demo_mint])
  moreover have "signing_key demo_policy = Some (bs ''s3cr3t'')" by (simp add: demo_policy_def)
  ultimately show ?thesis
    using token_accepted_iff_genuine_and_current [OF demo_crypto.crypto_api_axioms] demo_current by blast
qed

text \<open>
  C21. A minted token is good for its bucket, its key generation and its time, and for
  nothing else: checked under the key that signed it, it yields its claims or the precise
  reason why it is refused, so that a new key generation revokes every older token.
\<close>

theorem minted_token_outcome:
  assumes "crypto_api K" and "mint K c key = Inr raw" and "signing_key policy = Some key"
  shows "verify K raw policy bucket now =
    (if c_exp c \<le> now then Inl Expired
     else if c_bucket c \<noteq> bucket then Inl BucketMismatch
     else if c_bucket_generation c \<noteq> signing_key_generation policy then Inl GenerationMismatch
     else Inr c)"
  by (rule crypto_api.verify_signed [OF assms(1,3) crypto_api.mint_signed [OF assms(1,2)]])

theorem minted_token_outcome_witness:
  "mint demo_crypto demo_claims (bs ''s3cr3t'') = Inr demo_token
     \<and> verify demo_crypto demo_token (demo_policy\<lparr>signing_key_generation := 2\<rparr>) (BucketId (bs ''b1'')) 0
         = Inl GenerationMismatch"
  using minted_token_outcome [OF demo_crypto.crypto_api_axioms demo_mint,
      of "demo_policy\<lparr>signing_key_generation := 2\<rparr>" "BucketId (bs ''b1'')" 0] demo_mint
  by (simp add: demo_policy_def demo_claims_def)

text \<open>
  C22. Every identity has its grounds: administration needs the secret key, an unrestricted
  scope the write or the read key with exactly that key's permissions, and any other scope a
  genuine, current token that grants it; no credential at all is anonymous, and a credential
  without grounds is refused.
\<close>

theorem identity_has_grounds:
  assumes "crypto_api K"
  shows "case resolve K raw policy bucket rk now of
      Inl e \<Rightarrow> e = InvalidCredential \<and> raw \<noteq> None
    | Inr Anonymous \<Rightarrow> raw = None
    | Inr Admin \<Rightarrow> \<exists>cred h. raw = Some cred \<and> secret_key_hash policy = Some h \<and> cr_hmac K rk cred = Some h
    | Inr (Scoped perms pre) \<Rightarrow> \<exists>cred. raw = Some cred \<and>
        ((\<exists>h. write_key_hash policy = Some h \<and> cr_hmac K rk cred = Some h) \<and> perms = WRITE_ONLY \<and> pre = []
         \<or> (\<exists>h. read_key_hash policy = Some h \<and> cr_hmac K rk cred = Some h) \<and> perms = READ_ENUMERATE \<and> pre = []
         \<or> (\<exists>key c. signing_key policy = Some key \<and> signed_token K key c cred
              \<and> token_current policy bucket now c \<and> perms = c_permissions c \<and> pre = c_allowed_prefix c))"
proof (cases raw)
  case (Some cred)
  consider (secret) "matches K rk (secret_key_hash policy) cred"
    | (other) "\<not> matches K rk (secret_key_hash policy) cred"
    by blast
  then show ?thesis
  proof cases
    case secret
    then show ?thesis using Some crypto_api.matches_iff [OF assms] by (auto simp: resolve_def)
  next
    case other
    then show ?thesis
      using Some crypto_api.verify_sound [OF assms, of cred policy bucket now] crypto_api.matches_iff [OF assms]
      by (cases "verify K cred policy bucket now") (auto simp: resolve_def)
  qed
qed (simp add: resolve_def)

theorem identity_has_grounds_witness:
  "resolve demo_crypto (Some (bs ''!admin'')) demo_policy (BucketId (bs ''b1'')) (bs ''root'') 0 = Inr Admin
     \<and> (\<exists>cred h. Some (bs ''!admin'') = Some cred \<and> secret_key_hash demo_policy = Some h
           \<and> cr_hmac demo_crypto (bs ''root'') cred = Some h)"
proof -
  have "resolve demo_crypto (Some (bs ''!admin'')) demo_policy (BucketId (bs ''b1'')) (bs ''root'') 0 = Inr Admin"
  proof -
    have "matches demo_crypto (bs ''root'') (secret_key_hash demo_policy) (bs ''!admin'')"
      unfolding demo_crypto.matches_iff by (simp add: demo_policy_def demo_crypto_def bs_def)
    then show ?thesis by (simp add: resolve_def)
  qed
  with identity_has_grounds [OF demo_crypto.crypto_api_axioms, where raw = "Some (bs ''!admin'')"
      and policy = demo_policy and bucket = "BucketId (bs ''b1'')" and rk = "bs ''root''" and now = 0]
  show ?thesis by simp
qed

end
