(* ===== verification/Http_Base.thy ===== *)
theory Http_Base
  imports Keys Buckets Auth
begin

text \<open>
  The ground of the HTTP layer: responses and the error envelope (\<open>keydock-http/src/error.rs\<close>),
  the bridge to blocking use cases (\<open>blocking.rs\<close>), percent decoding (\<open>percent.rs\<close>), the
  application state (\<open>keydock-state/src/state.rs\<close>) and the extraction of a credential from
  headers and query (\<open>auth.rs\<close>).  \<open>http_lib\<close> holds the third-party functions the handlers
  call.
\<close>

section \<open>JSON values and responses\<close>

datatype json =
    JNull | JBool bool | JInt int | JFloat f64 | JString str
  | JArray "json list" | JObject "(str \<times> json) list"

datatype body = NoBody | BytesBody bytes | JsonBody json

record response =
  rs_status :: nat
  rs_content_type :: "str option"
  rs_body :: body

definition status_response :: "nat \<Rightarrow> response" where
  "status_response code = \<lparr>rs_status = code, rs_content_type = None, rs_body = NoBody\<rparr>"

definition json_response :: "nat \<Rightarrow> json \<Rightarrow> response" where
  "json_response code j =
     \<lparr>rs_status = code, rs_content_type = Some (bs ''application/json''), rs_body = JsonBody j\<rparr>"

definition bytes_response :: "nat \<Rightarrow> str \<Rightarrow> bytes \<Rightarrow> response" where
  "bytes_response code ct b = \<lparr>rs_status = code, rs_content_type = Some ct, rs_body = BytesBody b\<rparr>"

section \<open>The error envelope\<close>

record error_detail =
  ed_code :: nat
  ed_message :: str

definition error_body_json :: "error_detail \<Rightarrow> json" where
  "error_body_json d =
     JObject [(bs ''error'', JObject [(bs ''code'', JInt (int (ed_code d))), (bs ''message'', JString (ed_message d))])]"

definition json_error :: "nat \<Rightarrow> str \<Rightarrow> response" where
  "json_error status message = json_response status (error_body_json \<lparr>ed_code = status, ed_message = message\<rparr>)"

definition not_implemented :: "str \<Rightarrow> response" where "not_implemented message = json_error 501 message"
definition unauthorized :: response where "unauthorized = json_error 401 (bs ''unauthorized'')"
definition forbidden :: response where "forbidden = json_error 403 (bs ''forbidden'')"
definition not_found :: response where "not_found = json_error 404 (bs ''not_found'')"
definition bad_request :: response where "bad_request = json_error 400 (bs ''bad_request'')"
definition not_acceptable :: response where "not_acceptable = json_error 406 (bs ''not_acceptable'')"
definition method_not_allowed :: response where "method_not_allowed = json_error 405 (bs ''method_not_allowed'')"
definition service_unavailable :: response where
  "service_unavailable = json_error 503 (bs ''service_unavailable'')"
definition rate_limit_exceeded :: response where
  "rate_limit_exceeded = json_error 429 (bs ''rate limit exceeded'')"
definition internal_error :: response where "internal_error = json_error 500 (bs ''internal_error'')"

lemmas error_response_defs =
  not_implemented_def unauthorized_def forbidden_def not_found_def bad_request_def not_acceptable_def
  method_not_allowed_def service_unavailable_def rate_limit_exceeded_def internal_error_def

lemma error_status [simp]:
  "rs_status (json_error c m) = c"
  "rs_status unauthorized = 401" "rs_status forbidden = 403" "rs_status not_found = 404"
  "rs_status bad_request = 400" "rs_status internal_error = 500" "rs_status service_unavailable = 503"
  "rs_status not_acceptable = 406" "rs_status (not_implemented msg) = 501"
  by (simp_all add: error_response_defs json_error_def json_response_def)

fun map_use_case_repo_err :: "use_case_error \<Rightarrow> response" where
  "map_use_case_repo_err (Storage msg) = internal_error"
| "map_use_case_repo_err NotFound = not_found"
| "map_use_case_repo_err (DomainErr e) = bad_request"
| "map_use_case_repo_err NotImplemented = not_implemented (bs ''not implemented'')"

definition spawn_usecase :: "(use_case_error + 'a) run \<Rightarrow> response + 'a" where
  "spawn_usecase res =
     (case res of
        Panicked \<Rightarrow> Inl internal_error
      | Done (Inl e) \<Rightarrow> Inl (map_use_case_repo_err e)
      | Done (Inr a) \<Rightarrow> Inr a)"

lemma spawn_usecase_simps [simp]:
  "spawn_usecase Panicked = Inl internal_error"
  "spawn_usecase (Done (Inl e)) = Inl (map_use_case_repo_err e)"
  "spawn_usecase (Done (Inr a)) = Inr a"
  by (simp_all add: spawn_usecase_def)

lemma spawn_usecase_Inr [simp]: "spawn_usecase r = Inr a \<longleftrightarrow> r = Done (Inr a)"
  by (auto simp: spawn_usecase_def split: run.splits sum.splits)

section \<open>Third-party functions and the application state\<close>

record txn_set =
  ts_set :: str
  ts_value :: json
  ts_ttl :: "u64 option"

datatype txn_item = ItemTxnSet txn_set | ItemTxnDelete str

record update_policy_json =
  up_secret_key :: "str option option"
  up_read_key :: "str option option"
  up_write_key :: "str option option"
  up_signing_key :: "str option option"
  up_default_ttl :: "u64 option option"

text \<open>
  \<open>percent_encoding\<close>, \<open>base64\<close> with the standard alphabet, \<open>HeaderValue::to_str\<close>, and
  \<open>serde_json\<close>: to and from text, and into the two request structures that derive
  \<open>Deserialize\<close>.
\<close>

record http_lib =
  hl_time :: time_ops
  hl_crypto :: crypto_ops
  hl_percent_decode :: "str \<Rightarrow> bytes"
  hl_b64_std_decode :: "str \<Rightarrow> bytes option"
  hl_to_str :: "bytes \<Rightarrow> str option"
  hl_json_from_slice :: "bytes \<Rightarrow> json option"
  hl_json_to_vec :: "json \<Rightarrow> bytes option"
  hl_txn_from_slice :: "bytes \<Rightarrow> txn_item list option"
  hl_patch_from_slice :: "bytes \<Rightarrow> update_policy_json option"

record 'st app_state =
  st_version :: str
  st_buckets :: "'st bucket_repo"
  st_keys :: "'st key_repo"
  st_root_key :: bytes

definition decode_to_bytes :: "http_lib \<Rightarrow> str \<Rightarrow> bytes" where
  "decode_to_bytes L raw = hl_percent_decode L raw"

definition json_text_ok :: "http_lib \<Rightarrow> str \<Rightarrow> bool" where
  "json_text_ok L t \<longleftrightarrow> hl_json_from_slice L t \<noteq> None"

section \<open>Credentials on the wire\<close>

datatype raw_credential = Bearer (cred_str: str) | Basic (cred_str: str) | QueryParam (cred_str: str)

definition basic_username_credential :: "str \<Rightarrow> str option" where
  "basic_username_credential text =
     (let user = (case split_once 0x3A text of Some (u, _) \<Rightarrow> u | None \<Rightarrow> text)
      in if user = [] then None else Some user)"

definition decode_query_value :: "http_lib \<Rightarrow> str \<Rightarrow> str option" where
  "decode_query_value L v = from_utf8 (decode_to_bytes L v)"

fun scan_pairs :: "http_lib \<Rightarrow> str option \<Rightarrow> str option \<Rightarrow> str list \<Rightarrow> str option \<times> str option" where
  "scan_pairs L access_token key_param [] = (access_token, key_param)"
| "scan_pairs L access_token key_param (pair # rest) =
     (if pair = [] then scan_pairs L access_token key_param rest
      else
        (let (name0, v) = (case split_once 0x3D pair of Some nv \<Rightarrow> nv | None \<Rightarrow> (pair, []));
             name = trim name0
         in if name = bs ''access_token'' \<and> access_token = None
            then scan_pairs L (decode_query_value L v) key_param rest
            else if name = bs ''key'' \<and> key_param = None
            then scan_pairs L access_token (decode_query_value L v) rest
            else scan_pairs L access_token key_param rest))"

definition extract_from_query :: "http_lib \<Rightarrow> str \<Rightarrow> raw_credential option" where
  "extract_from_query L query =
     (let (access_token, key_param) = scan_pairs L None None (split_on 0x26 query) in
      case (case access_token of Some t \<Rightarrow> Some t | None \<Rightarrow> key_param) of
        None \<Rightarrow> None
      | Some v \<Rightarrow> if v = [] then None else Some (QueryParam v))"

text \<open>\<open>auth\<close> is the first \<open>Authorization\<close> header.\<close>

definition bearer_credential :: "str \<Rightarrow> str option" where
  "bearer_credential auth =
     (case strip_prefix (bs ''Bearer '') auth of
        None \<Rightarrow> None
      | Some rest \<Rightarrow> (let token = trim rest in if token = [] then None else Some token))"

definition basic_credential :: "http_lib \<Rightarrow> str \<Rightarrow> str option" where
  "basic_credential L auth =
     (case strip_prefix (bs ''Basic '') auth of
        None \<Rightarrow> None
      | Some rest \<Rightarrow>
          (case hl_b64_std_decode L (trim rest) of
             None \<Rightarrow> None
           | Some b \<Rightarrow>
               (case from_utf8 b of None \<Rightarrow> None | Some text \<Rightarrow> basic_username_credential text)))"

definition extract_credential :: "http_lib \<Rightarrow> bytes option \<Rightarrow> str option \<Rightarrow> raw_credential option" where
  "extract_credential L authorization query =
     (let from_query = (case query of None \<Rightarrow> None | Some q \<Rightarrow> extract_from_query L q) in
      case (case authorization of None \<Rightarrow> None | Some v \<Rightarrow> hl_to_str L v) of
        None \<Rightarrow> from_query
      | Some auth \<Rightarrow>
          (case bearer_credential auth of
             Some token \<Rightarrow> Some (Bearer token)
           | None \<Rightarrow>
               (case basic_credential L auth of
                  Some cred \<Rightarrow> Some (Basic cred)
                | None \<Rightarrow> from_query)))"

text \<open>No extracted credential is empty.\<close>

lemma extract_nonempty: "extract_credential L authorization query = Some c \<Longrightarrow> cred_str c \<noteq> []"
  by (auto simp: extract_credential_def extract_from_query_def bearer_credential_def basic_credential_def
      basic_username_credential_def Let_def split: option.splits if_splits prod.splits)

section \<open>Properties\<close>

text \<open>
  The \<open>Authorization\<close> header wins: a bearer token in it is the credential whatever the
  query says, basic authentication comes next with its user name, and the query is consulted
  only when the header yields neither; no credential is ever empty.
\<close>

lemma header_credential_wins:
  assumes "hl_to_str L v = Some auth"
  shows "extract_credential L (Some v) query =
      (if bearer_credential auth \<noteq> None then map_option Bearer (bearer_credential auth)
       else if basic_credential L auth \<noteq> None then map_option Basic (basic_credential L auth)
       else (case query of None \<Rightarrow> None | Some q \<Rightarrow> extract_from_query L q))
    \<and> (\<forall>c. extract_credential L (Some v) query = Some c \<longrightarrow> cred_str c \<noteq> [])"
proof
  show "extract_credential L (Some v) query =
      (if bearer_credential auth \<noteq> None then map_option Bearer (bearer_credential auth)
       else if basic_credential L auth \<noteq> None then map_option Basic (basic_credential L auth)
       else (case query of None \<Rightarrow> None | Some q \<Rightarrow> extract_from_query L q))"
    using assms by (simp add: extract_credential_def Let_def split: option.split)
  show "\<forall>c. extract_credential L (Some v) query = Some c \<longrightarrow> cred_str c \<noteq> []"
    using extract_nonempty by blast
qed

definition demo_header_lib :: "http_lib" where
  "demo_header_lib =
     \<lparr>hl_time = time_crate, hl_crypto = demo_crypto, hl_percent_decode = (\<lambda>s. s),
      hl_b64_std_decode = nibble_dec, hl_to_str = Some, hl_json_from_slice = (\<lambda>_. None),
      hl_json_to_vec = (\<lambda>_. None), hl_txn_from_slice = (\<lambda>_. None), hl_patch_from_slice = (\<lambda>_. None)\<rparr>"

lemma header_credential_wins_example:
  "extract_credential demo_header_lib (Some (bs ''Bearer tok'')) (Some (bs ''key=k'')) = Some (Bearer (bs ''tok''))"
proof -
  have "hl_to_str demo_header_lib (bs ''Bearer tok'') = Some (bs ''Bearer tok'')" by (simp add: demo_header_lib_def)
  moreover have "bearer_credential (bs ''Bearer tok'') = Some (bs ''tok'')" by code_simp
  ultimately show ?thesis using header_credential_wins by simp
qed

end
