(* ===== verification/Http_Auth.thy ===== *)
theory Http_Auth
  imports Http_Base
begin

text \<open>
  \<open>keydock-http/src/extract.rs\<close>: the extractor that turns a request into a resolved identity
  with the policy facts the gates need, and the five gates.  The property: for a bucket
  whose stored anonymous flags agree with its configured keys, each gate opens exactly when
  the caller's effective permission allows the action and, for a scoped caller, the key is
  under its prefix; a closed gate answers 401 to an anonymous caller who lacks a configured
  credential and 403 otherwise.
\<close>

section \<open>The extractor\<close>

definition parse_percent_encoded_key :: "http_lib \<Rightarrow> str \<Rightarrow> response + key" where
  "parse_percent_encoded_key L raw =
     (case Key_from_bytes (decode_to_bytes L raw) of Inl _ \<Rightarrow> Inl bad_request | Inr k \<Rightarrow> Inr k)"

record policy_keys_presence =
  has_read_key :: bool
  has_write_key :: bool
  has_secret_key :: bool

definition presence_of :: "bucket_policy \<Rightarrow> policy_keys_presence" where
  "presence_of p =
     \<lparr>has_read_key = (read_key_hash p \<noteq> None), has_write_key = (write_key_hash p \<noteq> None),
      has_secret_key = (secret_key_hash p \<noteq> None)\<rparr>"

record bucket_auth =
  ba_identity :: resolved_identity
  ba_bucket_id :: bucket_id
  ba_policy_presence :: policy_keys_presence
  ba_anonymous_access :: permission
  ba_default_ttl_secs :: "u64 option"

definition SLASH :: byte where "SLASH = 0x2F"

definition first_path_segment :: "str \<Rightarrow> str option" where
  "first_path_segment path = find (\<lambda>s. s \<noteq> []) (split_on SLASH (dropWhile (\<lambda>c. c = SLASH) path))"

definition bucket_id_from_path :: "str \<Rightarrow> unit + bucket_id" where
  "bucket_id_from_path path =
     (case first_path_segment path of
        None \<Rightarrow> Inl ()
      | Some segment \<Rightarrow> (case BucketId_new segment of Inl _ \<Rightarrow> Inl () | Inr b \<Rightarrow> Inr b))"

definition from_request_parts ::
  "http_lib \<Rightarrow> 'st app_state \<Rightarrow> instant \<Rightarrow> 'st \<Rightarrow> str \<Rightarrow> str option \<Rightarrow> bytes option \<Rightarrow> response + bucket_auth" where
  "from_request_parts L A now st path query authorization =
     (case bucket_id_from_path path of
        Inl _ \<Rightarrow> Inl bad_request
      | Inr bucket_id \<Rightarrow>
          (case spawn_usecase (Done (br_get_policy (st_buckets A) st bucket_id)) of
             Inl r \<Rightarrow> Inl r
           | Inr None \<Rightarrow> Inl not_found
           | Inr (Some policy) \<Rightarrow>
               (case resolve (hl_crypto L) (map_option cred_str (extract_credential L authorization query))
                       policy bucket_id (st_root_key A) now of
                  Inl _ \<Rightarrow> Inl unauthorized
                | Inr identity \<Rightarrow>
                    Inr \<lparr>ba_identity = identity, ba_bucket_id = bucket_id,
                      ba_policy_presence = presence_of policy,
                      ba_anonymous_access = anonymous_access policy,
                      ba_default_ttl_secs = default_ttl_secs policy\<rparr>)))"

section \<open>The gates\<close>

fun identity_kind :: "resolved_identity \<Rightarrow> string" where
  "identity_kind Admin = ''admin''"
| "identity_kind (Scoped _ _) = ''scoped''"
| "identity_kind Anonymous = ''anonymous''"

definition any_policy_key_present :: "bucket_auth \<Rightarrow> bool" where
  "any_policy_key_present a \<longleftrightarrow>
     has_secret_key (ba_policy_presence a) \<or> has_write_key (ba_policy_presence a) \<or> has_read_key (ba_policy_presence a)"

definition is_prefix_ok :: "bytes \<Rightarrow> key \<Rightarrow> bool" where
  "is_prefix_ok key_prefix k \<longleftrightarrow> key_prefix = [] \<or> starts_with (as_bytes k) key_prefix"

definition require_admin :: "bucket_auth \<Rightarrow> response + unit" where
  "require_admin a = (case ba_identity a of Admin \<Rightarrow> Inr () | _ \<Rightarrow> Inl forbidden)"

definition require_enumerate :: "bucket_auth \<Rightarrow> response + unit" where
  "require_enumerate a =
     (case ba_identity a of
        Admin \<Rightarrow> Inr ()
      | Scoped permissions _ \<Rightarrow> if p_enumerate permissions then Inr () else Inl forbidden
      | Anonymous \<Rightarrow> if has_read_key (ba_policy_presence a) then Inl unauthorized else Inr ())"

definition require_read_on :: "bucket_auth \<Rightarrow> key \<Rightarrow> response + unit" where
  "require_read_on a k =
     (case ba_identity a of
        Admin \<Rightarrow> Inr ()
      | Scoped permissions key_prefix \<Rightarrow>
          if \<not> p_read permissions then Inl forbidden
          else if \<not> is_prefix_ok key_prefix k then Inl forbidden
          else Inr ()
      | Anonymous \<Rightarrow> if has_read_key (ba_policy_presence a) then Inl unauthorized else Inr ())"

definition require_write_on :: "bucket_auth \<Rightarrow> key \<Rightarrow> response + unit" where
  "require_write_on a k =
     (case ba_identity a of
        Admin \<Rightarrow> Inr ()
      | Scoped permissions key_prefix \<Rightarrow>
          if \<not> p_write permissions then Inl forbidden
          else if \<not> is_prefix_ok key_prefix k then Inl forbidden
          else Inr ()
      | Anonymous \<Rightarrow>
          if has_write_key (ba_policy_presence a) then Inl unauthorized
          else if p_write (ba_anonymous_access a) then Inr ()
          else Inl forbidden)"

definition require_delete_on :: "bucket_auth \<Rightarrow> key \<Rightarrow> response + unit" where
  "require_delete_on a k =
     (case ba_identity a of
        Admin \<Rightarrow> Inr ()
      | Scoped permissions key_prefix \<Rightarrow>
          if \<not> p_delete permissions then Inl forbidden
          else if \<not> is_prefix_ok key_prefix k then Inl forbidden
          else Inr ()
      | Anonymous \<Rightarrow>
          if any_policy_key_present a then Inl unauthorized
          else if p_delete (ba_anonymous_access a) then Inr ()
          else Inl forbidden)"

lemmas gate_defs =
  require_admin_def require_enumerate_def require_read_on_def require_write_on_def require_delete_on_def
  any_policy_key_present_def

section \<open>What the gates decide\<close>

text \<open>The stored anonymous flags agree with the configured keys.\<close>

definition flags_agree :: "policy_keys_presence \<Rightarrow> permission \<Rightarrow> bool" where
  "flags_agree pr p \<longleftrightarrow> p = anonymous_from_keys (has_secret_key pr) (has_read_key pr) (has_write_key pr)"

definition policy_consistent :: "bucket_policy \<Rightarrow> bool" where
  "policy_consistent p \<longleftrightarrow> flags_agree (presence_of p) (anonymous_access p)"

text \<open>The abstract rule: a permission set and the prefix it is limited to.\<close>

fun effective :: "bucket_auth \<Rightarrow> permission \<times> bytes" where
  "effective a =
     (case ba_identity a of
        Admin \<Rightarrow> (ADMIN, [])
      | Scoped p pre \<Rightarrow> (p, pre)
      | Anonymous \<Rightarrow> (ba_anonymous_access a, []))"

definition may :: "(permission \<Rightarrow> bool) \<Rightarrow> bucket_auth \<Rightarrow> key \<Rightarrow> bool" where
  "may right a k \<longleftrightarrow> right (fst (effective a)) \<and> starts_with (as_bytes k) (snd (effective a))"

lemma is_prefix_ok_iff [simp]: "is_prefix_ok pre k \<longleftrightarrow> starts_with (as_bytes k) pre"
  by (auto simp: is_prefix_ok_def)

lemma gates_decide:
  assumes "flags_agree (ba_policy_presence a) (ba_anonymous_access a)"
  shows "(require_read_on a k = Inr () \<longleftrightarrow> may p_read a k)
    \<and> (require_write_on a k = Inr () \<longleftrightarrow> may p_write a k)
    \<and> (require_delete_on a k = Inr () \<longleftrightarrow> may p_delete a k)
    \<and> (require_enumerate a = Inr () \<longleftrightarrow> p_enumerate (fst (effective a)))
    \<and> (require_admin a = Inr () \<longleftrightarrow> ba_identity a = Admin)"
  using assms
  by (cases "ba_identity a") (auto simp: gate_defs may_def flags_agree_def anonymous_from_keys_def ADMIN_def Permission_new_def)

definition demo_auth :: bucket_auth where
  "demo_auth =
     \<lparr>ba_identity = Scoped READ_ONLY (bs ''user:''), ba_bucket_id = demo_bucket,
      ba_policy_presence = \<lparr>has_read_key = True, has_write_key = False, has_secret_key = True\<rparr>,
      ba_anonymous_access = anonymous_from_keys True True False, ba_default_ttl_secs = None\<rparr>"

text \<open>
  A refusal has the right code: when the anonymous flags agree with the configured keys,
  a gate that is closed to an anonymous caller asks for a credential (401), and one closed
  to a caller with a credential forbids the action (403).
\<close>

lemma gate_refusal_codes:
  assumes "flags_agree (ba_policy_presence a) (ba_anonymous_access a)"
    and "r \<in> {require_read_on a k, require_write_on a k, require_delete_on a k, require_enumerate a}"
    and "r = Inl e"
  shows "e = (if ba_identity a = Anonymous then unauthorized else forbidden)"
  using assms
  by (cases "ba_identity a") (auto simp: gate_defs flags_agree_def anonymous_from_keys_def split: if_splits)

lemma gate_refusal_codes_example:
  "require_write_on demo_auth (Key (bs ''user:7'')) = Inl forbidden"
proof -
  have "require_write_on demo_auth (Key (bs ''user:7'')) \<noteq> Inr ()"
    by (simp add: require_write_on_def demo_auth_def READ_ONLY_def Permission_new_def)
  then obtain e where e: "require_write_on demo_auth (Key (bs ''user:7'')) = Inl e"
    by (cases "require_write_on demo_auth (Key (bs ''user:7''))") auto
  from gate_refusal_codes [OF _ _ e, of demo_auth "Key (bs ''user:7'')"] e
  show ?thesis by (simp add: demo_auth_def flags_agree_def)
qed

end
