(* ===== verification/Http_Keys.thy ===== *)
theory Http_Keys
  imports Http_Auth
begin

text \<open>
  The handlers on keys (\<open>keydock-http/src/routes/keys.rs\<close>), on transactions (\<open>txn.rs\<close>) and
  the probes (\<open>health.rs\<close>).  A handler is a function of the state, the resolved identity and
  the parts the framework extracted; the two sides of its result are Rust's \<open>Ok\<close> and \<open>Err\<close>
  responses.  The properties follow a value through the whole stack: what one client puts
  another reads back; a closed gate leaves the store alone; a transaction is permitted,
  checked and applied as a whole.
\<close>

section \<open>Reading and writing one key\<close>

fun content_type_for_kind :: "value_kind \<Rightarrow> str" where
  "content_type_for_kind Json = bs ''application/json''"
| "content_type_for_kind Int64 = bs ''text/plain; charset=utf-8''"
| "content_type_for_kind Float64 = bs ''text/plain; charset=utf-8''"
| "content_type_for_kind Utf8 = bs ''text/plain; charset=utf-8''"
| "content_type_for_kind Raw = bs ''application/octet-stream''"

definition stored_value_response :: "stored_value \<Rightarrow> response + response" where
  "stored_value_response v = Inr (bytes_response 200 (content_type_for_kind (kind v)) (payload v))"

definition get_key ::
  "http_lib \<Rightarrow> 'st app_state \<Rightarrow> instant \<Rightarrow> 'st \<Rightarrow> bucket_auth \<Rightarrow> str \<Rightarrow> response + response" where
  "get_key L A now st auth key =
     (case parse_percent_encoded_key L key of
        Inl r \<Rightarrow> Inl r
      | Inr key_dom \<Rightarrow>
          (case require_read_on auth key_dom of
             Inl r \<Rightarrow> Inl r
           | Inr _ \<Rightarrow>
               (case spawn_usecase (Done (KeyService_get (st_keys A) now st (ba_bucket_id auth) key_dom)) of
                  Inl r \<Rightarrow> Inl r
                | Inr entry \<Rightarrow> stored_value_response (se_value entry))))"

definition head_key ::
  "http_lib \<Rightarrow> 'st app_state \<Rightarrow> instant \<Rightarrow> 'st \<Rightarrow> bucket_auth \<Rightarrow> str \<Rightarrow> response + response" where
  "head_key L A now st auth key =
     (case parse_percent_encoded_key L key of
        Inl r \<Rightarrow> Inl r
      | Inr key_dom \<Rightarrow>
          (case require_read_on auth key_dom of
             Inl r \<Rightarrow> Inl r
           | Inr _ \<Rightarrow>
               (case spawn_usecase (Done (KeyService_get (st_keys A) now st (ba_bucket_id auth) key_dom)) of
                  Inl r \<Rightarrow> Inl r
                | Inr entry \<Rightarrow> Inr (bytes_response 200 (content_type_for_kind (kind (se_value entry))) []))))"

definition put_key ::
  "http_lib \<Rightarrow> 'st app_state \<Rightarrow> instant \<Rightarrow> 'st \<Rightarrow> bucket_auth \<Rightarrow> str \<Rightarrow> u64 option \<Rightarrow> bytes option \<Rightarrow> bytes \<Rightarrow>
     (response + response) \<times> 'st" where
  "put_key L A now st auth key ttl content_type_header body =
     (case parse_percent_encoded_key L key of
        Inl r \<Rightarrow> (Inl r, st)
      | Inr key_dom \<Rightarrow>
          (case require_write_on auth key_dom of
             Inl r \<Rightarrow> (Inl r, st)
           | Inr _ \<Rightarrow>
               (let content_type = (case content_type_header of None \<Rightarrow> None | Some h \<Rightarrow> hl_to_str L h);
                    (res, st') = KeyService_set (hl_time L) (json_text_ok L) (st_keys A) now st
                      (ba_bucket_id auth) key_dom body content_type ttl (ba_default_ttl_secs auth)
                in (case spawn_usecase (Done res) of
                      Inl r \<Rightarrow> Inl r
                    | Inr v \<Rightarrow> stored_value_response v, st'))))"

definition delete_key ::
  "http_lib \<Rightarrow> 'st app_state \<Rightarrow> 'st \<Rightarrow> bucket_auth \<Rightarrow> str \<Rightarrow> (response + response) \<times> 'st" where
  "delete_key L A st auth key =
     (case parse_percent_encoded_key L key of
        Inl r \<Rightarrow> (Inl r, st)
      | Inr key_dom \<Rightarrow>
          (case require_delete_on auth key_dom of
             Inl r \<Rightarrow> (Inl r, st)
           | Inr _ \<Rightarrow>
               (let (res, st') = KeyService_delete (st_keys A) st (ba_bucket_id auth) key_dom
                in (case spawn_usecase (Done res) of
                      Inl r \<Rightarrow> Inl r
                    | Inr _ \<Rightarrow> Inr (status_response 204), st'))))"

definition patch_key ::
  "http_lib \<Rightarrow> 'st app_state \<Rightarrow> instant \<Rightarrow> instant \<Rightarrow> 'st \<Rightarrow> bucket_auth \<Rightarrow> str \<Rightarrow> u64 option \<Rightarrow> bytes \<Rightarrow>
     (response + response) \<times> 'st" where
  "patch_key L A now store_now st auth key ttl body =
     (case parse_percent_encoded_key L key of
        Inl r \<Rightarrow> (Inl r, st)
      | Inr key_dom \<Rightarrow>
          (case require_write_on auth key_dom of
             Inl r \<Rightarrow> (Inl r, st)
           | Inr _ \<Rightarrow>
               (case CounterOp_parse body of
                  Inl _ \<Rightarrow> (Inl bad_request, st)
                | Inr op \<Rightarrow>
                    (let (res, st') = KeyService_increment (hl_time L) (st_keys A) now store_now st
                           (ba_bucket_id auth) key_dom op ttl (ba_default_ttl_secs auth)
                     in (case spawn_usecase (Done res) of
                           Inl r \<Rightarrow> Inl r
                         | Inr v \<Rightarrow> stored_value_response v, st')))))"

section \<open>Transactions\<close>

definition JSON_CONTENT_TYPE :: str where "JSON_CONTENT_TYPE = bs ''application/json''"

fun json_value_to_body :: "http_lib \<Rightarrow> json \<Rightarrow> response + bytes \<times> str option" where
  "json_value_to_body L JNull = Inl bad_request"
| "json_value_to_body L (JString s) = Inr (s, None)"
| "json_value_to_body L other =
     (case hl_json_to_vec L other of None \<Rightarrow> Inl bad_request | Some b \<Rightarrow> Inr (b, Some JSON_CONTENT_TYPE))"

text \<open>The loop over the items; \<open>clk\<close> are the readings of the clock, one per \<open>set\<close>.\<close>

fun txn_ops_of ::
  "http_lib \<Rightarrow> (nat \<Rightarrow> instant) \<Rightarrow> bucket_auth \<Rightarrow> nat \<Rightarrow> txn_item list \<Rightarrow> response + txn_op list" where
  "txn_ops_of L clk auth set_count [] = Inr []"
| "txn_ops_of L clk auth set_count (ItemTxnSet s # rest) =
     (case parse_percent_encoded_key L (ts_set s) of
        Inl r \<Rightarrow> Inl r
      | Inr key_dom \<Rightarrow>
          (case require_write_on auth key_dom of
             Inl r \<Rightarrow> Inl r
           | Inr _ \<Rightarrow>
               (case json_value_to_body L (ts_value s) of
                  Inl r \<Rightarrow> Inl r
                | Inr (body, content_type) \<Rightarrow>
                    (case infer_stored_value (json_text_ok L) body content_type of
                       Inl e \<Rightarrow> Inl (map_use_case_repo_err e)
                     | Inr stored \<Rightarrow>
                         (case resolve_ttl (hl_time L) (clk set_count) (ts_ttl s) (ba_default_ttl_secs auth) of
                            Inl e \<Rightarrow> Inl (map_use_case_repo_err e)
                          | Inr expires_at \<Rightarrow>
                              (case txn_ops_of L clk auth (set_count + 1) rest of
                                 Inl r \<Rightarrow> Inl r
                               | Inr ops \<Rightarrow> Inr (TxnSet key_dom stored expires_at # ops)))))))"
| "txn_ops_of L clk auth set_count (ItemTxnDelete d # rest) =
     (case parse_percent_encoded_key L d of
        Inl r \<Rightarrow> Inl r
      | Inr key_dom \<Rightarrow>
          (case require_delete_on auth key_dom of
             Inl r \<Rightarrow> Inl r
           | Inr _ \<Rightarrow>
               (case txn_ops_of L clk auth set_count rest of
                  Inl r \<Rightarrow> Inl r
                | Inr ops \<Rightarrow> Inr (TxnDelete key_dom # ops))))"

definition execute_txn ::
  "http_lib \<Rightarrow> 'st app_state \<Rightarrow> (nat \<Rightarrow> instant) \<Rightarrow> 'st \<Rightarrow> bucket_auth \<Rightarrow> bytes \<Rightarrow> (response + response) \<times> 'st" where
  "execute_txn L A clk st auth body =
     (case hl_txn_from_slice L body of
        None \<Rightarrow> (Inl bad_request, st)
      | Some items \<Rightarrow>
          if items = [] then (Inl bad_request, st)
          else
            (case txn_ops_of L clk auth 0 items of
               Inl r \<Rightarrow> (Inl r, st)
             | Inr ops \<Rightarrow>
                 (let (res, st') = TxnService_execute (st_keys A) st (ba_bucket_id auth) ops
                  in (case spawn_usecase (Done res) of
                        Inl r \<Rightarrow> Inl r
                      | Inr _ \<Rightarrow> Inr (status_response 204), st'))))"

section \<open>Probes\<close>

definition health_json :: "str \<Rightarrow> str \<Rightarrow> str \<Rightarrow> json" where
  "health_json status storage version =
     JObject [(bs ''status'', JString status), (bs ''storage'', JString storage), (bs ''version'', JString version)]"

definition health_check :: "'st app_state \<Rightarrow> response" where
  "health_check A = json_response 200 (health_json (bs ''ok'') (bs ''ok'') (st_version A))"

definition readiness_check :: "'st app_state \<Rightarrow> 'st \<Rightarrow> response" where
  "readiness_check A st =
     (case br_ping (st_buckets A) st of
        Inr _ \<Rightarrow> json_response 200 (health_json (bs ''ok'') (bs ''ok'') (st_version A))
      | Inl _ \<Rightarrow> json_response 503 (health_json (bs ''degraded'') (bs ''error'') (st_version A)))"

section \<open>Lemmas\<close>

text \<open>\<open>HEAD\<close> answers as \<open>GET\<close> does, without the body.\<close>

definition without_body :: "response \<Rightarrow> response" where
  "without_body r = r\<lparr>rs_body := (case rs_body r of BytesBody _ \<Rightarrow> BytesBody [] | b \<Rightarrow> b)\<rparr>"

lemma parse_key_ok: "parse_percent_encoded_key L raw = Inr k \<Longrightarrow> key_ok k"
  by (auto simp: parse_percent_encoded_key_def Key_from_bytes_Inr split: sum.splits)

lemma put_key_cases:
  assumes "put_key L A now st auth key ttl cth body = (Inr r, st')"
  obtains k v where "parse_percent_encoded_key L key = Inr k" and "require_write_on auth k = Inr ()"
    and "KeyService_set (hl_time L) (json_text_ok L) (st_keys A) now st (ba_bucket_id auth) k body
      (case cth of None \<Rightarrow> None | Some h \<Rightarrow> hl_to_str L h) ttl (ba_default_ttl_secs auth) = (Inr v, st')"
    and "r = bytes_response 200 (content_type_for_kind (kind v)) (payload v)"
  using assms
  by (auto simp: put_key_def stored_value_response_def Let_def split: sum.splits prod.splits)

lemma txn_ops_ok:
  assumes "time_api (hl_time L) valid" and "\<And>i. valid (clk i)"
    and "txn_ops_of L clk auth n items = Inr ops"
  shows "list_all (txn_op_ok valid) ops"
  using assms(3)
proof (induction items arbitrary: n ops)
  case (Cons it items)
  then show ?case
  proof (cases it)
    case (ItemTxnSet s)
    then show ?thesis
      using Cons time_api.resolve_ttl_valid [OF assms(1,2)]
      by (auto simp: infer_stored_value_ok split: sum.splits prod.splits)
  qed (auto split: sum.splits)
qed simp

fun txn_op_permitted :: "bucket_auth \<Rightarrow> txn_op \<Rightarrow> bool" where
  "txn_op_permitted auth (TxnSet k _ _) \<longleftrightarrow> require_write_on auth k = Inr ()"
| "txn_op_permitted auth (TxnDelete k) \<longleftrightarrow> require_delete_on auth k = Inr ()"

lemma txn_ops_permitted:
  assumes "txn_ops_of L clk auth n items = Inr ops"
  shows "list_all (txn_op_permitted auth) ops \<and> length ops = length items"
  using assms
proof (induction items arbitrary: n ops)
  case (Cons it items)
  then show ?case by (cases it) (fastforce split: sum.splits prod.splits)+
qed simp

fun item_permitted :: "http_lib \<Rightarrow> bucket_auth \<Rightarrow> txn_item \<Rightarrow> bool" where
  "item_permitted L auth (ItemTxnSet s) \<longleftrightarrow>
     (\<exists>k. parse_percent_encoded_key L (ts_set s) = Inr k \<and> require_write_on auth k = Inr ())"
| "item_permitted L auth (ItemTxnDelete d) \<longleftrightarrow>
     (\<exists>k. parse_percent_encoded_key L d = Inr k \<and> require_delete_on auth k = Inr ())"

lemma txn_items_permitted:
  assumes "txn_ops_of L clk auth n items = Inr ops"
  shows "list_all (item_permitted L auth) items"
  using assms
proof (induction items arbitrary: n ops)
  case (Cons it items)
  then show ?case by (cases it) (fastforce split: sum.splits prod.splits)+
qed simp

section \<open>A concrete application\<close>

definition demo_lib :: http_lib where
  "demo_lib =
     \<lparr>hl_time = time_crate, hl_crypto = demo_crypto, hl_percent_decode = (\<lambda>s. s),
      hl_b64_std_decode = nibble_dec, hl_to_str = (\<lambda>b. if is_ascii b then Some b else None),
      hl_json_from_slice = (\<lambda>b. if b = bs ''true'' then Some (JBool True) else None),
      hl_json_to_vec = (\<lambda>j. if j = JBool True then Some (bs ''true'') else None),
      hl_txn_from_slice = (\<lambda>b. if b = bs ''demo'' then
        Some [ItemTxnSet \<lparr>ts_set = bs ''n'', ts_value = JBool True, ts_ttl = None\<rparr>, ItemTxnDelete (bs ''m'')] else None),
      hl_patch_from_slice = (\<lambda>_. None)\<rparr>"

definition demo_app :: "mem_db store app_state" where
  "demo_app =
     \<lparr>st_version = bs ''0.1.0'', st_buckets = fjall_buckets mem_env wire_policy, st_keys = fjall_repo mem_env,
      st_root_key = bs ''root''\<rparr>"

definition demo_admin :: bucket_auth where
  "demo_admin =
     \<lparr>ba_identity = Admin, ba_bucket_id = demo_bucket,
      ba_policy_presence = \<lparr>has_read_key = True, has_write_key = True, has_secret_key = True\<rparr>,
      ba_anonymous_access = NONE, ba_default_ttl_secs = None\<rparr>"

lemma demo_simps [simp]:
  "hl_time demo_lib = time_crate" "st_keys demo_app = fjall_repo mem_env"
  "st_buckets demo_app = fjall_buckets mem_env wire_policy" "st_root_key demo_app = bs ''root''"
  "ba_identity demo_admin = Admin" "ba_bucket_id demo_admin = demo_bucket" "ba_default_ttl_secs demo_admin = None"
  by (simp_all add: demo_lib_def demo_app_def demo_admin_def)

lemma demo_parse: "length k \<le> MAX_KEY_BYTES \<Longrightarrow> parse_percent_encoded_key demo_lib k = Inr (Key k)"
  by (simp add: parse_percent_encoded_key_def decode_to_bytes_def demo_lib_def Key_from_bytes_def)

lemma demo_admin_gates [simp]:
  "require_read_on demo_admin k = Inr ()" "require_write_on demo_admin k = Inr ()" "require_delete_on demo_admin k = Inr ()"
  by (simp_all add: gate_defs demo_admin_def)

section \<open>Properties\<close>

text \<open>
  C3. What one client puts another gets: a successful \<open>PUT\<close> echoes the body with the content
  type of its inferred kind, and a \<open>GET\<close> of the same path by any caller the read gate admits
  returns that same response until the time to live runs out, and 404 from then on.
\<close>

theorem http_put_then_get:
  assumes "fjall_store S view valid" and "st_keys A = fjall_repo S" and "hl_time L = cd_time (sv_codec S)"
    and "valid now" and "bucket_ok (ba_bucket_id auth)"
    and "put_key L A now st auth key ttl cth body = (Inr r, st')"
    and "parse_percent_encoded_key L key = Inr k" and "require_read_on auth' k = Inr ()"
    and "ba_bucket_id auth' = ba_bucket_id auth" and "fjall_get S st' (ba_bucket_id auth) k = Inr q"
  shows "r = bytes_response 200 (content_type_for_kind (infer_value_kind (json_text_ok L) body
           (case cth of None \<Rightarrow> None | Some h \<Rightarrow> hl_to_str L h))) body
    \<and> get_key L A now' st' auth' key =
        (let secs = int (effective_ttl ttl (ba_default_ttl_secs auth)) in
         if secs = 0 \<or> now' < (now div nanos + secs) * nanos then Inr r else Inl not_found)"
proof -
  let ?ct = "case cth of None \<Rightarrow> None | Some h \<Rightarrow> hl_to_str L h"
  let ?K = "infer_value_kind (json_text_ok L) body ?ct"
  obtain v where set: "KeyService_set (cd_time (sv_codec S)) (json_text_ok L) (fjall_repo S) now st
      (ba_bucket_id auth) k body ?ct ttl (ba_default_ttl_secs auth) = (Inr v, st')"
    and r: "r = bytes_response 200 (content_type_for_kind (kind v)) (payload v)"
    by (rule put_key_cases [OF assms(6)]) (use assms(2,3,7) in simp)
  have "v = \<lparr>payload = body, kind = ?K\<rparr>"
    using key_repository.service_set_entry(2) [OF fjall_store.is_repository [OF assms(1)] _ assms(4,5) set]
      assms(1) by (simp add: fjall_store_def)
  then have r': "r = bytes_response 200 (content_type_for_kind ?K) body" using r by simp
  note read = service_ttl [OF assms(1,4,5) set assms(10), of now']
  then have "get_key L A now' st' auth' key =
      (let secs = int (effective_ttl ttl (ba_default_ttl_secs auth)) in
       if secs = 0 \<or> now' < (now div nanos + secs) * nanos then Inr r else Inl not_found)"
    using assms(2,7-9) r'
    by (auto simp: get_key_def stored_value_response_def Let_def split: if_splits)
  then show ?thesis using r' by blast
qed

lemma demo_parse_n: "parse_percent_encoded_key demo_lib (bs ''n'') = Inr demo_key"
  by (simp add: demo_parse bs_def MAX_KEY_BYTES_def demo_key_def)

lemma demo_put:
  "\<exists>st'. put_key demo_lib demo_app 500000000 mem_store demo_admin (bs ''n'') (Some 60) None (bs ''hi'')
     = (Inr (bytes_response 200 (bs ''text/plain; charset=utf-8'') (bs ''hi'')), st')
     \<and> (\<exists>q. fjall_get mem_env st' demo_bucket demo_key = Inr q)"
proof -
  let ?v = "\<lparr>payload = bs ''hi'', kind = Utf8\<rparr>"
  have v: "infer_stored_value (json_text_ok demo_lib) (bs ''hi'') None = Inr ?v" by code_simp
  have ttl: "resolve_ttl time_crate 500000000 (Some 60) None = Inr (Some 60500000000)" by code_simp
  have ex: "value_ok ?v" "pred_option time_valid (Some 60500000000)"
    by (simp_all add: value_ok_def bs_def MAX_VALUE_BYTES_def time_valid_def time_min_def time_max_def)
  obtain st' where st': "fjall_set mem_env mem_store demo_bucket demo_key ?v (Some 60500000000) = (Inr (), st')"
    using mem_set_total [OF mem_store_unpoisoned] by blast
  have "put_key demo_lib demo_app 500000000 mem_store demo_admin (bs ''n'') (Some 60) None (bs ''hi'')
     = (Inr (bytes_response 200 (bs ''text/plain; charset=utf-8'') (bs ''hi'')), st')"
    using v ttl st'
    by (simp add: put_key_def demo_parse_n KeyService_set_def stored_value_response_def)
  moreover have "\<exists>q. fjall_get mem_env st' demo_bucket demo_key = Inr q"
    using mem_get mem_store.set_entry [OF st' ex demo_ok(1,1)] by fastforce
  ultimately show ?thesis by blast
qed

theorem http_put_then_get_witness:
  "\<exists>st'. put_key demo_lib demo_app 500000000 mem_store demo_admin (bs ''n'') (Some 60) None (bs ''hi'')
       = (Inr (bytes_response 200 (bs ''text/plain; charset=utf-8'') (bs ''hi'')), st')
     \<and> get_key demo_lib demo_app 60000000000 st' demo_admin (bs ''n'') = Inl not_found"
proof -
  obtain st' q where put: "put_key demo_lib demo_app 500000000 mem_store demo_admin (bs ''n'') (Some 60) None (bs ''hi'')
       = (Inr (bytes_response 200 (bs ''text/plain; charset=utf-8'') (bs ''hi'')), st')"
    and q: "fjall_get mem_env st' demo_bucket demo_key = Inr q"
    using demo_put by blast
  have t: "effective_ttl (Some 60) None = 60" by code_simp
  have now: "time_valid 500000000" by code_simp
  from http_put_then_get [OF mem_store.fjall_store_axioms _ _ now _ put demo_parse_n, of demo_admin q 60000000000]
  show ?thesis using put q demo_ok(1) by (simp add: t wire_codec_def)
qed

text \<open>
  C19. A refused request changes nothing: when the gate for a request's key is closed, the
  handlers that write, count or delete return the gate's refusal and the store untouched, and
  a transaction with even one item that is not permitted is refused as a whole.
\<close>

theorem refused_requests_change_nothing:
  assumes "parse_percent_encoded_key L key = Inr k"
  shows "(require_write_on auth k = Inl e \<longrightarrow>
        put_key L A now st auth key ttl cth body = (Inl e, st)
        \<and> patch_key L A now store_now st auth key ttl body = (Inl e, st))
    \<and> (require_delete_on auth k = Inl e \<longrightarrow> delete_key L A st auth key = (Inl e, st))
    \<and> (hl_txn_from_slice L body = Some items \<longrightarrow> \<not> list_all (item_permitted L auth) items \<longrightarrow>
        (\<exists>r. execute_txn L A clk st auth body = (Inl r, st)))"
proof -
  have "\<exists>r. execute_txn L A clk st auth body = (Inl r, st)"
    if "hl_txn_from_slice L body = Some items" and "\<not> list_all (item_permitted L auth) items"
    using that txn_items_permitted [of L clk auth 0 items]
    by (cases "txn_ops_of L clk auth 0 items") (auto simp: execute_txn_def)
  then show ?thesis using assms by (simp add: put_key_def patch_key_def delete_key_def)
qed

theorem refused_requests_change_nothing_witness:
  "put_key demo_lib demo_app 0 mem_store demo_auth (bs ''n'') None None (bs ''hi'') = (Inl forbidden, mem_store)"
proof -
  have "require_write_on demo_auth demo_key = Inl forbidden"
    by (simp add: require_write_on_def demo_auth_def READ_ONLY_def Permission_new_def)
  with refused_requests_change_nothing [OF demo_parse_n, of demo_auth forbidden demo_app 0 mem_store]
  show ?thesis by blast
qed

text \<open>
  C2. A transaction is permitted, checked and applied as a whole: success (204) means that
  every item was permitted and that the bucket now holds exactly the effect of all its
  operations in order; on any other answer the bucket is as before, or the backend failed
  (500) after the whole batch was written.  Other buckets never change.
\<close>

theorem txn_request_all_or_nothing:
  assumes "fjall_store S view valid" and "st_keys A = fjall_repo S" and "hl_time L = cd_time (sv_codec S)"
    and "\<forall>i. valid (clk i)" and "bucket_ok (ba_bucket_id auth)" and "bucket_ok b"
    and "execute_txn L A clk st auth body = (r, st')"
  shows "(let before = abs_entry (sv_codec S) (view (st_db st));
              after = abs_entry (sv_codec S) (view (st_db st')) in
      (b \<noteq> ba_bucket_id auth \<longrightarrow> after b = before b)
      \<and> (case r of
           Inr resp \<Rightarrow> rs_status resp = 204 \<and> (\<exists>items ops. hl_txn_from_slice L body = Some items
             \<and> list_all (item_permitted L auth) items \<and> txn_ops_of L clk auth 0 items = Inr ops
             \<and> after (ba_bucket_id auth) = txn_effects ops (before (ba_bucket_id auth)))
         | Inl resp \<Rightarrow> after (ba_bucket_id auth) = before (ba_bucket_id auth)
             \<or> rs_status resp = 500 \<and>
               (\<exists>items ops. hl_txn_from_slice L body = Some items \<and> txn_ops_of L clk auth 0 items = Inr ops
                  \<and> after (ba_bucket_id auth) = txn_effects ops (before (ba_bucket_id auth)))))"
proof (cases "\<exists>items ops. hl_txn_from_slice L body = Some items \<and> items \<noteq> [] \<and> txn_ops_of L clk auth 0 items = Inr ops")
  case True
  then obtain items ops where items: "hl_txn_from_slice L body = Some items" "items \<noteq> []"
    and ops: "txn_ops_of L clk auth 0 items = Inr ops"
    by blast
  obtain res where res: "fjall_apply_batch S st (ba_bucket_id auth) ops = (res, st')"
    and r: "r = (case spawn_usecase (Done res) of Inl e \<Rightarrow> Inl e | Inr _ \<Rightarrow> Inr (status_response 204))"
    using assms(2,7) items ops by (auto simp: execute_txn_def TxnService_execute_def split: prod.splits)
  have ok: "list_all (txn_op_ok valid) ops"
    using txn_ops_ok [OF _ _ ops, of valid] assms(1,3,4) by (simp add: fjall_store_def)
  note batch = fjall_store.apply_batch_atomic [OF assms(1) res ok assms(5)]
    fjall_store.apply_batch_frame [OF assms(1) res ok assms(5,6)]
  show ?thesis
    using batch items ops r txn_items_permitted [OF ops] apply_batch_error res
    by (cases res) (fastforce simp: Let_def status_response_def)+
next
  case False
  then have "st' = st \<and> (\<exists>e. r = Inl e)"
    using assms(7) by (auto simp: execute_txn_def split: option.splits sum.splits if_splits)
  then show ?thesis by (auto simp: Let_def)
qed

definition demo_items :: "txn_item list" where
  "demo_items = [ItemTxnSet \<lparr>ts_set = bs ''n'', ts_value = JBool True, ts_ttl = None\<rparr>, ItemTxnDelete (bs ''m'')]"

definition demo_ops :: "txn_op list" where
  "demo_ops = [TxnSet demo_key \<lparr>payload = bs ''true'', kind = Json\<rparr> None, TxnDelete (Key (bs ''m''))]"

lemma demo_txn_ops: "txn_ops_of demo_lib (\<lambda>_. 0) demo_admin 0 demo_items = Inr demo_ops"
proof -
  have v: "infer_stored_value (json_text_ok demo_lib) (bs ''true'') (Some JSON_CONTENT_TYPE)
      = Inr \<lparr>payload = bs ''true'', kind = Json\<rparr>"
    by code_simp
  have m: "parse_percent_encoded_key demo_lib (bs ''m'') = Inr (Key (bs ''m''))"
    by (simp add: demo_parse bs_def MAX_KEY_BYTES_def)
  have j: "json_value_to_body demo_lib (JBool True) = Inr (bs ''true'', Some JSON_CONTENT_TYPE)"
    by (simp add: demo_lib_def)
  show ?thesis
    using v m j by (simp add: demo_items_def demo_ops_def demo_parse_n resolve_ttl_def)
qed

theorem txn_request_all_or_nothing_witness:
  "\<exists>st'. execute_txn demo_lib demo_app (\<lambda>_. 0) mem_store demo_admin (bs ''demo'') = (Inr (status_response 204), st')
     \<and> abs_entry wire_codec (mem_view (st_db st')) demo_bucket =
         txn_effects demo_ops (abs_entry wire_codec (mem_view (st_db mem_store)) demo_bucket)"
proof -
  have items: "hl_txn_from_slice demo_lib (bs ''demo'') = Some demo_items"
    by (simp add: demo_lib_def demo_items_def)
  obtain st' where "fjall_apply_batch mem_env mem_store demo_bucket demo_ops = (Inr (), st')"
    using mem_batch_total [OF mem_store_unpoisoned] by blast
  then have ex: "execute_txn demo_lib demo_app (\<lambda>_. 0) mem_store demo_admin (bs ''demo'') = (Inr (status_response 204), st')"
    using items demo_txn_ops by (simp add: execute_txn_def TxnService_execute_def demo_items_def)
  have "time_valid 0" by code_simp
  then show ?thesis
    using txn_request_all_or_nothing [OF mem_store.fjall_store_axioms _ _ _ _ demo_ok(1) ex] demo_ok(1) ex items demo_txn_ops
    by (simp add: wire_codec_def Let_def)
qed

text \<open>
  \<open>HEAD\<close> mirrors \<open>GET\<close>: on every request it gives the same status, the same content type
  and the same refusals, with an empty body.
\<close>

lemma head_mirrors_get:
  "head_key L A now st auth key =
     (case get_key L A now st auth key of Inl r \<Rightarrow> Inl r | Inr r \<Rightarrow> Inr (without_body r))"
  by (auto simp: head_key_def get_key_def stored_value_response_def bytes_response_def without_body_def
      split: sum.splits)

end
