(* ===== verification/Http_Buckets.thy ===== *)
theory Http_Buckets
  imports Http_Keys
begin

text \<open>
  The handlers on buckets (\<open>keydock-http/src/routes/buckets.rs\<close>) and on tokens
  (\<open>tokens.rs\<close>): creation with its derived anonymous flags, the policy patch, the public view
  of a policy, listings with their prefixes and formats, and the minting of temporary
  tokens.
\<close>

section \<open>Views of a policy\<close>

definition DEFAULT_BUCKET_TTL_SECS :: u64 where "DEFAULT_BUCKET_TTL_SECS = 604800"

record anonymous_access_view =
  av_read :: bool
  av_write :: bool
  av_enumerate :: bool
  av_delete :: bool

definition anonymous_view_of :: "permission \<Rightarrow> anonymous_access_view" where
  "anonymous_view_of p =
     \<lparr>av_read = p_read p, av_write = p_write p, av_enumerate = p_enumerate p, av_delete = p_delete p\<rparr>"

record bucket_policy_public =
  pv_default_ttl :: "u64 option"
  pv_has_secret_key :: bool
  pv_has_read_key :: bool
  pv_has_write_key :: bool
  pv_has_signing_key :: bool
  pv_signing_key_generation :: u64
  pv_anonymous_access :: anonymous_access_view

definition public_policy_view :: "bucket_policy \<Rightarrow> bucket_policy_public" where
  "public_policy_view policy =
     (let presence = presence_of policy in
      \<lparr>pv_default_ttl = default_ttl_secs policy,
       pv_has_secret_key = has_secret_key presence,
       pv_has_read_key = has_read_key presence,
       pv_has_write_key = has_write_key presence,
       pv_has_signing_key = (signing_key policy \<noteq> None),
       pv_signing_key_generation = signing_key_generation policy,
       pv_anonymous_access = anonymous_view_of (anonymous_access policy)\<rparr>)"

definition public_json :: "bucket_policy_public \<Rightarrow> json" where
  "public_json v =
     JObject
       ((case pv_default_ttl v of None \<Rightarrow> [] | Some t \<Rightarrow> [(bs ''default_ttl'', JInt (uint t))]) @
        [(bs ''has_secret_key'', JBool (pv_has_secret_key v)), (bs ''has_read_key'', JBool (pv_has_read_key v)),
         (bs ''has_write_key'', JBool (pv_has_write_key v)), (bs ''has_signing_key'', JBool (pv_has_signing_key v)),
         (bs ''signing_key_generation'', JInt (uint (pv_signing_key_generation v))),
         (bs ''anonymous_access'',
          JObject [(bs ''read'', JBool (av_read (pv_anonymous_access v))),
            (bs ''write'', JBool (av_write (pv_anonymous_access v))),
            (bs ''enumerate'', JBool (av_enumerate (pv_anonymous_access v))),
            (bs ''delete'', JBool (av_delete (pv_anonymous_access v)))])])"

section \<open>Requests\<close>

record create_bucket_form =
  cf_email :: str
  cf_secret_key :: "str option"
  cf_read_key :: "str option"
  cf_write_key :: "str option"
  cf_signing_key :: "str option"
  cf_default_ttl :: "u64 option"

definition default_patch :: update_policy_json where
  "default_patch =
     \<lparr>up_secret_key = None, up_read_key = None, up_write_key = None, up_signing_key = None, up_default_ttl = None\<rparr>"

record list_bucket_params =
  lp_prefix :: "str option"
  lp_limit :: "nat option"
  lp_skip :: "nat option"
  lp_reverse :: "bool option"
  lp_values :: "bool option"
  lp_format :: "str option"

datatype list_format = FText | FJson | FJsonl

definition none_if_empty :: "str option \<Rightarrow> str option" where
  "none_if_empty s = (case s of None \<Rightarrow> None | Some v \<Rightarrow> if v = [] then None else Some v)"

definition hash_api_key_or_fail :: "http_lib \<Rightarrow> bytes \<Rightarrow> str \<Rightarrow> response + bytes" where
  "hash_api_key_or_fail L root_key raw =
     (case hash_credential (hl_crypto L) raw root_key of Inl _ \<Rightarrow> Inl internal_error | Inr h \<Rightarrow> Inr h)"

definition recompute_anonymous_access :: "bucket_policy \<Rightarrow> permission" where
  "recompute_anonymous_access policy =
     (let presence = presence_of policy in
      anonymous_from_keys (has_secret_key presence) (has_read_key presence) (has_write_key presence))"

definition combine_scoped_prefix :: "bytes \<Rightarrow> bytes option \<Rightarrow> bytes option" where
  "combine_scoped_prefix scope requested =
     (case requested of
        None \<Rightarrow> Some scope
      | Some req \<Rightarrow>
          if starts_with req scope then Some req
          else if starts_with scope req then Some scope
          else None)"

definition resolve_list_format :: "http_lib \<Rightarrow> list_bucket_params \<Rightarrow> bytes option \<Rightarrow> response + list_format" where
  "resolve_list_format L params accept_header =
     (case lp_format params of
        Some f \<Rightarrow>
          (let l = to_ascii_lowercase f in
           if l = bs ''text'' then Inr FText
           else if l = bs ''json'' then Inr FJson
           else if l = bs ''jsonl'' then Inr FJsonl
           else Inl not_acceptable)
      | None \<Rightarrow>
          (case (case accept_header of None \<Rightarrow> None | Some h \<Rightarrow> hl_to_str L h) of
             None \<Rightarrow> Inr FText
           | Some accept \<Rightarrow>
               if contains_sub accept (bs ''application/json'') then Inr FJson
               else if contains_sub accept (bs ''application/x-ndjson'') \<or> contains_sub accept (bs ''application/ndjson'')
               then Inr FJsonl
               else if contains_sub accept (bs ''text/plain'') then Inr FText
               else Inr FText))"

definition key_to_json_string :: "key \<Rightarrow> str" where
  "key_to_json_string k = from_utf8_lossy (as_bytes k)"

definition replace_byte :: "byte \<Rightarrow> bytes \<Rightarrow> str \<Rightarrow> str" where
  "replace_byte c r s = concat (map (\<lambda>x. if x = c then r else [x]) s)"

definition escape_text_segment :: "str \<Rightarrow> str" where
  "escape_text_segment s = replace_byte 0x0D [0x5C, 0x72] (replace_byte 0x0A [0x5C, 0x6E] s)"

definition is_minimally_valid_email :: "str \<Rightarrow> bool" where
  "is_minimally_valid_email raw =
     (let trimmed = trim raw in
      if trimmed = [] then False
      else
        (case split_once 0x40 trimmed of
           None \<Rightarrow> False
         | Some (local, domain) \<Rightarrow>
             if local = [] \<or> 0x40 \<in> set domain then False
             else if 0x2E \<notin> set domain \<or> starts_with domain [0x2E] \<or> ends_with domain [0x2E] then False
             else True))"

section \<open>Rendering a listing\<close>

definition stored_value_to_json :: "http_lib \<Rightarrow> stored_value \<Rightarrow> response + json" where
  "stored_value_to_json L v =
     (case kind v of
        Json \<Rightarrow> (case hl_json_from_slice L (payload v) of None \<Rightarrow> Inl internal_error | Some j \<Rightarrow> Inr j)
      | Int64 \<Rightarrow>
          (case from_utf8 (payload v) of
             None \<Rightarrow> Inl internal_error
           | Some s \<Rightarrow> (case parse_i64 (trim s) of None \<Rightarrow> Inl internal_error | Some n \<Rightarrow> Inr (JInt (sint n))))
      | Float64 \<Rightarrow>
          (case from_utf8 (payload v) of
             None \<Rightarrow> Inl internal_error
           | Some s \<Rightarrow>
               (case parse_f64 (trim s) of
                  None \<Rightarrow> Inl internal_error
                | Some n \<Rightarrow> if is_finite_f64 n then Inr (JFloat n) else Inl internal_error))
      | Utf8 \<Rightarrow> (case from_utf8 (payload v) of None \<Rightarrow> Inl internal_error | Some s \<Rightarrow> Inr (JString s))
      | Raw \<Rightarrow> Inr (JArray (map (\<lambda>b. JInt (uint b)) (payload v))))"

fun list_content_type :: "list_format \<Rightarrow> str" where
  "list_content_type FText = bs ''text/plain; charset=utf-8''"
| "list_content_type FJson = bs ''application/json''"
| "list_content_type FJsonl = bs ''application/x-ndjson''"

text \<open>One row of a listing with values, as the JSON formats need it.\<close>

definition row_json :: "http_lib \<Rightarrow> bool \<Rightarrow> list_entry \<Rightarrow> response + json" where
  "row_json L include_values row =
     (let k = JString (key_to_json_string (le_key row)) in
      if include_values then
        (case le_value row of
           None \<Rightarrow> Inl internal_error
         | Some val \<Rightarrow>
             (case stored_value_to_json L val of Inl r \<Rightarrow> Inl r | Inr jv \<Rightarrow> Inr (JArray [k, jv])))
      else Inr k)"

fun map_results :: "('a \<Rightarrow> 'e + 'b) \<Rightarrow> 'a list \<Rightarrow> 'e + 'b list" where
  "map_results f [] = Inr []"
| "map_results f (x # xs) =
     (case f x of
        Inl e \<Rightarrow> Inl e
      | Inr y \<Rightarrow> (case map_results f xs of Inl e \<Rightarrow> Inl e | Inr ys \<Rightarrow> Inr (y # ys)))"

definition text_segment :: "bool \<Rightarrow> list_entry \<Rightarrow> response + str" where
  "text_segment include_values row =
     (let esc_key = escape_text_segment (key_to_json_string (le_key row)) in
      if include_values then
        (case le_value row of
           None \<Rightarrow> Inl internal_error
         | Some val \<Rightarrow> Inr (esc_key @ [0x3D] @ escape_text_segment (from_utf8_lossy (payload val))))
      else Inr esc_key)"

fun join_lines :: "str list \<Rightarrow> str" where
  "join_lines [] = []"
| "join_lines [s] = s"
| "join_lines (s # t # rest) = s @ [0x0A] @ join_lines (t # rest)"

definition render_list_text :: "list_entry list \<Rightarrow> bool \<Rightarrow> response + bytes" where
  "render_list_text entries include_values =
     (case map_results (text_segment include_values) entries of Inl r \<Rightarrow> Inl r | Inr segs \<Rightarrow> Inr (join_lines segs))"

definition render_list_json :: "http_lib \<Rightarrow> list_entry list \<Rightarrow> bool \<Rightarrow> response + bytes" where
  "render_list_json L entries include_values =
     (case map_results (row_json L include_values) entries of
        Inl r \<Rightarrow> Inl r
      | Inr rows \<Rightarrow> (case hl_json_to_vec L (JArray rows) of None \<Rightarrow> Inl internal_error | Some b \<Rightarrow> Inr b))"

definition jsonl_chunk :: "http_lib \<Rightarrow> bool \<Rightarrow> list_entry \<Rightarrow> response + bytes" where
  "jsonl_chunk L include_values row =
     (case row_json L include_values row of
        Inl r \<Rightarrow> Inl r
      | Inr line \<Rightarrow> (case hl_json_to_vec L line of None \<Rightarrow> Inl internal_error | Some b \<Rightarrow> Inr (b @ [0x0A])))"

definition render_list_jsonl :: "http_lib \<Rightarrow> list_entry list \<Rightarrow> bool \<Rightarrow> response + bytes" where
  "render_list_jsonl L entries include_values =
     (case map_results (jsonl_chunk L include_values) entries of Inl r \<Rightarrow> Inl r | Inr chunks \<Rightarrow> Inr (concat chunks))"

fun render_list_body :: "http_lib \<Rightarrow> list_format \<Rightarrow> list_entry list \<Rightarrow> bool \<Rightarrow> response + bytes" where
  "render_list_body L FText entries include_values = render_list_text entries include_values"
| "render_list_body L FJson entries include_values = render_list_json L entries include_values"
| "render_list_body L FJsonl entries include_values = render_list_jsonl L entries include_values"

section \<open>Handlers\<close>

definition hash_opt :: "http_lib \<Rightarrow> bytes \<Rightarrow> str option \<Rightarrow> response + bytes option" where
  "hash_opt L root_key raw =
     (case raw of
        None \<Rightarrow> Inr None
      | Some s \<Rightarrow> (case hash_api_key_or_fail L root_key s of Inl r \<Rightarrow> Inl r | Inr h \<Rightarrow> Inr (Some h)))"

text \<open>
  \<open>uuid\<close> is the text of the fresh UUID; \<open>BucketId::new(..).expect(..)\<close> panics on an empty one.
\<close>

definition create_bucket ::
  "http_lib \<Rightarrow> 'st app_state \<Rightarrow> str \<Rightarrow> 'st \<Rightarrow> create_bucket_form \<Rightarrow> (response + response) run \<times> 'st" where
  "create_bucket L A uuid st form =
     (if \<not> is_minimally_valid_email (cf_email form) then (Done (Inl bad_request), st)
      else
        (let secret_key = none_if_empty (cf_secret_key form);
             read_key = none_if_empty (cf_read_key form);
             write_key = none_if_empty (cf_write_key form);
             sgn_key = none_if_empty (cf_signing_key form);
             anonymous = anonymous_from_keys (secret_key \<noteq> None) (read_key \<noteq> None) (write_key \<noteq> None);
             rk = st_root_key A
         in case hash_opt L rk secret_key of
              Inl r \<Rightarrow> (Done (Inl r), st)
            | Inr secret_hash \<Rightarrow>
                (case hash_opt L rk read_key of
                   Inl r \<Rightarrow> (Done (Inl r), st)
                 | Inr read_hash \<Rightarrow>
                     (case hash_opt L rk write_key of
                        Inl r \<Rightarrow> (Done (Inl r), st)
                      | Inr write_hash \<Rightarrow>
                          (let policy =
                             \<lparr>default_ttl_secs = Some (unwrap_or (cf_default_ttl form) DEFAULT_BUCKET_TTL_SECS),
                              anonymous_access = anonymous, secret_key_hash = secret_hash,
                              read_key_hash = read_hash, write_key_hash = write_hash,
                              signing_key = sgn_key, signing_key_generation = 0\<rparr>
                           in case BucketId_new uuid of
                                Inl _ \<Rightarrow> (Panicked, st)
                              | Inr i \<Rightarrow>
                                  (let (res, st') = br_create (st_buckets A) st i policy
                                   in (Done (case spawn_usecase (Done res) of
                                               Inl r \<Rightarrow> Inl r
                                             | Inr _ \<Rightarrow> Inr (bytes_response 200 (bs ''text/plain; charset=utf-8'') (as_str i))),
                                       st'))))))) "

text \<open>The prefix a listing is limited to; \<open>None\<close> when token scope and request do not meet.\<close>

definition list_prefix_for :: "bucket_auth \<Rightarrow> str option \<Rightarrow> bytes option option" where
  "list_prefix_for auth requested =
     (case ba_identity auth of
        Scoped _ key_prefix \<Rightarrow>
          if key_prefix \<noteq> [] then map_option Some (combine_scoped_prefix key_prefix requested) else Some requested
      | _ \<Rightarrow> Some requested)"

definition list_bucket ::
  "http_lib \<Rightarrow> 'st app_state \<Rightarrow> instant \<Rightarrow> 'st \<Rightarrow> bucket_auth \<Rightarrow> list_bucket_params \<Rightarrow> bytes option \<Rightarrow> response + response" where
  "list_bucket L A now st auth params accept_header =
     (case require_enumerate auth of
        Inl r \<Rightarrow> Inl r
      | Inr _ \<Rightarrow>
          (case resolve_list_format L params accept_header of
             Inl r \<Rightarrow> Inl r
           | Inr fmt \<Rightarrow>
               (let include_values = unwrap_or (lp_values params) False in
                case list_prefix_for auth (lp_prefix params) of
                  None \<Rightarrow>
                    (case render_list_body L fmt [] include_values of
                       Inl r \<Rightarrow> Inl r
                     | Inr body \<Rightarrow> Inr (bytes_response 200 (list_content_type fmt) body))
                | Some prefix_for_repo \<Rightarrow>
                    (case spawn_usecase (KeyService_list (st_keys A) now st (ba_bucket_id auth)
                             \<lparr>li_prefix = prefix_for_repo, li_limit = lp_limit params, li_skip = lp_skip params,
                              li_reverse = lp_reverse params, li_include_values = Some include_values\<rparr>) of
                       Inl r \<Rightarrow> Inl r
                     | Inr entries \<Rightarrow>
                         (case render_list_body L fmt entries include_values of
                            Inl r \<Rightarrow> Inl r
                          | Inr body \<Rightarrow> Inr (bytes_response 200 (list_content_type fmt) body))))))"

record policy_patch_audit =
  pa_secret_key_rotated :: bool
  pa_read_key_changed :: bool
  pa_write_key_changed :: bool
  pa_signing_key_changed :: bool
  pa_signing_key_cleared :: bool
  pa_default_ttl_changed :: bool

definition apply_nullable_hash :: "http_lib \<Rightarrow> str option \<Rightarrow> bytes \<Rightarrow> response + bytes option" where
  "apply_nullable_hash L v root_key =
     (case v of
        None \<Rightarrow> Inr None
      | Some s \<Rightarrow>
          if s = [] then Inl bad_request
          else (case hash_api_key_or_fail L root_key s of Inl r \<Rightarrow> Inl r | Inr h \<Rightarrow> Inr (Some h)))"

text \<open>The patch, field by field in the order of the code.\<close>

definition patch_secret :: "http_lib \<Rightarrow> bytes \<Rightarrow> str option option \<Rightarrow> bucket_policy \<Rightarrow> response + bucket_policy" where
  "patch_secret L root_key field policy =
     (case field of
        None \<Rightarrow> Inr policy
      | Some None \<Rightarrow> Inl bad_request
      | Some (Some s) \<Rightarrow>
          if s = [] then Inl bad_request
          else (case hash_api_key_or_fail L root_key s of
                  Inl r \<Rightarrow> Inl r | Inr h \<Rightarrow> Inr (policy\<lparr>secret_key_hash := Some h\<rparr>)))"

definition patch_read :: "http_lib \<Rightarrow> bytes \<Rightarrow> str option option \<Rightarrow> bucket_policy \<Rightarrow> response + bucket_policy" where
  "patch_read L root_key field policy =
     (case field of
        None \<Rightarrow> Inr policy
      | Some inner \<Rightarrow>
          (case apply_nullable_hash L inner root_key of
             Inl r \<Rightarrow> Inl r | Inr h \<Rightarrow> Inr (policy\<lparr>read_key_hash := h\<rparr>)))"

definition patch_write :: "http_lib \<Rightarrow> bytes \<Rightarrow> str option option \<Rightarrow> bucket_policy \<Rightarrow> response + bucket_policy" where
  "patch_write L root_key field policy =
     (case field of
        None \<Rightarrow> Inr policy
      | Some inner \<Rightarrow>
          (case apply_nullable_hash L inner root_key of
             Inl r \<Rightarrow> Inl r | Inr h \<Rightarrow> Inr (policy\<lparr>write_key_hash := h\<rparr>)))"

definition patch_signing :: "str option option \<Rightarrow> bucket_policy \<Rightarrow> response + bucket_policy" where
  "patch_signing field policy =
     (case field of
        None \<Rightarrow> Inr policy
      | Some inner \<Rightarrow>
          if inner = Some [] then Inl bad_request
          else
            (let changed = (signing_key policy \<noteq> inner);
                 policy' = (if changed then policy\<lparr>signing_key_generation := signing_key_generation policy + 1\<rparr> else policy)
             in Inr (policy'\<lparr>signing_key := inner\<rparr>)))"

definition patch_ttl :: "u64 option option \<Rightarrow> bucket_policy \<Rightarrow> bucket_policy" where
  "patch_ttl field policy = (case field of None \<Rightarrow> policy | Some inner \<Rightarrow> policy\<lparr>default_ttl_secs := inner\<rparr>)"

definition patch_audit :: "update_policy_json \<Rightarrow> bucket_policy \<Rightarrow> policy_patch_audit" where
  "patch_audit patch policy =
     \<lparr>pa_secret_key_rotated = (up_secret_key patch \<noteq> None),
      pa_read_key_changed = (up_read_key patch \<noteq> None),
      pa_write_key_changed = (up_write_key patch \<noteq> None),
      pa_signing_key_changed = (case up_signing_key patch of None \<Rightarrow> False | Some k \<Rightarrow> signing_key policy \<noteq> k),
      pa_signing_key_cleared = (up_signing_key patch = Some None),
      pa_default_ttl_changed = (up_default_ttl patch \<noteq> None)\<rparr>"

definition apply_policy_patch ::
  "http_lib \<Rightarrow> bucket_policy \<Rightarrow> update_policy_json \<Rightarrow> bytes \<Rightarrow> response + policy_patch_audit \<times> bucket_policy" where
  "apply_policy_patch L policy patch root_key =
     (case patch_secret L root_key (up_secret_key patch) policy of
        Inl r \<Rightarrow> Inl r
      | Inr p1 \<Rightarrow>
          (case patch_read L root_key (up_read_key patch) p1 of
             Inl r \<Rightarrow> Inl r
           | Inr p2 \<Rightarrow>
               (case patch_write L root_key (up_write_key patch) p2 of
                  Inl r \<Rightarrow> Inl r
                | Inr p3 \<Rightarrow>
                    (case patch_signing (up_signing_key patch) p3 of
                       Inl r \<Rightarrow> Inl r
                     | Inr p4 \<Rightarrow> Inr (patch_audit patch policy, patch_ttl (up_default_ttl patch) p4)))))"

definition read_policy :: "'st app_state \<Rightarrow> 'st \<Rightarrow> bucket_id \<Rightarrow> response + bucket_policy" where
  "read_policy A st b =
     (case spawn_usecase (Done (br_get_policy (st_buckets A) st b)) of
        Inl r \<Rightarrow> Inl r
      | Inr None \<Rightarrow> Inl not_found
      | Inr (Some policy) \<Rightarrow> Inr policy)"

definition update_policy ::
  "http_lib \<Rightarrow> 'st app_state \<Rightarrow> 'st \<Rightarrow> bucket_auth \<Rightarrow> bytes \<Rightarrow> (response + response) \<times> 'st" where
  "update_policy L A st auth body =
     (case require_admin auth of
        Inl r \<Rightarrow> (Inl r, st)
      | Inr _ \<Rightarrow>
          (case (if body = [] then Some default_patch else hl_patch_from_slice L body) of
             None \<Rightarrow> (Inl bad_request, st)
           | Some patch \<Rightarrow>
               (case read_policy A st (ba_bucket_id auth) of
                  Inl r \<Rightarrow> (Inl r, st)
                | Inr policy \<Rightarrow>
                    (case apply_policy_patch L policy patch (st_root_key A) of
                       Inl r \<Rightarrow> (Inl r, st)
                     | Inr (_, policy') \<Rightarrow>
                         (let policy'' = policy'\<lparr>anonymous_access := recompute_anonymous_access policy'\<rparr>;
                              (res, st') = br_create (st_buckets A) st (ba_bucket_id auth) policy''
                          in (case spawn_usecase (Done res) of
                                Inl r \<Rightarrow> Inl r
                              | Inr _ \<Rightarrow> Inr (status_response 204), st'))))))"

definition delete_bucket :: "'st app_state \<Rightarrow> 'st \<Rightarrow> bucket_auth \<Rightarrow> (response + response) \<times> 'st" where
  "delete_bucket A st auth =
     (case require_admin auth of
        Inl r \<Rightarrow> (Inl r, st)
      | Inr _ \<Rightarrow>
          (let (res, st') = br_delete (st_buckets A) st (ba_bucket_id auth)
           in (case spawn_usecase (Done res) of Inl r \<Rightarrow> Inl r | Inr _ \<Rightarrow> Inr (status_response 204), st')))"

definition get_bucket_policy :: "'st app_state \<Rightarrow> 'st \<Rightarrow> bucket_auth \<Rightarrow> response + response" where
  "get_bucket_policy A st auth =
     (case require_admin auth of
        Inl r \<Rightarrow> Inl r
      | Inr _ \<Rightarrow>
          (case read_policy A st (ba_bucket_id auth) of
             Inl r \<Rightarrow> Inl r
           | Inr policy \<Rightarrow> Inr (json_response 200 (public_json (public_policy_view policy)))))"

definition head_bucket :: "bucket_auth \<Rightarrow> response + response" where
  "head_bucket auth = (case require_admin auth of Inl r \<Rightarrow> Inl r | Inr _ \<Rightarrow> Inr (status_response 200))"

section \<open>Tokens\<close>

record create_token_form =
  tf_prefix :: str
  tf_permissions :: str
  tf_ttl :: i64

fun add_permissions :: "permission \<Rightarrow> str list \<Rightarrow> response + permission" where
  "add_permissions p [] = Inr p"
| "add_permissions p (raw # rest) =
     (let part = trim raw in
      if part = [] then add_permissions p rest
      else if part = bs ''read'' then add_permissions (p\<lparr>p_read := True\<rparr>) rest
      else if part = bs ''write'' then add_permissions (p\<lparr>p_write := True\<rparr>) rest
      else if part = bs ''enumerate'' then add_permissions (p\<lparr>p_enumerate := True\<rparr>) rest
      else if part = bs ''delete'' then add_permissions (p\<lparr>p_delete := True\<rparr>) rest
      else Inl bad_request)"

definition parse_permissions :: "str \<Rightarrow> response + permission" where
  "parse_permissions raw =
     (case add_permissions NONE (split_on 0x2C raw) of
        Inl r \<Rightarrow> Inl r
      | Inr p \<Rightarrow> if p = NONE then Inl bad_request else Inr p)"

definition create_token ::
  "http_lib \<Rightarrow> 'st app_state \<Rightarrow> instant \<Rightarrow> 'st \<Rightarrow> bucket_auth \<Rightarrow> create_token_form \<Rightarrow> response + str" where
  "create_token L A now st auth form =
     (case require_admin auth of
        Inl r \<Rightarrow> Inl r
      | Inr _ \<Rightarrow>
          (case read_policy A st (ba_bucket_id auth) of
             Inl r \<Rightarrow> Inl r
           | Inr policy \<Rightarrow>
               (case signing_key policy of
                  None \<Rightarrow> Inl service_unavailable
                | Some key \<Rightarrow>
                    if sint (tf_ttl form) \<le> 0 then Inl bad_request
                    else if tf_prefix form = [] then Inl bad_request
                    else
                      (case checked_add_secs (hl_time L) now (tf_ttl form) of
                         None \<Rightarrow> Inl bad_request
                       | Some ex \<Rightarrow>
                           (case parse_permissions (tf_permissions form) of
                              Inl r \<Rightarrow> Inl r
                            | Inr permissions \<Rightarrow>
                                (case mint (hl_crypto L)
                                   \<lparr>c_version = 1, c_bucket = ba_bucket_id auth,
                                    c_bucket_generation = signing_key_generation policy,
                                    c_allowed_prefix = tf_prefix form, c_permissions = permissions,
                                    c_iat = now, c_exp = ex\<rparr> key of
                                   Inl _ \<Rightarrow> Inl service_unavailable
                                 | Inr access_token \<Rightarrow> Inr access_token))))))"

section \<open>Lemmas\<close>

definition under :: "bytes option \<Rightarrow> key \<Rightarrow> bool" where
  "under p k \<longleftrightarrow> (case p of None \<Rightarrow> True | Some q \<Rightarrow> starts_with (as_bytes k) q)"

lemma combine_scoped_prefix_meet:
  "(case combine_scoped_prefix scope req of None \<Rightarrow> False | Some p \<Rightarrow> starts_with x p) \<longleftrightarrow>
     starts_with x scope \<and> (case req of None \<Rightarrow> True | Some q \<Rightarrow> starts_with x q)"
proof (cases req)
  case (Some q)
  then show ?thesis
    using starts_with_linear [of x scope q] starts_with_trans [of x q scope] starts_with_trans [of x scope q]
    by (auto simp: combine_scoped_prefix_def)
qed (simp add: combine_scoped_prefix_def)

lemma list_prefix_for_meet:
  "(case list_prefix_for auth req of None \<Rightarrow> False | Some p \<Rightarrow> under p k) \<longleftrightarrow>
     under req k \<and> starts_with (as_bytes k) (snd (effective auth))"
proof (cases "ba_identity auth")
  case (Scoped p pre)
  then show ?thesis
    using combine_scoped_prefix_meet [where scope = pre and req = req and x = "as_bytes k"]
    by (cases "pre = []"; cases "combine_scoped_prefix pre req")
      (auto simp: list_prefix_for_def under_def split: option.splits)
qed (auto simp: list_prefix_for_def)

lemma recompute_consistent:
  "policy_consistent (p\<lparr>anonymous_access := recompute_anonymous_access p\<rparr>)"
  by (simp add: policy_consistent_def flags_agree_def recompute_anonymous_access_def presence_of_def Let_def)

lemma hash_opt_Some: "hash_opt L rk raw = Inr h \<Longrightarrow> (h = None) = (raw = None)"
  by (auto simp: hash_opt_def split: option.splits sum.splits)

text \<open>What one field of a patch may do.\<close>

lemma patch_secret_Inr:
  "patch_secret L rk f p = Inr p' \<Longrightarrow>
     p' = p\<lparr>secret_key_hash := secret_key_hash p'\<rparr> \<and> (f = None \<longrightarrow> p' = p)
     \<and> (f \<noteq> None \<longrightarrow> secret_key_hash p' \<noteq> None)"
  by (auto simp: patch_secret_def split: option.splits sum.splits if_splits)

lemma patch_read_Inr:
  "patch_read L rk f p = Inr p' \<Longrightarrow> p' = p\<lparr>read_key_hash := read_key_hash p'\<rparr> \<and> (f = None \<longrightarrow> p' = p)"
  by (auto simp: patch_read_def split: option.splits sum.splits)

lemma patch_write_Inr:
  "patch_write L rk f p = Inr p' \<Longrightarrow> p' = p\<lparr>write_key_hash := write_key_hash p'\<rparr> \<and> (f = None \<longrightarrow> p' = p)"
  by (auto simp: patch_write_def split: option.splits sum.splits)

lemma patch_signing_Inr:
  "patch_signing f p = Inr p' \<Longrightarrow>
     p' = p\<lparr>signing_key := (case f of None \<Rightarrow> signing_key p | Some k \<Rightarrow> k),
       signing_key_generation := signing_key_generation p +
         (if (case f of None \<Rightarrow> False | Some k \<Rightarrow> signing_key p \<noteq> k) then 1 else 0)\<rparr>"
  by (auto simp: patch_signing_def Let_def split: option.splits if_splits)

lemma apply_policy_patch_cases:
  assumes "apply_policy_patch L p patch rk = Inr (audit, p')"
  obtains p1 p2 p3 p4 where "patch_secret L rk (up_secret_key patch) p = Inr p1"
    and "patch_read L rk (up_read_key patch) p1 = Inr p2" and "patch_write L rk (up_write_key patch) p2 = Inr p3"
    and "patch_signing (up_signing_key patch) p3 = Inr p4" and "p' = patch_ttl (up_default_ttl patch) p4"
  using assms by (auto simp: apply_policy_patch_def split: sum.splits)

text \<open>The whole patch: each field changes only on request, and the secret key stays.\<close>

definition patched :: "update_policy_json \<Rightarrow> bucket_policy \<Rightarrow> bucket_policy \<Rightarrow> bool" where
  "patched patch p p' \<longleftrightarrow>
     (up_secret_key patch = None \<longrightarrow> secret_key_hash p' = secret_key_hash p)
     \<and> (secret_key_hash p \<noteq> None \<longrightarrow> secret_key_hash p' \<noteq> None)
     \<and> (up_read_key patch = None \<longrightarrow> read_key_hash p' = read_key_hash p)
     \<and> (up_write_key patch = None \<longrightarrow> write_key_hash p' = write_key_hash p)
     \<and> signing_key p' = (case up_signing_key patch of None \<Rightarrow> signing_key p | Some k \<Rightarrow> k)
     \<and> signing_key_generation p' = signing_key_generation p + (if signing_key p' \<noteq> signing_key p then 1 else 0)
     \<and> default_ttl_secs p' = (case up_default_ttl patch of None \<Rightarrow> default_ttl_secs p | Some t \<Rightarrow> t)"

lemma apply_policy_patch_patched:
  assumes "apply_policy_patch L p patch rk = Inr (audit, p')"
  shows "patched patch p p'"
proof -
  obtain p1 p2 p3 p4 where c: "patch_secret L rk (up_secret_key patch) p = Inr p1"
    "patch_read L rk (up_read_key patch) p1 = Inr p2" "patch_write L rk (up_write_key patch) p2 = Inr p3"
    "patch_signing (up_signing_key patch) p3 = Inr p4" "p' = patch_ttl (up_default_ttl patch) p4"
    by (rule apply_policy_patch_cases [OF assms])
  note steps = patch_secret_Inr [OF c(1)] patch_read_Inr [OF c(2)] patch_write_Inr [OF c(3)] patch_signing_Inr [OF c(4)]
  obtain sh rh wh where p1: "p1 = p\<lparr>secret_key_hash := sh\<rparr>" and p2: "p2 = p1\<lparr>read_key_hash := rh\<rparr>"
    and p3: "p3 = p2\<lparr>write_key_hash := wh\<rparr>"
    using steps by metis
  have "up_secret_key patch = None \<Longrightarrow> sh = secret_key_hash p" and "up_secret_key patch \<noteq> None \<Longrightarrow> sh \<noteq> None"
    and "up_read_key patch = None \<Longrightarrow> rh = read_key_hash p" and "up_write_key patch = None \<Longrightarrow> wh = write_key_hash p"
    using steps(1) steps(2) steps(3) p1 p2 p3
    by (metis bucket_policy.select_convs bucket_policy.surjective bucket_policy.update_convs)+
  then show ?thesis
    using steps(4) c(5) p1 p2 p3
    by (auto simp: patched_def patch_ttl_def split: option.splits)
qed

definition request_page :: "list_bucket_params \<Rightarrow> 'a list \<Rightarrow> 'a list" where
  "request_page params rows =
     take (unwrap_or (lp_limit params) DEFAULT_LIMIT) (drop (unwrap_or (lp_skip params) 0)
       (if unwrap_or (lp_reverse params) False then rev rows else rows))"

text \<open>The keys a caller may see in a listing: live, under the request and under its scope.\<close>

definition visible ::
  "instant \<Rightarrow> bucket_auth \<Rightarrow> str option \<Rightarrow> (key \<Rightarrow> stored_entry option) \<Rightarrow> key \<Rightarrow> bool" where
  "visible now auth req m k \<longleftrightarrow>
     (under req k \<and> starts_with (as_bytes k) (snd (effective auth))) \<and> key_ok k
     \<and> (\<exists>en. m k = Some en \<and> live (Some now) en)"

lemma listed_keys:
  assumes "\<And>row. row \<in> set rows \<longleftrightarrow> listed opts m row"
  shows "k \<in> le_key ` set rows \<longleftrightarrow>
    key_ok k \<and> under (lo_prefix opts) k \<and> (\<exists>en. m k = Some en \<and> live (lo_expires_before opts) en)"
proof
  assume "k \<in> le_key ` set rows"
  then show "key_ok k \<and> under (lo_prefix opts) k \<and> (\<exists>en. m k = Some en \<and> live (lo_expires_before opts) en)"
    using assms by (auto simp: listed_def under_def)
next
  assume k: "key_ok k \<and> under (lo_prefix opts) k \<and> (\<exists>en. m k = Some en \<and> live (lo_expires_before opts) en)"
  then obtain en where en: "m k = Some en" "live (lo_expires_before opts) en" by blast
  let ?row = "\<lparr>le_key = k, le_value = (if lo_include_values opts then Some (se_value en) else None)\<rparr>"
  have "listed opts m ?row" using k en by (cases "lo_prefix opts") (auto simp: listed_def under_def)
  then show "k \<in> le_key ` set rows" using assms by force
qed

lemma map_results_fails:
  assumes "x \<in> set xs" and "f x = Inl e" and "\<And>y e'. f y = Inl e' \<Longrightarrow> e' = e"
  shows "map_results f xs = Inl e"
  using assms(1)
proof (induction xs)
  case (Cons y ys)
  show ?case
  proof (cases "f y")
    case (Inl e')
    then show ?thesis using assms(3) [OF Inl] by simp
  next
    case (Inr z)
    then have "x \<in> set ys" using Cons.prems assms(2) by auto
    then show ?thesis using Inr Cons.IH by simp
  qed
qed simp

lemma create_bucket_policy:
  assumes "fjall_backend S view valid J" and "st_buckets A = fjall_buckets S J"
    and "create_bucket L A uuid st form = (Done (Inr r), st')"
  shows "\<exists>p. abs_policy J (view (st_db st')) = (abs_policy J (view (st_db st)))(BucketId uuid := Some p)
    \<and> abs_entry (sv_codec S) (view (st_db st')) = abs_entry (sv_codec S) (view (st_db st))
    \<and> r = bytes_response 200 (bs ''text/plain; charset=utf-8'') uuid \<and> uuid \<noteq> []
    \<and> hash_opt L (st_root_key A) (none_if_empty (cf_secret_key form)) = Inr (secret_key_hash p)
    \<and> hash_opt L (st_root_key A) (none_if_empty (cf_read_key form)) = Inr (read_key_hash p)
    \<and> hash_opt L (st_root_key A) (none_if_empty (cf_write_key form)) = Inr (write_key_hash p)
    \<and> signing_key p = none_if_empty (cf_signing_key form) \<and> signing_key_generation p = 0
    \<and> default_ttl_secs p = Some (unwrap_or (cf_default_ttl form) 604800)
    \<and> policy_consistent p \<and> is_minimally_valid_email (cf_email form)"
proof -
  obtain sh rh wh where h: "hash_opt L (st_root_key A) (none_if_empty (cf_secret_key form)) = Inr sh"
    "hash_opt L (st_root_key A) (none_if_empty (cf_read_key form)) = Inr rh"
    "hash_opt L (st_root_key A) (none_if_empty (cf_write_key form)) = Inr wh"
    using assms(3) by (auto simp: create_bucket_def Let_def split: if_splits sum.splits)
  let ?p = "\<lparr>default_ttl_secs = Some (unwrap_or (cf_default_ttl form) DEFAULT_BUCKET_TTL_SECS),
      anonymous_access = anonymous_from_keys (none_if_empty (cf_secret_key form) \<noteq> None)
        (none_if_empty (cf_read_key form) \<noteq> None) (none_if_empty (cf_write_key form) \<noteq> None),
      secret_key_hash = sh, read_key_hash = rh, write_key_hash = wh,
      signing_key = none_if_empty (cf_signing_key form), signing_key_generation = 0\<rparr>"
  have ok: "is_minimally_valid_email (cf_email form)" and u: "uuid \<noteq> []"
    and cr: "fjall_create_bucket S J st (BucketId uuid) ?p = (Inr (), st')"
    and r: "r = bytes_response 200 (bs ''text/plain; charset=utf-8'') uuid"
    using assms(2,3) h by (auto simp: create_bucket_def BucketId_new_def Let_def split: if_splits prod.splits sum.splits)
  have repo: "bucket_repository (fjall_buckets S J) (\<lambda>st. abs_policy J (view (st_db st)))
      (\<lambda>st. abs_entry (sv_codec S) (view (st_db st)))"
    by (rule fjall_backend.is_bucket_repository [OF assms(1)])
  have "abs_policy J (view (st_db st')) = (abs_policy J (view (st_db st)))(BucketId uuid := Some ?p)"
    and "abs_entry (sv_codec S) (view (st_db st')) = abs_entry (sv_codec S) (view (st_db st))"
    using bucket_repository.create_writes [OF repo, of st "BucketId uuid" ?p "()" st']
      bucket_repository.create_entries [OF repo, of st "BucketId uuid" ?p "Inr ()" st'] cr by simp_all
  moreover have "policy_consistent ?p"
    using hash_opt_Some [OF h(1)] hash_opt_Some [OF h(2)] hash_opt_Some [OF h(3)]
    by (simp add: policy_consistent_def flags_agree_def presence_of_def)
  ultimately show ?thesis
    using ok u r h by (intro exI [of _ ?p]) (simp add: DEFAULT_BUCKET_TTL_SECS_def)
qed

lemma created_bucket_exists:
  "fjall_backend S view valid J \<Longrightarrow> st_buckets A = fjall_buckets S J \<Longrightarrow>
     create_bucket L A uuid st form = (Done (Inr r), st') \<Longrightarrow>
     \<exists>p. abs_policy J (view (st_db st')) (BucketId uuid) = Some p"
  using create_bucket_policy by (metis fun_upd_same)

section \<open>Properties\<close>


definition demo_params :: list_bucket_params where
  "demo_params =
     \<lparr>lp_prefix = None, lp_limit = None, lp_skip = None, lp_reverse = None, lp_values = None, lp_format = None\<rparr>"

lemma demo_params_simps [simp]:
  "lp_prefix demo_params = None" "lp_limit demo_params = None" "lp_skip demo_params = None"
  "lp_reverse demo_params = None" "lp_values demo_params = None" "lp_format demo_params = None"
  by (simp_all add: demo_params_def)

lemma demo_list_bucket:
  "list_bucket demo_lib demo_app 0 mem_store demo_admin demo_params None
   = Inr (bytes_response 200 (bs ''text/plain; charset=utf-8'') [])"
proof -
  have "mem_entries [] = []" by (simp add: mem_entries_def)
  then show ?thesis
    by (simp add: list_bucket_def require_enumerate_def resolve_list_format_def list_prefix_for_def
        KeyService_list_def list_opts_of_def unwrap_or_def fjall_list_def DEFAULT_LIMIT_def
        mem_store_def render_list_text_def)
qed



lemma demo_update:
  assumes "fjall_create_bucket mem_env wire_policy mem_store demo_bucket demo_bucket_policy = (Inr (), st0)"
  shows "\<exists>st'. update_policy demo_lib demo_app st0 demo_admin [] = (Inr (status_response 204), st')"
proof -
  have "abs_policy wire_policy (mem_view (st_db st0)) demo_bucket = Some demo_bucket_policy"
    using mem_backend.bk.create_writes [of mem_store demo_bucket demo_bucket_policy "()" st0] assms by simp
  then have "fjall_get_policy mem_env wire_policy st0 demo_bucket = Inr (Some demo_bucket_policy)"
    by (auto simp: fjall_get_policy_def abs_policy_def mem_view_def split: option.splits sum.splits)
  moreover have "apply_policy_patch demo_lib demo_bucket_policy default_patch rk
      = Inr (patch_audit default_patch demo_bucket_policy, demo_bucket_policy)" for rk
    by (simp add: apply_policy_patch_def default_patch_def patch_secret_def patch_read_def patch_write_def
        patch_signing_def patch_ttl_def)
  moreover obtain st' where "fjall_create_bucket mem_env wire_policy st0 demo_bucket
      (demo_bucket_policy\<lparr>anonymous_access := recompute_anonymous_access demo_bucket_policy\<rparr>) = (Inr (), st')"
    using mem_create_total by blast
  ultimately show ?thesis
    by (simp add: update_policy_def read_policy_def require_admin_def)
qed


text \<open>
  A new bucket has the policy its form asks for: an accepted creation answers the new id
  and stores under it, and nowhere else, the keyed hashes of exactly the non-empty keys of
  the form, anonymous flags that agree with them, generation zero, and a default time to
  live of seven days unless the form gives one.  No entry changes.
\<close>

lemma create_bucket_stores_form:
  assumes "fjall_backend S view valid J" and "st_buckets A = fjall_buckets S J"
    and "create_bucket L A uuid st form = (Done (Inr r), st')"
  shows "\<exists>p. abs_policy J (view (st_db st')) = (abs_policy J (view (st_db st)))(BucketId uuid := Some p)
    \<and> abs_entry (sv_codec S) (view (st_db st')) = abs_entry (sv_codec S) (view (st_db st))
    \<and> r = bytes_response 200 (bs ''text/plain; charset=utf-8'') uuid \<and> uuid \<noteq> []
    \<and> hash_opt L (st_root_key A) (none_if_empty (cf_secret_key form)) = Inr (secret_key_hash p)
    \<and> hash_opt L (st_root_key A) (none_if_empty (cf_read_key form)) = Inr (read_key_hash p)
    \<and> hash_opt L (st_root_key A) (none_if_empty (cf_write_key form)) = Inr (write_key_hash p)
    \<and> signing_key p = none_if_empty (cf_signing_key form) \<and> signing_key_generation p = 0
    \<and> default_ttl_secs p = Some (unwrap_or (cf_default_ttl form) 604800)
    \<and> policy_consistent p \<and> is_minimally_valid_email (cf_email form)"
  by (rule create_bucket_policy [OF assms])

definition demo_form :: create_bucket_form where
  "demo_form = \<lparr>cf_email = bs ''a@b.c'', cf_secret_key = Some (bs ''admin''), cf_read_key = None,
     cf_write_key = Some [], cf_signing_key = None, cf_default_ttl = None\<rparr>"

lemma demo_create:
  "\<exists>st'. create_bucket demo_lib demo_app (bs ''b1'') mem_store demo_form
     = (Done (Inr (bytes_response 200 (bs ''text/plain; charset=utf-8'') (bs ''b1''))), st')"
proof -
  have e: "is_minimally_valid_email (cf_email demo_form)" by code_simp
  have h: "hash_opt demo_lib (bs ''root'') (Some (bs ''admin'')) = Inr (Some (bs ''root'' @ bs ''admin''))"
    by (simp add: hash_opt_def hash_api_key_or_fail_def hash_credential_def hmac_sha256_def demo_lib_def demo_crypto_def)
  have n: "hash_opt demo_lib rk None = Inr None" for rk by (simp add: hash_opt_def)
  have f: "none_if_empty (cf_secret_key demo_form) = Some (bs ''admin'')" "none_if_empty (cf_read_key demo_form) = None"
    "none_if_empty (cf_write_key demo_form) = None" "none_if_empty (cf_signing_key demo_form) = None"
    by (simp_all add: demo_form_def none_if_empty_def bs_def)
  have b: "BucketId_new (bs ''b1'') = Inr (BucketId (bs ''b1''))" by (simp add: BucketId_new_def bs_def)
  let ?pol = "\<lparr>default_ttl_secs = Some (unwrap_or (cf_default_ttl demo_form) DEFAULT_BUCKET_TTL_SECS),
      anonymous_access = anonymous_from_keys True False False, secret_key_hash = Some (bs ''root'' @ bs ''admin''),
      read_key_hash = None, write_key_hash = None, signing_key = None, signing_key_generation = 0\<rparr>"
  obtain st' where "fjall_create_bucket mem_env wire_policy mem_store (BucketId (bs ''b1'')) ?pol = (Inr (), st')"
    using mem_create_total by blast
  then show ?thesis using e h n f b by (simp add: create_bucket_def)
qed

lemma create_bucket_stores_form_example:
  "\<exists>st' p. create_bucket demo_lib demo_app (bs ''b1'') mem_store demo_form
       = (Done (Inr (bytes_response 200 (bs ''text/plain; charset=utf-8'') (bs ''b1''))), st')
     \<and> abs_policy wire_policy (mem_view (st_db st')) (BucketId (bs ''b1'')) = Some p \<and> policy_consistent p
     \<and> default_ttl_secs p = Some 604800"
proof -
  obtain st' where c: "create_bucket demo_lib demo_app (bs ''b1'') mem_store demo_form
       = (Done (Inr (bytes_response 200 (bs ''text/plain; charset=utf-8'') (bs ''b1''))), st')"
    using demo_create by blast
  from create_bucket_stores_form [OF mem_backend.fjall_backend_axioms _ c] c
  show ?thesis by (auto simp: fun_upd_apply unwrap_or_def demo_form_def)
qed


definition demo_token_form :: create_token_form where
  "demo_token_form = \<lparr>tf_prefix = bs ''user:'', tf_permissions = bs ''read, write'', tf_ttl = 5\<rparr>"

lemma demo_create_token:
  assumes "fjall_create_bucket mem_env wire_policy mem_store demo_bucket demo_bucket_policy = (Inr (), st0)"
  shows "\<exists>tok. create_token demo_lib demo_app 0 st0 demo_admin demo_token_form = Inr tok"
proof -
  have "abs_policy wire_policy (mem_view (st_db st0)) demo_bucket = Some demo_bucket_policy"
    using mem_backend.bk.create_writes [of mem_store demo_bucket demo_bucket_policy "()" st0] assms by simp
  then have "fjall_get_policy mem_env wire_policy st0 demo_bucket = Inr (Some demo_bucket_policy)"
    by (auto simp: fjall_get_policy_def abs_policy_def mem_view_def split: option.splits sum.splits)
  moreover have "parse_permissions (tf_permissions demo_token_form) = Inr (Permission_new True True False False)"
    by code_simp
  moreover have "checked_add_secs time_crate 0 (tf_ttl demo_token_form) = Some 5000000000" by code_simp
  moreover have "mint (hl_crypto demo_lib) c k \<noteq> Inl e" for c k e
    by (simp add: mint_def hmac_sha256_def demo_lib_def demo_crypto_def)
  moreover have "tf_prefix demo_token_form \<noteq> []" "\<not> sint (tf_ttl demo_token_form) \<le> 0"
    by (simp_all add: demo_token_form_def bs_def)
  ultimately show ?thesis
    by (auto simp: create_token_def read_policy_def require_admin_def demo_bucket_policy_def split: sum.splits)
qed


text \<open>
  The public view of a policy keeps the secrets: it is the same for any two policies that
  differ only in the content of their key hashes and signing key.
\<close>

lemma public_view_hides_secrets:
  "public_json (public_policy_view
     (p\<lparr>secret_key_hash := map_option f (secret_key_hash p), read_key_hash := map_option g (read_key_hash p),
        write_key_hash := map_option h (write_key_hash p), signing_key := map_option k (signing_key p)\<rparr>))
   = public_json (public_policy_view p)"
  by (simp add: public_policy_view_def presence_of_def)



end
