(* ===== verification/Router.thy ===== *)
theory Router
  imports Http_Buckets
begin

text \<open>
  \<open>keydock-http/src/router.rs\<close> and \<open>rate_limit.rs\<close>: which handler answers which method and
  path, behind which layers, and what a whole request does.  The routing engine of axum, its
  extractors for queries, forms and bodies, the CORS layer and the rate limiter are a
  parameter (\<open>axum_ops\<close>); the route table, the order of the layers and the composition of
  extractor and handler are the program's.
\<close>

section \<open>Requests\<close>

datatype http_method = GET | HEAD | POST | PUT | PATCH | DELETE | OPTIONS | OtherMethod str

record request =
  rq_method :: http_method
  rq_path :: str
  rq_query :: "str option"
  rq_authorization :: "bytes option"
  rq_content_type :: "bytes option"
  rq_accept :: "bytes option"
  rq_body :: bytes

text \<open>
  What a request reads from outside: the clock for the identity and for the handler, the
  store's own clock, one reading for each \<open>set\<close> of a transaction, and the random bucket id.
\<close>

record readings =
  rd_auth_now :: instant
  rd_now :: instant
  rd_store_now :: instant
  rd_clk :: "nat \<Rightarrow> instant"
  rd_uuid :: str

section \<open>Rate limiting\<close>

record rate_limit_settings =
  rs_enabled :: bool
  rs_requests_per_hour :: u64

definition default_rate_limit_settings :: rate_limit_settings where
  "default_rate_limit_settings = \<lparr>rs_enabled = False, rs_requests_per_hour = 1000\<rparr>"

text \<open>The rule the limiter is initialised with: tokens per hour, or no limiter at all.\<close>

definition init_rate_limiter :: "rate_limit_settings \<Rightarrow> 32 word option" where
  "init_rate_limiter settings =
     (if \<not> rs_enabled settings then None
      else Some (if unat (rs_requests_per_hour settings) < 2 ^ 32
                 then ucast (rs_requests_per_hour settings) else - 1))"

section \<open>The framework\<close>

text \<open>
  \<open>ax_match\<close> finds the route, given by the prefix it is nested under and its pattern, with the
  path parameters and the path its handlers see; \<open>ax_dispatch\<close> picks one of the methods a route
  has handlers for; \<open>ax_reply\<close> is what the framework does to the response for the request's
  method.
\<close>

record axum_ops =
  ax_match :: "(str \<times> str) list \<Rightarrow> str \<Rightarrow> ((str \<times> str) \<times> str list \<times> str) option"
  ax_dispatch :: "http_method list \<Rightarrow> http_method \<Rightarrow> http_method option"
  ax_reply :: "http_method \<Rightarrow> response \<Rightarrow> response"
  ax_path_pair :: "str list \<Rightarrow> response + str \<times> str"
  ax_ttl_query :: "str option \<Rightarrow> response + u64 option"
  ax_list_query :: "str option \<Rightarrow> response + list_bucket_params"
  ax_body :: "request \<Rightarrow> response + bytes"
  ax_bucket_form :: "request \<Rightarrow> response + create_bucket_form"
  ax_token_form :: "request \<Rightarrow> response + create_token_form"
  ax_preflight :: "request \<Rightarrow> response option"
  ax_swagger :: "request \<Rightarrow> response option"
  ax_governor :: "32 word \<Rightarrow> request \<Rightarrow> response option"
  ax_metrics :: response
  ax_not_found :: response

section \<open>Routes\<close>

datatype handler =
    CreateBucket | CreateToken | GetKey | HeadKey | PutKey | DeleteKey | PatchKey
  | ListBucket | DeleteBucket | GetBucketPolicy | HeadBucket | ExecuteTxn | UpdatePolicy
  | HealthCheck | ReadinessCheck | Metrics

type_synonym route = "str \<times> (http_method \<times> handler) list"

definition API_PREFIX :: str where "API_PREFIX = bs ''/api/v1''"

definition api_routes :: "route list" where
  "api_routes =
     [(bs ''/'', [(POST, CreateBucket)]),
      (bs ''/{bucket}/tokens/'', [(POST, CreateToken)]),
      (bs ''/{bucket}/{key}'',
        [(GET, GetKey), (HEAD, HeadKey), (POST, PutKey), (PUT, PutKey), (DELETE, DeleteKey), (PATCH, PatchKey)]),
      (bs ''/{bucket}/'', [(GET, ListBucket), (DELETE, DeleteBucket)]),
      (bs ''/{bucket}'',
        [(GET, GetBucketPolicy), (HEAD, HeadBucket), (POST, ExecuteTxn), (PATCH, UpdatePolicy), (DELETE, DeleteBucket)])]"

definition api_alias_routes :: "route list" where
  "api_alias_routes = [(API_PREFIX @ bs ''/'', [(POST, CreateBucket)])]"

definition metrics_routes :: "route list" where
  "metrics_routes = [(bs ''/metrics'', [(GET, Metrics)])]"

record router_options =
  ro_expose_metrics :: bool
  ro_rate_limit :: rate_limit_settings

definition default_router_options :: router_options where
  "default_router_options = \<lparr>ro_expose_metrics = True, ro_rate_limit = default_rate_limit_settings\<rparr>"

definition ops_routes :: "router_options \<Rightarrow> route list" where
  "ops_routes opts =
     [(bs ''/health'', [(GET, HealthCheck)]), (bs ''/ready'', [(GET, ReadinessCheck)])] @
     (if ro_expose_metrics opts then metrics_routes else [])"

text \<open>
  A mounted route: the prefix it is nested under, its pattern and handlers, and whether the
  limiter's layer wraps it.
\<close>

record mounted =
  mt_prefix :: str
  mt_path :: str
  mt_methods :: "(http_method \<times> handler) list"
  mt_limited :: bool

definition build_router :: "router_options \<Rightarrow> mounted list" where
  "build_router opts =
     (let limited = rs_enabled (ro_rate_limit opts) in
      map (\<lambda>(p, hs). \<lparr>mt_prefix = [], mt_path = p, mt_methods = hs, mt_limited = False\<rparr>) (ops_routes opts) @
      map (\<lambda>(p, hs). \<lparr>mt_prefix = [], mt_path = p, mt_methods = hs, mt_limited = limited\<rparr>) api_alias_routes @
      map (\<lambda>(p, hs). \<lparr>mt_prefix = API_PREFIX, mt_path = p, mt_methods = hs, mt_limited = limited\<rparr>) api_routes)"

definition mount_point :: "mounted \<Rightarrow> str \<times> str" where
  "mount_point m = (mt_prefix m, mt_path m)"

text \<open>Where the framework routes a request: the mounted route, its parameters, the path seen.\<close>

definition routed :: "axum_ops \<Rightarrow> router_options \<Rightarrow> request \<Rightarrow> (mounted \<times> str list \<times> str) option" where
  "routed X opts req =
     (case ax_match X (map mount_point (build_router opts)) (rq_path req) of
        None \<Rightarrow> None
      | Some (mp, params, path) \<Rightarrow>
          map_option (\<lambda>m. (m, params, path)) (find (\<lambda>m. mount_point m = mp) (build_router opts)))"

definition method_handler :: "axum_ops \<Rightarrow> (http_method \<times> handler) list \<Rightarrow> http_method \<Rightarrow> handler option" where
  "method_handler X hs m = Option.bind (ax_dispatch X (map fst hs) m) (map_of hs)"

definition method_not_allowed_fallback :: response where
  "method_not_allowed_fallback = method_not_allowed"

section \<open>Handling a request\<close>

fun into_response :: "response + response \<Rightarrow> response" where
  "into_response (Inl r) = r"
| "into_response (Inr r) = r"

definition token_response :: "str \<Rightarrow> response" where
  "token_response t = json_response 200 (JObject [(bs ''access_token'', JString t)])"

text \<open>A handler with the \<open>BucketAuth\<close> extractor: a rejection answers at once.\<close>

definition with_auth ::
  "http_lib \<Rightarrow> 'st app_state \<Rightarrow> readings \<Rightarrow> 'st \<Rightarrow> str \<Rightarrow> request \<Rightarrow>
     (bucket_auth \<Rightarrow> response \<times> 'st) \<Rightarrow> response \<times> 'st" where
  "with_auth L A rd st path req f =
     (case from_request_parts L A (rd_auth_now rd) st path (rq_query req) (rq_authorization req) of
        Inl r \<Rightarrow> (r, st)
      | Inr auth \<Rightarrow> f auth)"

text \<open>The later extractors of a handler: the first rejection answers.\<close>

definition with_part :: "'st \<Rightarrow> response + 'a \<Rightarrow> ('a \<Rightarrow> response \<times> 'st) \<Rightarrow> response \<times> 'st" where
  "with_part st part f = (case part of Inl r \<Rightarrow> (r, st) | Inr x \<Rightarrow> f x)"

definition wrote :: "(response + response) \<times> 'st \<Rightarrow> response \<times> 'st" where
  "wrote r = (into_response (fst r), snd r)"

fun run_handler ::
  "http_lib \<Rightarrow> axum_ops \<Rightarrow> 'st app_state \<Rightarrow> readings \<Rightarrow> 'st \<Rightarrow> str \<Rightarrow> request \<Rightarrow> str list \<Rightarrow> handler \<Rightarrow>
     response run \<times> 'st" where
  "run_handler L X A rd st path req params CreateBucket =
     (case ax_bucket_form X req of
        Inl r \<Rightarrow> (Done r, st)
      | Inr form \<Rightarrow>
          (case create_bucket L A (rd_uuid rd) st form of
             (Done r, st') \<Rightarrow> (Done (into_response r), st')
           | (Panicked, st') \<Rightarrow> (Panicked, st')))"
| "run_handler L X A rd st path req params CreateToken =
     apfst Done (with_auth L A rd st path req (\<lambda>auth.
       with_part st (ax_token_form X req) (\<lambda>form.
         (case create_token L A (rd_now rd) st auth form of Inl r \<Rightarrow> r | Inr t \<Rightarrow> token_response t, st))))"
| "run_handler L X A rd st path req params GetKey =
     apfst Done (with_auth L A rd st path req (\<lambda>auth.
       with_part st (ax_path_pair X params) (\<lambda>(_, key).
         (into_response (get_key L A (rd_now rd) st auth key), st))))"
| "run_handler L X A rd st path req params HeadKey =
     apfst Done (with_auth L A rd st path req (\<lambda>auth.
       with_part st (ax_path_pair X params) (\<lambda>(_, key).
         (into_response (head_key L A (rd_now rd) st auth key), st))))"
| "run_handler L X A rd st path req params PutKey =
     apfst Done (with_auth L A rd st path req (\<lambda>auth.
       with_part st (ax_path_pair X params) (\<lambda>(_, key).
       with_part st (ax_ttl_query X (rq_query req)) (\<lambda>ttl.
       with_part st (ax_body X req) (\<lambda>body.
         wrote (put_key L A (rd_now rd) st auth key ttl (rq_content_type req) body))))))"
| "run_handler L X A rd st path req params DeleteKey =
     apfst Done (with_auth L A rd st path req (\<lambda>auth.
       with_part st (ax_path_pair X params) (\<lambda>(_, key).
         wrote (delete_key L A st auth key))))"
| "run_handler L X A rd st path req params PatchKey =
     apfst Done (with_auth L A rd st path req (\<lambda>auth.
       with_part st (ax_path_pair X params) (\<lambda>(_, key).
       with_part st (ax_ttl_query X (rq_query req)) (\<lambda>ttl.
       with_part st (ax_body X req) (\<lambda>body.
         wrote (patch_key L A (rd_now rd) (rd_store_now rd) st auth key ttl body))))))"
| "run_handler L X A rd st path req params ListBucket =
     apfst Done (with_auth L A rd st path req (\<lambda>auth.
       with_part st (ax_list_query X (rq_query req)) (\<lambda>ps.
         (into_response (list_bucket L A (rd_now rd) st auth ps (rq_accept req)), st))))"
| "run_handler L X A rd st path req params DeleteBucket =
     apfst Done (with_auth L A rd st path req (\<lambda>auth. wrote (delete_bucket A st auth)))"
| "run_handler L X A rd st path req params GetBucketPolicy =
     apfst Done (with_auth L A rd st path req (\<lambda>auth. (into_response (get_bucket_policy A st auth), st)))"
| "run_handler L X A rd st path req params HeadBucket =
     apfst Done (with_auth L A rd st path req (\<lambda>auth. (into_response (head_bucket auth), st)))"
| "run_handler L X A rd st path req params ExecuteTxn =
     apfst Done (with_auth L A rd st path req (\<lambda>auth.
       with_part st (ax_body X req) (\<lambda>body. wrote (execute_txn L A (rd_clk rd) st auth body))))"
| "run_handler L X A rd st path req params UpdatePolicy =
     apfst Done (with_auth L A rd st path req (\<lambda>auth.
       with_part st (ax_body X req) (\<lambda>body. wrote (update_policy L A st auth body))))"
| "run_handler L X A rd st path req params HealthCheck = (Done (health_check A), st)"
| "run_handler L X A rd st path req params ReadinessCheck = (Done (readiness_check A st), st)"
| "run_handler L X A rd st path req params Metrics = (Done (ax_metrics X), st)"

fun reply :: "axum_ops \<Rightarrow> http_method \<Rightarrow> response run \<Rightarrow> response run" where
  "reply X m (Done r) = Done (ax_reply X m r)"
| "reply X m Panicked = Panicked"

definition limited_response :: "axum_ops \<Rightarrow> router_options \<Rightarrow> mounted \<Rightarrow> request \<Rightarrow> response option" where
  "limited_response X opts m req =
     (if mt_limited m
      then Option.bind (init_rate_limiter (ro_rate_limit opts)) (\<lambda>t. ax_governor X t req)
      else None)"

definition handle_request ::
  "http_lib \<Rightarrow> axum_ops \<Rightarrow> 'st app_state \<Rightarrow> router_options \<Rightarrow> readings \<Rightarrow> 'st \<Rightarrow> request \<Rightarrow>
     response run \<times> 'st" where
  "handle_request L X A opts rd st req =
     (case ax_preflight X req of
        Some r \<Rightarrow> (Done r, st)
      | None \<Rightarrow>
          (case ax_swagger X req of
             Some r \<Rightarrow> (Done r, st)
           | None \<Rightarrow>
               (case routed X opts req of
                  None \<Rightarrow> (Done (ax_not_found X), st)
                | Some (m, params, path) \<Rightarrow>
                    (case limited_response X opts m req of
                       Some r \<Rightarrow> (Done r, st)
                     | None \<Rightarrow>
                         (case method_handler X (mt_methods m) (rq_method req) of
                            None \<Rightarrow> (Done (ax_reply X (rq_method req) method_not_allowed_fallback), st)
                          | Some h \<Rightarrow> apfst (reply X (rq_method req)) (run_handler L X A rd st path req params h))))))"

section \<open>What a request may write\<close>

text \<open>The writes of an identified caller, one rule for each handler that changes the store.\<close>

inductive write_by ::
  "http_lib \<Rightarrow> 'st app_state \<Rightarrow> readings \<Rightarrow> 'st \<Rightarrow> bucket_auth \<Rightarrow> 'st \<Rightarrow> bool" for L A rd st auth where
  put: "put_key L A (rd_now rd) st auth key ttl cth body = (q, st') \<Longrightarrow> write_by L A rd st auth st'"
| patch: "patch_key L A (rd_now rd) (rd_store_now rd) st auth key ttl body = (q, st') \<Longrightarrow> write_by L A rd st auth st'"
| delete: "delete_key L A st auth key = (q, st') \<Longrightarrow> write_by L A rd st auth st'"
| txn: "execute_txn L A (rd_clk rd) st auth body = (q, st') \<Longrightarrow> write_by L A rd st auth st'"
| update: "update_policy L A st auth body = (q, st') \<Longrightarrow> write_by L A rd st auth st'"
| drop: "delete_bucket A st auth = (q, st') \<Longrightarrow> write_by L A rd st auth st'"

lemma with_auth_cases:
  assumes "with_auth L A rd st path req f = (r, st')"
  obtains "st' = st"
    | auth where "from_request_parts L A (rd_auth_now rd) st path (rq_query req) (rq_authorization req) = Inr auth"
      and "f auth = (r, st')"
  using assms by (auto simp: with_auth_def split: sum.splits)

lemma with_part_cases:
  assumes "with_part st part f = (r, st')"
  obtains "st' = st" | x where "part = Inr x" and "f x = (r, st')"
  using assms by (auto simp: with_part_def split: sum.splits)

lemma wrote_eq: "wrote m = (r, st') \<Longrightarrow> m = (fst m, st')"
  by (cases m) (auto simp: wrote_def)

lemma run_handler_writes:
  assumes "run_handler L X A rd st path req params h = (r, st')" and "st' \<noteq> st"
  shows "(\<exists>form q. create_bucket L A (rd_uuid rd) st form = (q, st')) \<or>
    (\<exists>auth. from_request_parts L A (rd_auth_now rd) st path (rq_query req) (rq_authorization req) = Inr auth
       \<and> write_by L A rd st auth st')"
proof (cases h)
  case CreateBucket
  then show ?thesis using assms by (auto split: sum.splits prod.splits run.splits)
qed (use assms in \<open>auto elim!: with_auth_cases with_part_cases dest!: wrote_eq
      intro: write_by.intros simp: apfst_def map_prod_def split: prod.splits\<close>)

lemma handle_request_writes:
  assumes "handle_request L X A opts rd st req = (r, st')" and "st' \<noteq> st"
  obtains (create) form q where "create_bucket L A (rd_uuid rd) st form = (q, st')"
    | (authorised) m params path auth where "routed X opts req = Some (m, params, path)"
        and "from_request_parts L A (rd_auth_now rd) st path (rq_query req) (rq_authorization req) = Inr auth"
        and "write_by L A rd st auth st'"
proof -
  obtain m params path h r' where "routed X opts req = Some (m, params, path)"
    and "run_handler L X A rd st path req params h = (r', st')"
    using assms
    by (auto simp: handle_request_def apfst_def map_prod_def split: option.splits prod.splits)
  with run_handler_writes [OF this(2) assms(2)] show thesis using create authorised by blast
qed

section \<open>A routing engine\<close>

text \<open>
  An instance of the framework for the witnesses: patterns match segment by segment, a
  parameter matches one non-empty segment, nested handlers see the path without the prefix,
  \<open>HEAD\<close> falls back to \<open>GET\<close>, and nothing is rejected.
\<close>

definition is_param :: "str \<Rightarrow> bool" where "is_param s = starts_with s (bs ''{'')"

definition path_matches :: "str \<Rightarrow> str \<Rightarrow> bool" where
  "path_matches pat p =
     list_all2 (\<lambda>a s. if is_param a then s \<noteq> [] else a = s) (split_on 0x2F pat) (split_on 0x2F p)"

definition path_params :: "str \<Rightarrow> str \<Rightarrow> str list" where
  "path_params pat p = map snd (filter (\<lambda>i. is_param (fst i)) (zip (split_on 0x2F pat) (split_on 0x2F p)))"

text \<open>The root of a nested router answers at the bare prefix.\<close>

definition full_path :: "str \<times> str \<Rightarrow> str" where
  "full_path mp = (if fst mp \<noteq> [] \<and> snd mp = bs ''/'' then fst mp else fst mp @ snd mp)"

definition demo_axum :: axum_ops where
  "demo_axum =
     \<lparr>ax_match = (\<lambda>mps p. map_option (\<lambda>mp. (mp, path_params (full_path mp) p, drop (length (fst mp)) p))
        (find (\<lambda>mp. path_matches (full_path mp) p) mps)),
      ax_dispatch = (\<lambda>ms m. if m \<in> set ms then Some m else if m = HEAD \<and> GET \<in> set ms then Some GET else None),
      ax_reply = (\<lambda>m r. if m = HEAD then r\<lparr>rs_body := BytesBody []\<rparr> else r),
      ax_path_pair = (\<lambda>ps. case ps of [a, b] \<Rightarrow> Inr (a, b) | _ \<Rightarrow> Inl (status_response 500)),
      ax_ttl_query = (\<lambda>q. Inr None),
      ax_list_query = (\<lambda>q. Inr demo_params),
      ax_body = (\<lambda>r. Inr (rq_body r)),
      ax_bucket_form = (\<lambda>r. Inr demo_form),
      ax_token_form = (\<lambda>r. Inr demo_token_form),
      ax_preflight = (\<lambda>r. if rq_method r = OPTIONS then Some (status_response 200) else None),
      ax_swagger = (\<lambda>r. None),
      ax_governor = (\<lambda>t r. None),
      ax_metrics = bytes_response 200 (bs ''text/plain; version=0.0.4; charset=utf-8'') [],
      ax_not_found = status_response 404\<rparr>"

definition demo_readings :: readings where
  "demo_readings =
     \<lparr>rd_auth_now = 0, rd_now = 500000000, rd_store_now = 0, rd_clk = (\<lambda>_. 0), rd_uuid = bs ''b1''\<rparr>"

definition demo_request :: "http_method \<Rightarrow> string \<Rightarrow> string \<Rightarrow> request" where
  "demo_request m p body =
     \<lparr>rq_method = m, rq_path = bs p, rq_query = None, rq_authorization = None, rq_content_type = None,
      rq_accept = None, rq_body = bs body\<rparr>"

lemma demo_axum_simps [simp]:
  "ax_swagger demo_axum req = None" "ax_body demo_axum req = Inr (rq_body req)"
  "ax_ttl_query demo_axum q = Inr None" "ax_path_pair demo_axum [a, b] = Inr (a, b)"
  "ax_bucket_form demo_axum req = Inr demo_form"
  "ax_preflight demo_axum req = (if rq_method req = OPTIONS then Some (status_response 200) else None)"
  "ax_reply demo_axum m r = (if m = HEAD then r\<lparr>rs_body := BytesBody []\<rparr> else r)"
  by (simp_all add: demo_axum_def)

lemma demo_route_create:
  "routed demo_axum default_router_options (demo_request POST ''/api/v1/'' [])
     = Some (\<lparr>mt_prefix = [], mt_path = bs ''/api/v1/'', mt_methods = [(POST, CreateBucket)], mt_limited = False\<rparr>,
         [], bs ''/api/v1/'')"
  by code_simp

lemma demo_route_key:
  "routed demo_axum default_router_options (demo_request PUT ''/api/v1/b1/n'' ''hi'')
     = Some (\<lparr>mt_prefix = API_PREFIX, mt_path = bs ''/{bucket}/{key}'', mt_methods =
        [(GET, GetKey), (HEAD, HeadKey), (POST, PutKey), (PUT, PutKey), (DELETE, DeleteKey), (PATCH, PatchKey)],
        mt_limited = False\<rparr>, [bs ''b1'', bs ''n''], bs ''/b1/n'')"
  by code_simp

lemma demo_dispatch:
  "method_handler demo_axum [(POST, CreateBucket)] POST = Some CreateBucket"
  "method_handler demo_axum [(GET, GetKey), (HEAD, HeadKey), (POST, PutKey), (PUT, PutKey), (DELETE, DeleteKey),
     (PATCH, PatchKey)] PUT = Some PutKey"
  by (simp_all add: method_handler_def demo_axum_def)

lemma demo_create_request:
  assumes "create_bucket demo_lib A (bs ''b1'') st demo_form = (Done (Inr r), st')"
  shows "handle_request demo_lib demo_axum A default_router_options demo_readings st (demo_request POST ''/api/v1/'' [])
    = (Done r, st')"
  using assms demo_route_create
  by (simp add: handle_request_def limited_response_def demo_dispatch demo_request_def demo_readings_def)

end
