(* ===== verification/Server.thy ===== *)
theory Server
  imports Router
begin

text \<open>
  The running server as a state machine: its state is the store, and a step is one whole HTTP
  request, routed, authorised and handled, or one step of the sweeper.  Requests of different
  clients interleave freely.  The invariant: the expiry index is complete, every stored policy
  has anonymous flags that agree with its keys, and every bucket has an identifier that keeps
  its keys apart from those of other buckets.  On top of it: a request changes only entries
  its caller may change.
\<close>

section \<open>Steps\<close>

text \<open>
  The hyphenated text of a random identifier has no colon, and a clock reads instants that
  the time crate can represent.
\<close>

definition readings_ok :: "(instant \<Rightarrow> bool) \<Rightarrow> readings \<Rightarrow> bool" where
  "readings_ok valid rd \<longleftrightarrow>
     bucket_ok (BucketId (rd_uuid rd)) \<and> valid (rd_now rd) \<and> valid (rd_store_now rd) \<and> (\<forall>i. valid (rd_clk rd i))"

inductive server_step ::
  "'db store_env \<Rightarrow> (instant \<Rightarrow> bool) \<Rightarrow> http_lib \<Rightarrow> axum_ops \<Rightarrow> 'db store app_state \<Rightarrow> router_options \<Rightarrow>
     'db store \<Rightarrow> 'db store \<Rightarrow> bool" for S valid L X A opts where
  request: "handle_request L X A opts rd st req = (r, st') \<Longrightarrow> readings_ok valid rd \<Longrightarrow>
    server_step S valid L X A opts st st'"
| sweep: "gc_step S now_ts g stats st = (flow, stats', st') \<Longrightarrow> server_step S valid L X A opts st st'"

inductive server_reachable ::
  "'db store_env \<Rightarrow> (instant \<Rightarrow> bool) \<Rightarrow> http_lib \<Rightarrow> axum_ops \<Rightarrow> 'db store app_state \<Rightarrow> router_options \<Rightarrow>
     'db store \<Rightarrow> 'db store \<Rightarrow> bool" for S valid L X A opts st0 where
  start: "server_reachable S valid L X A opts st0 st0"
| next_step: "server_reachable S valid L X A opts st0 st \<Longrightarrow> server_step S valid L X A opts st st' \<Longrightarrow>
    server_reachable S valid L X A opts st0 st'"

text \<open>The application wired to the fjall store.\<close>

definition wired :: "'db store_env \<Rightarrow> policy_json \<Rightarrow> http_lib \<Rightarrow> 'db store app_state \<Rightarrow> bool" where
  "wired S J L A \<longleftrightarrow>
     st_keys A = fjall_repo S \<and> st_buckets A = fjall_buckets S J \<and> hl_time L = cd_time (sv_codec S)"

definition policies_consistent :: "policy_json \<Rightarrow> contents \<Rightarrow> bool" where
  "policies_consistent J c \<longleftrightarrow> (\<forall>b p. abs_policy J c b = Some p \<longrightarrow> policy_consistent p \<and> bucket_ok b)"

section \<open>Requests are client operations\<close>

lemma put_key_client:
  assumes "st_keys A = fjall_repo S" and "put_key L A now st auth key ttl cth body = (r, st')"
  shows "st' = st \<or> client_step S st st'"
  using assms
  by (auto simp: put_key_def KeyService_set_def Let_def split: sum.splits prod.splits intro: client_step.set)

lemma patch_key_client:
  assumes "st_keys A = fjall_repo S" and "patch_key L A now store_now st auth key ttl body = (r, st')"
  shows "st' = st \<or> client_step S st st'"
  using assms
  by (auto simp: patch_key_def KeyService_increment_def Let_def split: sum.splits prod.splits
      intro: client_step.increment)

lemma delete_key_client:
  assumes "st_keys A = fjall_repo S" and "delete_key L A st auth key = (r, st')"
  shows "st' = st \<or> client_step S st st'"
  using assms
  by (auto simp: delete_key_def KeyService_delete_def Let_def split: sum.splits prod.splits
      intro: client_step.delete)

lemma execute_txn_client:
  assumes "st_keys A = fjall_repo S" and "execute_txn L A clk st auth body = (r, st')"
  shows "st' = st \<or> client_step S st st'"
  using assms
  by (auto simp: execute_txn_def TxnService_execute_def Let_def
      split: option.splits sum.splits prod.splits if_splits intro: client_step.batch)

lemma create_bucket_request:
  assumes "st_buckets A = fjall_buckets S J" and "create_bucket L A uuid st form = (r, st')"
  shows "st' = st \<or> (\<exists>pol q. policy_consistent pol \<and> fjall_create_bucket S J st (BucketId uuid) pol = (q, st'))"
proof (cases "st' = st")
  case False
  then obtain sh rh wh where h: "hash_opt L (st_root_key A) (none_if_empty (cf_secret_key form)) = Inr sh"
    "hash_opt L (st_root_key A) (none_if_empty (cf_read_key form)) = Inr rh"
    "hash_opt L (st_root_key A) (none_if_empty (cf_write_key form)) = Inr wh"
    using assms(2) by (auto simp: create_bucket_def Let_def split: if_splits sum.splits)
  let ?p = "\<lparr>default_ttl_secs = Some (unwrap_or (cf_default_ttl form) DEFAULT_BUCKET_TTL_SECS),
      anonymous_access = anonymous_from_keys (none_if_empty (cf_secret_key form) \<noteq> None)
        (none_if_empty (cf_read_key form) \<noteq> None) (none_if_empty (cf_write_key form) \<noteq> None),
      secret_key_hash = sh, read_key_hash = rh, write_key_hash = wh,
      signing_key = none_if_empty (cf_signing_key form), signing_key_generation = 0\<rparr>"
  have "policy_consistent ?p"
    using hash_opt_Some [OF h(1)] hash_opt_Some [OF h(2)] hash_opt_Some [OF h(3)]
    by (simp add: policy_consistent_def flags_agree_def presence_of_def)
  moreover have "\<exists>q. fjall_create_bucket S J st (BucketId uuid) ?p = (q, st')"
    using assms False h
    by (auto simp: create_bucket_def BucketId_new_def Let_def split: if_splits sum.splits prod.splits)
  ultimately show ?thesis by blast
qed simp

lemma update_policy_request:
  assumes "st_buckets A = fjall_buckets S J" and "update_policy L A st auth body = (r, st')"
  shows "st' = st \<or> (\<exists>pol old q. policy_consistent pol \<and> fjall_get_policy S J st (ba_bucket_id auth) = Inr (Some old)
    \<and> fjall_create_bucket S J st (ba_bucket_id auth) pol = (q, st'))"
  using assms recompute_consistent
  by (auto simp: update_policy_def read_policy_def Let_def split: sum.splits option.splits prod.splits)

lemma delete_bucket_request:
  assumes "st_buckets A = fjall_buckets S J" and "delete_bucket A st auth = (r, st')"
  shows "st' = st \<or> (\<exists>b q. fjall_delete_bucket S st b = (q, st'))"
  using assms by (auto simp: delete_bucket_def Let_def split: sum.splits prod.splits)

section \<open>The invariant\<close>

context fjall_backend
begin

lemma create_keeps_policies:
  assumes "fjall_create_bucket S J st b pol = (r, st')" and "policy_consistent pol" and "bucket_ok b"
    and "policies_consistent J (contents_of st)"
  shows "policies_consistent J (contents_of st')"
  using create_cases [OF assms(1)] assms(2-) abs_policy_insert
  by (auto simp: policies_consistent_def simp del: apply_bop.simps split: if_splits)

lemma delete_keeps_policies:
  assumes "fjall_delete_bucket S st b = (r, st')" and "policies_consistent J (contents_of st)"
  shows "policies_consistent J (contents_of st')"
  using delete_bucket_cases [OF assms(1)] assms(2) abs_policy_remove
  by (auto simp: policies_consistent_def simp del: apply_bop.simps split: if_splits)

lemma meta_keeps_policies:
  "contents_of st' META_KEYSPACE = contents_of st META_KEYSPACE \<Longrightarrow>
     policies_consistent J (contents_of st) \<Longrightarrow> policies_consistent J (contents_of st')"
  by (simp add: policies_consistent_def abs_policy_def)

abbreviation server_inv where
  "server_inv st \<equiv> good st \<and> policies_consistent J (contents_of st)"

lemma client_step_inv: "st' = st \<or> client_step S st st' \<Longrightarrow> server_inv st \<Longrightarrow> server_inv st'"
  using client_step_index client_step_meta meta_keeps_policies by blast

lemma create_inv:
  assumes "fjall_create_bucket S J st b pol = (q, st')" and "policy_consistent pol" and "bucket_ok b" and "server_inv st"
  shows "server_inv st'"
  using create_keeps_policies [OF assms(1-3)] bucket_ops_keep_index(1) [OF assms(1)] assms(4) by blast

lemma known_bucket_ok:
  "fjall_get_policy S J st b = Inr (Some p) \<Longrightarrow> policies_consistent J (contents_of st) \<Longrightarrow>
     bucket_ok b \<and> policy_consistent p"
  using get_policy_abs by (fastforce simp: policies_consistent_def)

lemma write_by_inv:
  assumes "write_by L A rd st auth st'" and "wired S J L A" and "server_inv st"
  shows "server_inv st'"
  using assms(1)
proof cases
  case (put key ttl cth body q)
  then show ?thesis using put_key_client assms(2,3) client_step_inv unfolding wired_def by blast
next
  case (patch key ttl body q)
  then show ?thesis using patch_key_client assms(2,3) client_step_inv unfolding wired_def by blast
next
  case (delete key q)
  then show ?thesis using delete_key_client assms(2,3) client_step_inv unfolding wired_def by blast
next
  case (txn body q)
  then show ?thesis using execute_txn_client assms(2,3) client_step_inv unfolding wired_def by blast
next
  case (update body q)
  from update_policy_request [OF _ this, of S J] assms(2)
  consider "st' = st" | pol old q' where "policy_consistent pol"
      "fjall_get_policy S J st (ba_bucket_id auth) = Inr (Some old)"
      "fjall_create_bucket S J st (ba_bucket_id auth) pol = (q', st')" by (auto simp: wired_def)
  then show ?thesis using create_inv known_bucket_ok assms(3) by cases blast+
next
  case (drop q)
  then show ?thesis
    using delete_bucket_request assms(2,3) delete_keeps_policies bucket_ops_keep_index(2)
    unfolding wired_def by blast
qed

lemma request_inv:
  assumes "handle_request L X A opts rd st req = (r, st')" and "bucket_ok (BucketId (rd_uuid rd))"
    and "wired S J L A" and "server_inv st"
  shows "server_inv st'"
proof (cases "st' = st")
  case False
  with assms(1) show ?thesis
  proof (cases rule: handle_request_writes)
    case (create form q)
    with False create_bucket_request obtain pol q' where "policy_consistent pol"
      and "fjall_create_bucket S J st (BucketId (rd_uuid rd)) pol = (q', st')"
      using assms(3) unfolding wired_def by blast
    then show ?thesis using create_inv assms(2,4) by blast
  next
    case (authorised m params path auth)
    then show ?thesis using write_by_inv assms(3,4) by blast
  qed
qed (use assms in simp)

lemma server_step_inv:
  assumes "server_step S valid L X A opts st st'" and "wired S J L A" and "reliable (sv_fjall S)" and "server_inv st"
  shows "server_inv st'"
  using assms(1)
proof cases
  case (request rd req r)
  then show ?thesis using request_inv assms(2,4) unfolding readings_ok_def by blast
next
  case (sweep now_ts g stats flow stats')
  then show ?thesis
    using gc_step_index [OF assms(3)] gc_step_only_expired meta_keeps_policies assms(4)
    unfolding only_expired_dropped_def by blast
qed

lemma server_reachable_inv:
  assumes "server_reachable S valid L X A opts st0 st" and "wired S J L A" and "reliable (sv_fjall S)" and "server_inv st0"
  shows "server_inv st"
  using assms(1)
proof induction
  case start
  then show ?case by (rule assms(4))
next
  case (next_step st st')
  then show ?case using server_step_inv assms(2,3) by blast
qed

text \<open>A server that starts on an empty database satisfies the invariant.\<close>

lemma empty_inv: "contents_of st = (\<lambda>_ _. None) \<Longrightarrow> server_inv st"
  by (simp add: index_inv_def policies_consistent_def abs_policy_def)

lemma extracted:
  assumes "from_request_parts L A now st path query authorization = Inr auth" and "wired S J L A"
    and "policies_consistent J (contents_of st)"
  shows "flags_agree (ba_policy_presence auth) (ba_anonymous_access auth) \<and> bucket_ok (ba_bucket_id auth)"
proof -
  obtain p where "fjall_get_policy S J st (ba_bucket_id auth) = Inr (Some p)"
    and a: "ba_policy_presence auth = presence_of p" "ba_anonymous_access auth = anonymous_access p"
    using assms(1,2) by (auto simp: from_request_parts_def wired_def split: sum.splits option.splits)
  with known_bucket_ok assms(3) have "policy_consistent p" and "bucket_ok (ba_bucket_id auth)" by blast+
  then show ?thesis using a by (simp add: policy_consistent_def)
qed

section \<open>What a request changes\<close>

text \<open>A write changes only entries of the caller's bucket that the caller may write or delete.\<close>

lemma bucket_ops_entries:
  "fjall_create_bucket S J st b pol = (r, st') \<Longrightarrow> entry st' b' k' = entry st b' k'"
  "fjall_delete_bucket S st b = (r', st') \<Longrightarrow> entry st' b' k' = entry st b' k'"
  using create_cases delete_bucket_cases by (fastforce simp: abs_entry_def)+

lemma put_key_fjall:
  assumes "st_keys A = fjall_repo S" and "put_key L A now st auth key ttl cth body = (r, st')" and "st' \<noteq> st"
  obtains k v ex q dflt where "require_write_on auth k = Inr ()" and "fjall_set S st (ba_bucket_id auth) k v ex = (q, st')"
    and "key_ok k" and "value_ok v" and "resolve_ttl (hl_time L) now ttl dflt = Inr ex"
  using assms that [OF _ _ parse_key_ok infer_stored_value_ok]
  by (auto simp: put_key_def KeyService_set_def Let_def split: sum.splits prod.splits)

lemma patch_key_fjall:
  assumes "st_keys A = fjall_repo S" and "patch_key L A now store_now st auth key ttl body = (r, st')" and "st' \<noteq> st"
  obtains k op ex q dflt where "require_write_on auth k = Inr ()"
    and "fjall_increment S st store_now (ba_bucket_id auth) k op ex = (q, st')"
    and "key_ok k" and "counter_op_ok op" and "resolve_ttl (hl_time L) now ttl dflt = Inr ex"
  using assms that [OF _ _ parse_key_ok CounterOp_parse_ok]
  by (auto simp: patch_key_def KeyService_increment_def Let_def split: sum.splits prod.splits)

lemma delete_key_fjall:
  assumes "st_keys A = fjall_repo S" and "delete_key L A st auth key = (r, st')" and "st' \<noteq> st"
  obtains k q where "require_delete_on auth k = Inr ()" and "fjall_delete S st (ba_bucket_id auth) k = (q, st')"
  using assms by (auto simp: delete_key_def KeyService_delete_def Let_def split: sum.splits prod.splits)

lemma execute_txn_fjall:
  assumes "st_keys A = fjall_repo S" and "execute_txn L A clk st auth body = (r, st')" and "st' \<noteq> st"
  obtains ops q items where "list_all (txn_op_permitted auth) ops"
    and "fjall_apply_batch S st (ba_bucket_id auth) ops = (q, st')" and "txn_ops_of L clk auth 0 items = Inr ops"
proof -
  obtain items ops q where "txn_ops_of L clk auth 0 items = Inr ops"
    and b: "fjall_apply_batch S st (ba_bucket_id auth) ops = (q, st')"
    using assms
    by (auto simp: execute_txn_def TxnService_execute_def Let_def split: option.splits sum.splits prod.splits if_splits)
  then show thesis using that txn_ops_permitted by blast
qed

lemma write_by_entries:
  assumes "write_by L A rd st auth st'" and "wired S J L A" and "bucket_ok (ba_bucket_id auth)" and "bucket_ok b"
    and "entry st' b k \<noteq> entry st b k"
  shows "b = ba_bucket_id auth \<and> (require_write_on auth k = Inr () \<or> require_delete_on auth k = Inr ())"
proof -
  have w: "st_keys A = fjall_repo S" "st_buckets A = fjall_buckets S J" and ne: "st' \<noteq> st"
    using assms(2,5) by (auto simp: wired_def)
  from assms(1) show ?thesis
  proof cases
    case (put key ttl cth body q)
    then show ?thesis using put_key_fjall [OF w(1) _ ne] set_frame assms(3-5) by (metis prod.inject)
  next
    case (patch key ttl body q)
    then show ?thesis using patch_key_fjall [OF w(1) _ ne] increment_frame assms(3-5) by (metis prod.inject)
  next
    case (delete key q)
    then show ?thesis using delete_key_fjall [OF w(1) _ ne] delete_frame assms(3-5) by (metis prod.inject)
  next
    case (txn body q)
    then obtain ops q' where p: "list_all (txn_op_permitted auth) ops"
      and b: "fjall_apply_batch S st (ba_bucket_id auth) ops = (q', st')" using execute_txn_fjall [OF w(1) _ ne] by blast
    then have "b = ba_bucket_id auth" and "k \<in> txn_key ` set ops"
      using apply_batch_keys [OF b assms(3,4)] assms(5) by blast+
    then obtain op where "txn_op_permitted auth op" "k = txn_key op" using p by (auto simp: list_all_iff)
    then show ?thesis using \<open>b = _\<close> by (cases op) auto
  next
    case (update body q)
    then show ?thesis using update_policy_request [OF w(2)] bucket_ops_entries(1) assms(5) ne by blast
  next
    case (drop q)
    then show ?thesis using delete_bucket_request [OF w(2)] bucket_ops_entries(2) assms(5) ne by blast
  qed
qed

text \<open>
  The whole request, in a state that satisfies the invariant: every entry that differs
  afterwards belongs to the caller's bucket and is one the caller may write or delete.
\<close>

lemma request_entries:
  assumes "handle_request L X A opts rd st req = (r, st')" and "wired S J L A" and "server_inv st" and "bucket_ok b"
    and "entry st' b k \<noteq> entry st b k"
  shows "\<exists>m params path auth. routed X opts req = Some (m, params, path)
    \<and> from_request_parts L A (rd_auth_now rd) st path (rq_query req) (rq_authorization req) = Inr auth
    \<and> ba_bucket_id auth = b \<and> (may p_write auth k \<or> may p_delete auth k)"
proof -
  have ne: "st' \<noteq> st" using assms(5) by blast
  from assms(1) ne show ?thesis
  proof (cases rule: handle_request_writes)
    case (create form q)
    then show ?thesis
      using create_bucket_request assms(2,5) bucket_ops_entries(1) ne unfolding wired_def by blast
  next
    case (authorised m params path auth)
    from extracted [OF authorised(2) assms(2)] assms(3)
    have "flags_agree (ba_policy_presence auth) (ba_anonymous_access auth)" and "bucket_ok (ba_bucket_id auth)" by blast+
    with write_by_entries [OF authorised(3) assms(2) _ assms(4,5)] gates_decide authorised(1,2) show ?thesis by blast
  qed
qed

end

end
