(* ===== verification/Sweeper.thy ===== *)
theory Sweeper
  imports Gc
begin

text \<open>
  \<open>GcSweeper\<close> of \<open>keydock-fjall/src/gc.rs\<close>: the background task that sweeps the store at a
  fixed interval until it is cancelled, next to the operations of the clients; and what a
  storage failure in the middle of a sweep leaves behind.
\<close>

section \<open>The task\<close>

text \<open>
  The sweeper holds the keyspaces and the locks of the store that built it, so its only own
  datum is the interval, in seconds.
\<close>

record gc_sweeper =
  sw_interval :: u64

definition build_gc_sweeper :: "u64 \<Rightarrow> gc_sweeper" where
  "build_gc_sweeper interval = \<lparr>sw_interval = interval\<rparr>"

definition sweep_once :: "'db store_env \<Rightarrow> instant \<Rightarrow> 'db store \<Rightarrow> 'db store" where
  "sweep_once S now st = snd (sweep_keyspace S now st)"

text \<open>
  One turn of the loop: what the biased \<open>select!\<close> yields.  A sweep whose blocking task dies has
  visited only some of the guards; the loop logs the join error and goes on.
\<close>

datatype turn = Cancelled | Slept instant | SweepDied instant nat

definition sweep_part :: "'db store_env \<Rightarrow> instant \<Rightarrow> nat \<Rightarrow> 'db store \<Rightarrow> 'db store" where
  "sweep_part S now n st =
     snd (sweep_loop S (unix_timestamp (cd_time (sv_codec S)) now)
       (take n (fj_iter (sv_fjall S) (st_db st) EXPIRY_KEYSPACE))
       \<lparr>expiry_scanned = 0, expiry_removed = 0, keys_removed = 0\<rparr> st)"

fun GcSweeper_run :: "'db store_env \<Rightarrow> turn list \<Rightarrow> 'db store \<Rightarrow> 'db store \<times> bool" where
  "GcSweeper_run S [] st = (st, True)"
| "GcSweeper_run S (Cancelled # turns) st = (st, False)"
| "GcSweeper_run S (Slept now # turns) st = GcSweeper_run S turns (sweep_once S now st)"
| "GcSweeper_run S (SweepDied now n # turns) st = GcSweeper_run S turns (sweep_part S now n st)"

text \<open>The task among the clients: their operations run between its turns.\<close>

inductive sweeper_trace :: "'db store_env \<Rightarrow> 'db store \<times> bool \<Rightarrow> 'db store \<times> bool \<Rightarrow> bool" for S where
  start: "sweeper_trace S c c"
| client: "sweeper_trace S c (st, running) \<Longrightarrow> client_step S st st' \<Longrightarrow> sweeper_trace S c (st', running)"
| turn: "sweeper_trace S c (st, True) \<Longrightarrow> GcSweeper_run S [t] st = c' \<Longrightarrow> sweeper_trace S c c'"

section \<open>What the task preserves\<close>

lemma client_step_poisoned: "client_step S st st' \<Longrightarrow> st_poisoned st' = st_poisoned st"
  by (induction rule: client_step.induct)
    (auto simp: fjall_set_def fjall_delete_def fjall_increment_def fjall_apply_batch_def put_entry_def Let_def
      split: sum.splits option.splits prod.splits if_splits)

lemma gc_step_poisoned: "gc_step S now_ts g stats st = (flow, stats', st') \<Longrightarrow> st_poisoned st' = st_poisoned st"
  by (auto simp: gc_step_def gc_drop_entry_def Let_def split: sum.splits option.splits prod.splits if_splits)

lemma sweep_loop_keeps:
  assumes "\<And>g stats st flow stats' st'. g \<in> set gs \<Longrightarrow> gc_step S now_ts g stats st = (flow, stats', st') \<Longrightarrow> P st \<Longrightarrow> P st'"
    and "P st"
  shows "P (snd (sweep_loop S now_ts gs stats st))"
  using assms
proof (induction gs arbitrary: stats st)
  case (Cons g gs)
  obtain flow s1 st1 where step: "gc_step S now_ts g stats st = (flow, s1, st1)" by (metis prod_cases3)
  have "P st1" using Cons.prems(1) [OF _ step Cons.prems(2)] by simp
  then have "P (snd (sweep_loop S now_ts gs s1 st1))"
    by (rule Cons.IH [rotated]) (rule Cons.prems(1), simp_all)
  then show ?case using step \<open>P st1\<close> by (cases flow) simp_all
qed simp

text \<open>An entry whose index key is gone is out of the sweeper's reach.\<close>

definition stranded :: "bytes \<Rightarrow> bytes \<Rightarrow> i64 \<Rightarrow> contents \<Rightarrow> bool" where
  "stranded sk v ts c \<longleftrightarrow>
     c DATA_KEYSPACE sk = Some v \<and> c EXPIRY_KEYSPACE (expiry_index_key ts sk) = None"

context fjall_store
begin

abbreviation sound :: "'db store \<Rightarrow> bool" where
  "sound st \<equiv> good st \<and> st_poisoned st = (\<lambda>_. False)"

lemma turn_keeps:
  assumes "\<And>now_ts g stats st1 flow stats' st2. g \<in> set (fj_iter (sv_fjall S) (st_db st) EXPIRY_KEYSPACE) \<Longrightarrow>
      gc_step S now_ts g stats st1 = (flow, stats', st2) \<Longrightarrow> P st1 \<Longrightarrow> P st2" and "P st"
  shows "P (fst (GcSweeper_run S [t] st))"
proof (cases t)
  case (Slept now)
  show ?thesis unfolding Slept GcSweeper_run.simps sweep_once_def sweep_keyspace_def fst_conv
    by (rule sweep_loop_keeps) (use assms in blast)+
next
  case (SweepDied now n)
  show ?thesis unfolding SweepDied GcSweeper_run.simps sweep_part_def fst_conv
    by (rule sweep_loop_keeps) (use assms in \<open>blast dest: in_set_takeD\<close>)+
qed (use assms in simp)

lemma turn_sound:
  assumes "reliable (sv_fjall S)" and "sound st"
  shows "sound (fst (GcSweeper_run S [t] st))"
proof (rule turn_keeps [where P = sound, OF _ assms(2)])
  fix now_ts g stats st1 flow stats' st2
  assume "gc_step S now_ts g stats st1 = (flow, stats', st2)" and "sound st1"
  then show "sound st2" using gc_step_index [OF assms(1)] gc_step_poisoned by metis
qed

lemma sweeper_trace_sound:
  "sweeper_trace S c c' \<Longrightarrow> reliable (sv_fjall S) \<Longrightarrow> sound (fst c) \<Longrightarrow> sound (fst c')"
proof (induction rule: sweeper_trace.induct)
  case (client c st running st')
  then show ?case using client_step_index client_step_poisoned by fastforce
next
  case (turn c st t c')
  then show ?case using turn_sound by fastforce
qed simp

lemma cancelled_trace:
  "sweeper_trace S c c' \<Longrightarrow> \<not> snd c \<Longrightarrow> \<not> snd c' \<and> (client_step S)\<^sup>*\<^sup>* (fst c) (fst c')"
proof (induction rule: sweeper_trace.induct)
  case (client c st running st')
  then show ?case by (auto intro: rtranclp.rtrancl_into_rtrancl)
qed auto

lemma gc_step_stranded:
  assumes "gc_step S now_ts g stats st = (flow, stats', st')" and "stranded sk v ts (contents_of st)"
    and "has_expiry C v ts" and "\<And>w. g \<noteq> Inr (expiry_index_key ts sk, w)"
  shows "stranded sk v ts (contents_of st')"
proof -
  have other: "(ts', sk') \<noteq> (ts, sk)" if "g = Inr (u, w)" "parse_expiry_index_key u = Some (ts', sk')" for u w ts' sk'
    using parse_expiry_index_key_Some [OF that(2)] assms(4) [of w] that(1) by auto
  have kept: "stranded sk v ts (view db')" if "g = Inr (u, w)" "fj_remove (sv_fjall S) (st_db st) EXPIRY_KEYSPACE u = (q, db')" for u w q db'
    using db.remove_cases [OF that(2)] assms(2,4) that(1) by (auto simp: stranded_def)
  from assms(1) show ?thesis
  proof (cases rule: gc_step_shape)
    case idle
    then show ?thesis using assms(2) by simp
  next
    case (failed u ts' sk' e w)
    show ?thesis by (rule kept [OF failed(4,3)])
  next
    case (removed u ts' sk' db' s w)
    from drop_entry_cases [OF removed(4)] kept [OF removed(5,3)] other [OF removed(5,1)] assms(3) show ?thesis
      by (auto simp: stranded_def has_expiry_def)
  qed
qed

lemma turn_stranded:
  assumes "stranded sk v ts (contents_of st)" and "has_expiry C v ts"
  shows "stranded sk v ts (contents_of (fst (GcSweeper_run S [t] st)))"
proof (rule turn_keeps [where P = "\<lambda>st. stranded sk v ts (contents_of st)", OF _ assms(1)])
  fix now_ts g stats st1 flow stats' st2
  assume g: "g \<in> set (fj_iter (sv_fjall S) (st_db st) EXPIRY_KEYSPACE)"
    and step: "gc_step S now_ts g stats st1 = (flow, stats', st2)" and "stranded sk v ts (contents_of st1)"
  have "g \<noteq> Inr (expiry_index_key ts sk, w)" for w
    using g assms(1) db.iter_sound [of "expiry_index_key ts sk" w "st_db st" EXPIRY_KEYSPACE]
    by (auto simp: stranded_def set_oks)
  then show "stranded sk v ts (contents_of st2)" using gc_step_stranded [OF step _ assms(2)] \<open>stranded sk v ts (contents_of st1)\<close> by blast
qed

lemma run_stranded:
  "stranded sk v ts (contents_of st) \<Longrightarrow> has_expiry C v ts \<Longrightarrow>
     stranded sk v ts (contents_of (fst (GcSweeper_run S turns st)))"
proof (induction turns arbitrary: st)
  case (Cons t turns)
  then show ?case using turn_stranded [of sk v ts st t] by (cases t) simp_all
qed simp

lemma failed_read_stranded:
  assumes "st_poisoned st = (\<lambda>_. False)" and "contents_of st DATA_KEYSPACE sk = Some v" and "sint ts \<le> sint now_ts"
    and "fj_remove (sv_fjall S) (st_db st) EXPIRY_KEYSPACE (expiry_index_key ts sk) = (Inr (), db')"
    and "fj_get (sv_fjall S) db' DATA_KEYSPACE sk = Inl e" and "sk \<noteq> []"
    and "gc_step S now_ts (Inr (expiry_index_key ts sk, w)) stats st = (flow, stats', st')"
  shows "stranded sk v ts (contents_of st')"
proof -
  have "st' = st\<lparr>st_db := db'\<rparr>"
    using assms(1,3-7) parse_expiry_index_key_build [of sk ts]
    by (auto simp: gc_step_def gc_drop_entry_def lock_for_def Let_def)
  then show ?thesis using db.remove_Inr [OF assms(4)] assms(2) by (simp add: stranded_def)
qed

end

section \<open>Properties\<close>

text \<open>
  C12. A running sweeper collects: however its turns and the clients' operations have
  interleaved since the store was sound, and even when earlier sweeps died half-way, the next
  sweep that completes leaves in every bucket exactly the entries that are live at its time;
  and once cancelled it never runs again: the store changes by client operations only.
\<close>

theorem running_sweeper_collects:
  assumes "fjall_store S view valid" and "reliable (sv_fjall S)" and "st_poisoned st0 = (\<lambda>_. False)"
    and "index_inv (sv_codec S) (view (st_db st0))" and "sweeper_trace S (st0, True) (st, running)" and "valid now"
  shows "abs_entry (sv_codec S) (view (st_db (sweep_once S now st))) b k =
      (case abs_entry (sv_codec S) (view (st_db st)) b k of
         Some en \<Rightarrow> if live (Some now) en then Some en else None
       | None \<Rightarrow> None)
    \<and> (\<not> running \<longrightarrow> sweeper_trace S (st, running) (st', r) \<longrightarrow> \<not> r \<and> (client_step S)\<^sup>*\<^sup>* st st')"
proof -
  obtain stats st1 where sw: "sweep_keyspace S now st = (stats, st1)" by fastforce
  have "index_inv (sv_codec S) (view (st_db st)) \<and> st_poisoned st = (\<lambda>_. False)"
    using fjall_store.sweeper_trace_sound [OF assms(1,5,2)] assms(3,4) by simp
  then show ?thesis
    using fjall_store.sweep_entries [OF assms(1,2) _ _ sw assms(6)] sw
      fjall_store.cancelled_trace [OF assms(1), of "(st, running)" "(st', r)"]
    by (auto simp: sweep_once_def)
qed

theorem running_sweeper_collects_witness:
  "\<exists>st. client_step mem_env mem_store st
     \<and> abs_entry wire_codec (mem_view (st_db st)) demo_bucket demo_key \<noteq> None
     \<and> abs_entry wire_codec (mem_view (st_db (sweep_once mem_env 2000000000 st))) demo_bucket demo_key = None"
proof -
  obtain st where st: "fjall_set mem_env mem_store demo_bucket demo_key demo_value (Some 1500000000) = (Inr (), st)"
    using mem_set_total [OF mem_store_unpoisoned] by blast
  then have c: "client_step mem_env mem_store st" by (rule client_step.set)
  have en: "abs_entry wire_codec (mem_view (st_db st)) demo_bucket demo_key
      = Some (truncated_entry demo_value (Some 1500000000))"
    using mem_store.set_entry [OF st demo_ok(2,3,1,1)] by simp
  have "\<not> live (Some 2000000000) (truncated_entry demo_value (Some 1500000000))"
    by (simp add: live_def truncated_entry_def)
  with running_sweeper_collects [OF mem_store.fjall_store_axioms mem_reliable mem_store_unpoisoned mem_store_good
      sweeper_trace.client [OF sweeper_trace.start c] time_valid_small, of 2000000000 demo_bucket demo_key] en c
  show ?thesis by auto
qed

text \<open>
  C39. A sweep that fails between its two removals strands an entry for good: when the index
  key is removed and the read of the entry then fails, the expired entry stays stored without
  its index key, and no later sweep collects it, however many run and even if the backend
  (here \<open>S'\<close>, over the same database) never fails again.
\<close>

theorem failed_read_strands_entry:
  assumes "fjall_store S view valid" and "fjall_store S' view valid" and "sv_codec S' = sv_codec S" and "st_poisoned st = (\<lambda>_. False)"
    and "view (st_db st) DATA_KEYSPACE sk = Some v" and "has_expiry (sv_codec S) v ts" and "sint ts \<le> sint now_ts"
    and "fj_remove (sv_fjall S) (st_db st) EXPIRY_KEYSPACE (expiry_index_key ts sk) = (Inr (), db')"
    and "fj_get (sv_fjall S) db' DATA_KEYSPACE sk = Inl e" and "sk \<noteq> []"
    and "gc_step S now_ts (Inr (expiry_index_key ts sk, w)) stats st = (flow, stats', st')"
  shows "\<not> index_inv (sv_codec S) (view (st_db st'))
    \<and> view (st_db (fst (GcSweeper_run S' turns st'))) DATA_KEYSPACE sk = Some v"
proof -
  have s: "stranded sk v ts (view (st_db st'))"
    by (rule fjall_store.failed_read_stranded [OF assms(1,4,5,7-11)])
  then have "\<not> index_inv (sv_codec S) (view (st_db st'))"
    using assms(6) by (auto simp: stranded_def index_inv_def)
  with fjall_store.run_stranded [OF assms(2) s] assms(3,6) show ?thesis by (auto simp: stranded_def)
qed

text \<open>A backend that cannot read the data keyspace.\<close>

definition flaky_fjall :: "mem_db fjall_ops" where
  "flaky_fjall = mem_fjall\<lparr>fj_get := (\<lambda>db ks k. Inl ''io'')\<rparr>"

definition flaky_env :: "mem_db store_env" where
  "flaky_env = mem_env\<lparr>sv_fjall := flaky_fjall\<rparr>"

lemma flaky_simps:
  "fj_get flaky_fjall = (\<lambda>db ks k. Inl ''io'')" "fj_contains_key flaky_fjall = fj_contains_key mem_fjall"
  "fj_insert flaky_fjall = fj_insert mem_fjall" "fj_remove flaky_fjall = fj_remove mem_fjall"
  "fj_commit flaky_fjall = fj_commit mem_fjall" "fj_prefix flaky_fjall = fj_prefix mem_fjall"
  "fj_iter flaky_fjall = fj_iter mem_fjall"
  by (simp_all add: flaky_fjall_def)

interpretation flaky: fjall_db flaky_fjall mem_view
  by (unfold_locales, unfold flaky_simps)
    ((rule mem.contains_Inr mem.insert_Inr mem.insert_Inl mem.remove_Inr mem.remove_Inl mem.commit_Inr mem.commit_Inl
        mem.prefix_sorted mem.prefix_sound mem.prefix_complete mem.iter_sorted mem.iter_sound mem.iter_complete;
      assumption) | simp)+

interpretation flaky_store: fjall_store flaky_env mem_view time_valid
  using mem_store.fjall_store_axioms flaky.fjall_db_axioms by (simp add: fjall_store_def flaky_env_def)

theorem failed_read_strands_entry_witness:
  "\<exists>st v stats' st'. fjall_set mem_env mem_store demo_bucket demo_key demo_value (Some 1500000000) = (Inr (), st)
     \<and> gc_step flaky_env 5 (Inr (expiry_index_key 1 (data_storage_key demo_bucket demo_key), []))
         \<lparr>expiry_scanned = 0, expiry_removed = 0, keys_removed = 0\<rparr> st = (Continue, stats', st')
     \<and> mem_view (st_db (fst (GcSweeper_run mem_env [Slept 2000000000, Slept 3000000000] st'))) DATA_KEYSPACE
         (data_storage_key demo_bucket demo_key) = Some v"
proof -
  let ?sk = "data_storage_key demo_bucket demo_key"
  let ?stats = "\<lparr>expiry_scanned = 0, expiry_removed = 0, keys_removed = 0\<rparr>"
  obtain st where st: "fjall_set mem_env mem_store demo_bucket demo_key demo_value (Some 1500000000) = (Inr (), st)"
    and np: "st_poisoned st = (\<lambda>_. False)"
    using mem_set_total [OF mem_store_unpoisoned] by blast
  obtain raw where raw: "encode_entry wire_codec demo_value (Some 1500000000) = Inr raw"
    and put: "put_entry mem_env mem_store ?sk raw (Some 1500000000) = (Inr (), st)"
    using mem_store.set_cases [OF st] by auto
  have v: "mem_view (st_db st) DATA_KEYSPACE ?sk = Some raw"
    using mem_store.put_entry_contents(1) [OF put] by (simp add: write_ops_def)
  have ex: "has_expiry (sv_codec flaky_env) raw 1"
    using mem_store.encode_expires [of demo_value "Some 1500000000" raw] raw
    by (simp add: has_expiry_def flaky_env_def wire_codec_def time_crate_def)
  have sk: "?sk \<noteq> []" by (simp add: data_storage_key_def)
  have le: "sint (1 :: i64) \<le> sint (5 :: i64)" by simp
  have rm: "fj_remove (sv_fjall flaky_env) (st_db st) EXPIRY_KEYSPACE (expiry_index_key 1 ?sk)
      = (Inr (), mem_apply (BRemove EXPIRY_KEYSPACE (expiry_index_key 1 ?sk)) (st_db st))"
    by (simp add: flaky_env_def flaky_simps mem_fjall_def del: mem_apply.simps)
  have get: "fj_get (sv_fjall flaky_env) db DATA_KEYSPACE ?sk = Inl ''io''" for db
    by (simp add: flaky_env_def flaky_simps)
  obtain stats' st' where step: "gc_step flaky_env 5 (Inr (expiry_index_key 1 ?sk, [])) ?stats st = (Continue, stats', st')"
    using parse_expiry_index_key_build [OF sk, of 1] np rm get
    by (simp add: gc_step_def gc_drop_entry_def lock_for_def Let_def)
  from failed_read_strands_entry [OF flaky_store.fjall_store_axioms mem_store.fjall_store_axioms _ np v ex le rm get sk step,
      of "[Slept 2000000000, Slept 3000000000]"]
  show ?thesis using st step by (auto simp: flaky_env_def)
qed

end
