(* ===== verification/Config.thy ===== *)
theory Config
  imports Backend
begin

text \<open>
  \<open>keydock-config/src/config\<close>: the process configuration.  A configuration is assembled from
  four layers, built-in defaults, a TOML file, \<open>KEYDOCK_*\<close> environment variables and the
  command line, and its root key is read from where the winning layer says.  The TOML text
  format and the code serde derives for it are a parameter (\<open>config_lib\<close>), and so is the
  file system; the hand-written deserialisation of \<open>root_key\<close> is modelled.
\<close>

section \<open>Paths\<close>

text \<open>A Unix path is its bytes; \<open>Path::join\<close> and \<open>Path::parent\<close> of the standard library.\<close>

type_synonym path = bytes

abbreviation PATH_SEP :: byte where "PATH_SEP \<equiv> 0x2F"

definition is_absolute :: "path \<Rightarrow> bool" where
  "is_absolute p = starts_with p [PATH_SEP]"

definition path_join :: "path \<Rightarrow> path \<Rightarrow> path" where
  "path_join dir p =
     (if is_absolute p then p
      else if dir = [] \<or> last dir = PATH_SEP then dir @ p
      else dir @ [PATH_SEP] @ p)"

text \<open>Trailing separators and \<open>.\<close> components do not count, except in front.\<close>

fun trim_segments :: "bytes list \<Rightarrow> bytes list" where
  "trim_segments [] = []"
| "trim_segments (s # segs) =
     s # rev (dropWhile (\<lambda>c. c = [] \<or> c = bs ''.'') (rev segs))"

fun join_segments :: "bytes list \<Rightarrow> path" where
  "join_segments [] = []"
| "join_segments [s] = s"
| "join_segments (s # segs) = s @ [PATH_SEP] @ join_segments segs"

definition path_parent :: "path \<Rightarrow> path option" where
  "path_parent p =
     (let segs = trim_segments (split_on PATH_SEP p) in
      if length segs \<le> 1 then (if segs = [[]] then None else Some [])
      else
        (let rest = trim_segments (butlast segs) in
         Some (if rest = [[]] then [PATH_SEP] else join_segments rest)))"

section \<open>Configuration data\<close>

datatype socket_addr =
    SocketAddrV4 byte byte byte byte "16 word"
  | SocketAddrV6 "16 word list" "16 word" "32 word" "32 word"

definition default_listen :: socket_addr where
  "default_listen = SocketAddrV4 127 0 0 1 8080"

record http_config =
  hc_listen :: socket_addr
  hc_metrics_listen :: "socket_addr option"

definition default_http_config :: http_config where
  "default_http_config = \<lparr>hc_listen = default_listen, hc_metrics_listen = None\<rparr>"

record paths_config =
  pc_data_dir :: path

definition default_paths_config :: paths_config where
  "default_paths_config = \<lparr>pc_data_dir = bs ''./data''\<rparr>"

record gc_config =
  gc_interval_secs :: u64

definition default_gc_interval_secs :: u64 where
  "default_gc_interval_secs = 60"

definition default_gc_config :: gc_config where
  "default_gc_config = \<lparr>gc_interval_secs = default_gc_interval_secs\<rparr>"

record rate_limit_config =
  rl_enabled :: bool
  rl_requests_per_hour :: u64

definition default_requests_per_hour :: u64 where
  "default_requests_per_hour = 1000"

definition default_rate_limit_config :: rate_limit_config where
  "default_rate_limit_config = \<lparr>rl_enabled = False, rl_requests_per_hour = default_requests_per_hour\<rparr>"

text \<open>\<open>LoadedSecret\<close>: a secret string whose only reader is \<open>expose_bytes\<close>.\<close>

datatype loaded_secret = LoadedSecret str

fun expose_bytes :: "loaded_secret \<Rightarrow> bytes" where
  "expose_bytes (LoadedSecret s) = s"

record config =
  cfg_http :: http_config
  cfg_paths :: paths_config
  cfg_log_json :: bool
  cfg_root_key :: loaded_secret
  cfg_gc :: gc_config
  cfg_rate_limit :: rate_limit_config

text \<open>The fields \<open>Debug\<close> prints, the root key replaced by a marker.\<close>

definition config_debug ::
  "config \<Rightarrow> http_config \<times> paths_config \<times> bool \<times> str \<times> gc_config \<times> rate_limit_config" where
  "config_debug c =
     (cfg_http c, cfg_paths c, cfg_log_json c, bs ''[REDACTED]'', cfg_gc c, cfg_rate_limit c)"

section \<open>Errors\<close>

datatype config_error =
    ConfigIo path string
  | ConfigParse path
  | MissingRootKey
  | EmptyRootKey
  | InsecureRootKeyPlaceholder
  | EnvNotUnicode str
  | MissingSecretEnv str
  | InvalidEnv str str
  | SecretFileIo path string

section \<open>The root key in TOML\<close>

datatype toml =
    TomlString str
  | TomlInteger i64
  | TomlFloat f64
  | TomlBoolean bool
  | TomlDatetime str
  | TomlArray "toml list"
  | TomlTable "(str \<times> toml) list"

fun type_str :: "toml \<Rightarrow> str" where
  "type_str (TomlString _) = bs ''string''"
| "type_str (TomlInteger _) = bs ''integer''"
| "type_str (TomlFloat _) = bs ''float''"
| "type_str (TomlBoolean _) = bs ''boolean''"
| "type_str (TomlDatetime _) = bs ''datetime''"
| "type_str (TomlArray _) = bs ''array''"
| "type_str (TomlTable _) = bs ''table''"

datatype raw_root_key = KeyInline str | KeyEnv str | KeyFile path

definition root_key_source :: "str \<Rightarrow> toml \<Rightarrow> str + raw_root_key" where
  "root_key_source k v =
     (case (k = bs ''value'', k = bs ''env'', k = bs ''file'', v) of
        (True, _, _, TomlString s) \<Rightarrow> Inr (KeyInline s)
      | (_, True, _, TomlString s) \<Rightarrow> Inr (KeyEnv s)
      | (_, _, True, TomlString s) \<Rightarrow> Inr (KeyFile s)
      | (a, b, c, _) \<Rightarrow>
          if a \<or> b \<or> c then Inl (bs ''root_key.'' @ k @ bs '' must be a string'')
          else Inl (bs ''unknown root_key source `'' @ k @ bs ''`; supported: `value`, `env`, `file`''))"

definition ONE_SOURCE :: str where
  "ONE_SOURCE = bs ''root_key table must contain exactly one source''"

fun root_key_table_loop :: "raw_root_key option \<Rightarrow> (str \<times> toml) list \<Rightarrow> str + raw_root_key" where
  "root_key_table_loop source [] = (case source of None \<Rightarrow> Inl ONE_SOURCE | Some k \<Rightarrow> Inr k)"
| "root_key_table_loop source ((k, v) # table) =
     (if source \<noteq> None then Inl ONE_SOURCE
      else and_then (root_key_source k v) (\<lambda>s. root_key_table_loop (Some s) table))"

definition parse_root_key_table :: "(str \<times> toml) list \<Rightarrow> str + raw_root_key" where
  "parse_root_key_table table = root_key_table_loop None table"

fun RawRootKey_deserialize :: "toml \<Rightarrow> str + raw_root_key" where
  "RawRootKey_deserialize (TomlString v) = Inr (KeyInline v)"
| "RawRootKey_deserialize (TomlTable t) = parse_root_key_table t"
| "RawRootKey_deserialize v = Inl (bs ''root_key must be a string or table, got '' @ type_str v)"

text \<open>\<open>Debug\<close> of a raw key: an inline secret is not shown.\<close>

fun raw_root_key_debug :: "raw_root_key \<Rightarrow> str \<times> str option" where
  "raw_root_key_debug (KeyInline _) = (bs ''Inline([REDACTED])'', None)"
| "raw_root_key_debug (KeyEnv name) = (bs ''Env'', Some name)"
| "raw_root_key_debug (KeyFile p) = (bs ''File'', Some p)"

section \<open>Third-party code\<close>

text \<open>
  \<open>RawConfig\<close> as serde's derived code reads it from TOML text, except that the value of
  \<open>root_key\<close> is left to the deserialiser above.
\<close>

record 'k raw_config_of =
  rc_http :: http_config
  rc_paths :: paths_config
  rc_log_json :: bool
  rc_root_key :: "'k option"
  rc_gc :: gc_config
  rc_rate_limit :: rate_limit_config

type_synonym raw_config = "raw_root_key raw_config_of"

definition default_raw_config :: raw_config where
  "default_raw_config =
     \<lparr>rc_http = default_http_config, rc_paths = default_paths_config, rc_log_json = False,
      rc_root_key = None, rc_gc = default_gc_config, rc_rate_limit = default_rate_limit_config\<rparr>"

record config_lib =
  cl_addr_parse :: "str \<Rightarrow> socket_addr option"
  cl_toml_from_str :: "str \<Rightarrow> toml raw_config_of option"
  cl_toml_to_string :: "config \<Rightarrow> str option"

text \<open>\<open>toml::from_str::<RawConfig>\<close>.\<close>

definition raw_config_from_str :: "config_lib \<Rightarrow> str \<Rightarrow> raw_config option" where
  "raw_config_from_str L text =
     (case cl_toml_from_str L text of
        None \<Rightarrow> None
      | Some r \<Rightarrow>
          (case rc_root_key r of
             None \<Rightarrow>
               Some \<lparr>rc_http = rc_http r, rc_paths = rc_paths r, rc_log_json = rc_log_json r,
                 rc_root_key = None, rc_gc = rc_gc r, rc_rate_limit = rc_rate_limit r\<rparr>
           | Some v \<Rightarrow>
               (case RawRootKey_deserialize v of
                  Inl _ \<Rightarrow> None
                | Inr k \<Rightarrow>
                    Some \<lparr>rc_http = rc_http r, rc_paths = rc_paths r, rc_log_json = rc_log_json r,
                      rc_root_key = Some k, rc_gc = rc_gc r, rc_rate_limit = rc_rate_limit r\<rparr>)))"

section \<open>The environment\<close>

definition ENV_HTTP_LISTEN :: str where "ENV_HTTP_LISTEN = bs ''KEYDOCK_HTTP_LISTEN''"
definition ENV_HTTP_METRICS_LISTEN :: str where "ENV_HTTP_METRICS_LISTEN = bs ''KEYDOCK_HTTP_METRICS_LISTEN''"
definition ENV_PATHS_DATA_DIR :: str where "ENV_PATHS_DATA_DIR = bs ''KEYDOCK_PATHS_DATA_DIR''"
definition ENV_LOG_JSON :: str where "ENV_LOG_JSON = bs ''KEYDOCK_LOG_JSON''"
definition ENV_ROOT_KEY :: str where "ENV_ROOT_KEY = bs ''KEYDOCK_ROOT_KEY''"
definition ENV_GC_INTERVAL_SECS :: str where "ENV_GC_INTERVAL_SECS = bs ''KEYDOCK_GC_INTERVAL_SECS''"
definition ENV_RATE_LIMIT_ENABLED :: str where "ENV_RATE_LIMIT_ENABLED = bs ''KEYDOCK_RATE_LIMIT_ENABLED''"
definition ENV_RATE_LIMIT_REQUESTS_PER_HOUR :: str where
  "ENV_RATE_LIMIT_REQUESTS_PER_HOUR = bs ''KEYDOCK_RATE_LIMIT_REQUESTS_PER_HOUR''"

text \<open>The trait \<open>EnvSource\<close>, and its implementation over the variables of the process.\<close>

type_synonym env_source = "str \<Rightarrow> config_error + str option"

definition ProcessEnv :: "(str \<rightharpoonup> bytes) \<Rightarrow> env_source" where
  "ProcessEnv vars name =
     (case vars name of
        None \<Rightarrow> Inr None
      | Some raw \<Rightarrow>
          (case from_utf8 raw of
             Some v \<Rightarrow> Inr (Some v)
           | None \<Rightarrow> Inl (EnvNotUnicode name)))"

text \<open>
  \<open>value.parse()\<close> with the reason of the error: \<open>u64::from_str\<close> reads digit by digit.
\<close>

fun u64_digits :: "int \<Rightarrow> bytes \<Rightarrow> str + u64" where
  "u64_digits acc [] = Inr (of_int acc)"
| "u64_digits acc (c # cs) =
     (if \<not> is_digit c then Inl (bs ''invalid digit found in string'')
      else if 2 ^ 64 \<le> 10 * acc + int (digit_val c) then Inl (bs ''number too large to fit in target type'')
      else u64_digits (10 * acc + int (digit_val c)) cs)"

definition u64_from_str :: "str \<Rightarrow> str + u64" where
  "u64_from_str s =
     (if s = [] then Inl (bs ''cannot parse integer from empty string'')
      else if s = [0x2B] then Inl (bs ''invalid digit found in string'')
      else u64_digits 0 (if hd s = 0x2B then tl s else s))"

definition addr_from_str :: "config_lib \<Rightarrow> str \<Rightarrow> str + socket_addr" where
  "addr_from_str L s =
     (case cl_addr_parse L s of None \<Rightarrow> Inl (bs ''invalid socket address syntax'') | Some a \<Rightarrow> Inr a)"

definition parse_env_value :: "(str \<Rightarrow> str + 'a) \<Rightarrow> str \<Rightarrow> str \<Rightarrow> config_error + 'a" where
  "parse_env_value from_str name v =
     (case from_str v of Inl reason \<Rightarrow> Inl (InvalidEnv name reason) | Inr x \<Rightarrow> Inr x)"

definition parse_optional_socket_addr :: "config_lib \<Rightarrow> str \<Rightarrow> str \<Rightarrow> config_error + socket_addr option" where
  "parse_optional_socket_addr L name v =
     (if trim v = [] then Inr None
      else and_then (parse_env_value (addr_from_str L) name v) (\<lambda>a. Inr (Some a)))"

definition parse_bool_env :: "str \<Rightarrow> str \<Rightarrow> config_error + bool" where
  "parse_bool_env name v =
     (let t = to_ascii_lowercase (trim v) in
      if t = bs ''true'' \<or> t = bs ''1'' then Inr True
      else if t = bs ''false'' \<or> t = bs ''0'' then Inr False
      else Inl (InvalidEnv name (bs ''expected true, false, 1, or 0'')))"

section \<open>Resolving the root key\<close>

definition INSECURE_ROOT_KEY_PLACEHOLDER :: str where
  "INSECURE_ROOT_KEY_PLACEHOLDER = bs ''REPLACE_WITH_SECRET_FROM_keydock_init_OR_LONG_RANDOM_VALUE''"

definition resolve_secret_file_path :: "path option \<Rightarrow> path \<Rightarrow> path" where
  "resolve_secret_file_path config_dir p =
     (if is_absolute p then p
      else (case config_dir of Some dir \<Rightarrow> path_join dir p | None \<Rightarrow> p))"

definition validate_root_key :: "str \<Rightarrow> config_error + unit" where
  "validate_root_key v =
     (let trimmed = trim v in
      if trimmed = [] then Inl EmptyRootKey
      else if trimmed = INSECURE_ROOT_KEY_PLACEHOLDER then Inl InsecureRootKeyPlaceholder
      else Inr ())"

text \<open>\<open>trim_end_matches(['\r', '\n'])\<close>.\<close>

definition trim_newlines :: "str \<Rightarrow> str" where
  "trim_newlines s = rev (dropWhile (\<lambda>b. b = 0x0D \<or> b = 0x0A) (rev s))"

text \<open>\<open>fs::read_to_string\<close> is the argument \<open>read\<close>.\<close>

definition root_key_value ::
  "(path \<Rightarrow> string + str) \<Rightarrow> path option \<Rightarrow> env_source \<Rightarrow> raw_root_key \<Rightarrow> config_error + str" where
  "root_key_value read config_dir env source =
     (case source of
        KeyInline v \<Rightarrow> Inr v
      | KeyEnv name \<Rightarrow>
          and_then (env name) (\<lambda>v. case v of None \<Rightarrow> Inl (MissingSecretEnv name) | Some s \<Rightarrow> Inr s)
      | KeyFile p \<Rightarrow>
          (let p' = resolve_secret_file_path config_dir p in
           case read p' of
             Inl e \<Rightarrow> Inl (SecretFileIo p' e)
           | Inr text \<Rightarrow> Inr (trim_newlines text)))"

definition resolve_root_key ::
  "(path \<Rightarrow> string + str) \<Rightarrow> raw_root_key option \<Rightarrow> path option \<Rightarrow> env_source \<Rightarrow> config_error + loaded_secret" where
  "resolve_root_key read source config_dir env =
     (case source of
        None \<Rightarrow> Inl MissingRootKey
      | Some k \<Rightarrow>
          and_then (root_key_value read config_dir env k) (\<lambda>v.
          and_then (validate_root_key v) (\<lambda>_. Inr (LoadedSecret v))))"

section \<open>Layers\<close>

text \<open>One \<open>if let Some(value) = env.get(NAME)?\<close> of \<open>merge_env\<close>.\<close>

definition env_override ::
  "env_source \<Rightarrow> str \<Rightarrow> (str \<Rightarrow> 'c \<Rightarrow> config_error + 'c) \<Rightarrow> 'c \<Rightarrow> config_error + 'c" where
  "env_override env name f c =
     and_then (env name) (\<lambda>v. case v of None \<Rightarrow> Inr c | Some s \<Rightarrow> f s c)"

definition merge_env :: "config_lib \<Rightarrow> env_source \<Rightarrow> raw_config \<Rightarrow> config_error + raw_config" where
  "merge_env L env c0 =
     and_then (env_override env ENV_HTTP_LISTEN (\<lambda>v c.
       and_then (parse_env_value (addr_from_str L) ENV_HTTP_LISTEN v) (\<lambda>a.
         Inr (c\<lparr>rc_http := (rc_http c)\<lparr>hc_listen := a\<rparr>\<rparr>))) c0) (\<lambda>c1.
     and_then (env_override env ENV_HTTP_METRICS_LISTEN (\<lambda>v c.
       and_then (parse_optional_socket_addr L ENV_HTTP_METRICS_LISTEN v) (\<lambda>a.
         Inr (c\<lparr>rc_http := (rc_http c)\<lparr>hc_metrics_listen := a\<rparr>\<rparr>))) c1) (\<lambda>c2.
     and_then (env_override env ENV_PATHS_DATA_DIR (\<lambda>v c.
         Inr (c\<lparr>rc_paths := (rc_paths c)\<lparr>pc_data_dir := v\<rparr>\<rparr>)) c2) (\<lambda>c3.
     and_then (env_override env ENV_LOG_JSON (\<lambda>v c.
       and_then (parse_bool_env ENV_LOG_JSON v) (\<lambda>b. Inr (c\<lparr>rc_log_json := b\<rparr>))) c3) (\<lambda>c4.
     and_then (env_override env ENV_ROOT_KEY (\<lambda>v c. Inr (c\<lparr>rc_root_key := Some (KeyInline v)\<rparr>)) c4) (\<lambda>c5.
     and_then (env_override env ENV_GC_INTERVAL_SECS (\<lambda>v c.
       and_then (parse_env_value u64_from_str ENV_GC_INTERVAL_SECS v) (\<lambda>n.
         Inr (c\<lparr>rc_gc := (rc_gc c)\<lparr>gc_interval_secs := n\<rparr>\<rparr>))) c5) (\<lambda>c6.
     and_then (env_override env ENV_RATE_LIMIT_ENABLED (\<lambda>v c.
       and_then (parse_bool_env ENV_RATE_LIMIT_ENABLED v) (\<lambda>b.
         Inr (c\<lparr>rc_rate_limit := (rc_rate_limit c)\<lparr>rl_enabled := b\<rparr>\<rparr>))) c6) (\<lambda>c7.
     env_override env ENV_RATE_LIMIT_REQUESTS_PER_HOUR (\<lambda>v c.
       and_then (parse_env_value u64_from_str ENV_RATE_LIMIT_REQUESTS_PER_HOUR v) (\<lambda>n.
         Inr (c\<lparr>rc_rate_limit := (rc_rate_limit c)\<lparr>rl_requests_per_hour := n\<rparr>\<rparr>))) c7)))))))"

definition merge_cli :: "socket_addr option \<Rightarrow> path option \<Rightarrow> raw_config \<Rightarrow> raw_config" where
  "merge_cli listen data_dir c =
     (let c1 = (case listen of None \<Rightarrow> c | Some a \<Rightarrow> c\<lparr>rc_http := (rc_http c)\<lparr>hc_listen := a\<rparr>\<rparr>)
      in (case data_dir of None \<Rightarrow> c1 | Some d \<Rightarrow> c1\<lparr>rc_paths := (rc_paths c1)\<lparr>pc_data_dir := d\<rparr>\<rparr>))"

definition RawConfig_resolve ::
  "(path \<Rightarrow> string + str) \<Rightarrow> raw_config \<Rightarrow> path option \<Rightarrow> env_source \<Rightarrow> config_error + config" where
  "RawConfig_resolve read c config_dir env =
     and_then (resolve_root_key read (rc_root_key c) config_dir env) (\<lambda>root_key.
     Inr \<lparr>cfg_http = rc_http c, cfg_paths = rc_paths c, cfg_log_json = rc_log_json c,
       cfg_root_key = root_key, cfg_gc = rc_gc c, cfg_rate_limit = rc_rate_limit c\<rparr>)"

section \<open>Loading\<close>

record config_sources =
  src_config_path :: "path option"
  src_listen :: "socket_addr option"
  src_data_dir :: "path option"
  src_apply_env :: bool

definition read_raw_config ::
  "config_lib \<Rightarrow> (path \<Rightarrow> string + str) \<Rightarrow> path \<Rightarrow> config_error + raw_config" where
  "read_raw_config L read p =
     (case read p of
        Inl e \<Rightarrow> Inl (ConfigIo p e)
      | Inr text \<Rightarrow>
          (case raw_config_from_str L text of
             None \<Rightarrow> Inl (ConfigParse p)
           | Some c \<Rightarrow> Inr c))"

definition load_from_file_with_env ::
  "config_lib \<Rightarrow> (path \<Rightarrow> string + str) \<Rightarrow> path \<Rightarrow> env_source \<Rightarrow> config_error + config" where
  "load_from_file_with_env L read p env =
     and_then (read_raw_config L read p) (\<lambda>c. RawConfig_resolve read c (path_parent p) env)"

definition load_from_sources_with_env ::
  "config_lib \<Rightarrow> (path \<Rightarrow> string + str) \<Rightarrow> config_sources \<Rightarrow> env_source \<Rightarrow> config_error + config" where
  "load_from_sources_with_env L read sources env =
     and_then
       (case src_config_path sources of
          Some p \<Rightarrow> and_then (read_raw_config L read p) (\<lambda>c. Inr (c, path_parent p))
        | None \<Rightarrow> Inr (default_raw_config, None)) (\<lambda>(c, config_dir).
     and_then (if src_apply_env sources then merge_env L env c else Inr c) (\<lambda>c'.
     RawConfig_resolve read (merge_cli (src_listen sources) (src_data_dir sources) c') config_dir env))"

text \<open>The two entry points over the process environment, whose variables are \<open>vars\<close>.\<close>

definition load_from_file ::
  "config_lib \<Rightarrow> (path \<Rightarrow> string + str) \<Rightarrow> (str \<rightharpoonup> bytes) \<Rightarrow> path \<Rightarrow> config_error + config" where
  "load_from_file L read vars p = load_from_file_with_env L read p (ProcessEnv vars)"

definition load_from_sources ::
  "config_lib \<Rightarrow> (path \<Rightarrow> string + str) \<Rightarrow> (str \<rightharpoonup> bytes) \<Rightarrow> config_sources \<Rightarrow> config_error + config" where
  "load_from_sources L read vars sources = load_from_sources_with_env L read sources (ProcessEnv vars)"

section \<open>Precedence\<close>

text \<open>
  The value an environment variable contributes: none when the variable is unset or the
  layer is switched off.
\<close>

definition env_layer :: "bool \<Rightarrow> env_source \<Rightarrow> str \<Rightarrow> (str \<Rightarrow> 'e + 'a) \<Rightarrow> 'a option" where
  "env_layer apply_env env name parse =
     (if apply_env then
        (case env name of
           Inr (Some v) \<Rightarrow> (case parse v of Inr x \<Rightarrow> Some x | Inl _ \<Rightarrow> None)
         | _ \<Rightarrow> None)
      else None)"

fun first_layer :: "'a option list \<Rightarrow> 'a \<Rightarrow> 'a" where
  "first_layer [] d = d"
| "first_layer (None # ls) d = first_layer ls d"
| "first_layer (Some x # ls) d = x"

text \<open>The layer below the environment: the file, or the built-in defaults.\<close>

definition base_config :: "config_lib \<Rightarrow> (path \<Rightarrow> string + str) \<Rightarrow> path option \<Rightarrow> config_error + raw_config" where
  "base_config L read p =
     (case p of None \<Rightarrow> Inr default_raw_config | Some p \<Rightarrow> read_raw_config L read p)"

text \<open>\<open>merge_env\<close> as one function: every variable that is set decides its own field.\<close>

definition env_layered :: "config_lib \<Rightarrow> bool \<Rightarrow> env_source \<Rightarrow> raw_config \<Rightarrow> raw_config" where
  "env_layered L on env c =
     \<lparr>rc_http =
        \<lparr>hc_listen = first_layer [env_layer on env ENV_HTTP_LISTEN (addr_from_str L)] (hc_listen (rc_http c)),
         hc_metrics_listen =
           first_layer [env_layer on env ENV_HTTP_METRICS_LISTEN
             (parse_optional_socket_addr L ENV_HTTP_METRICS_LISTEN)] (hc_metrics_listen (rc_http c))\<rparr>,
      rc_paths = \<lparr>pc_data_dir =
        first_layer [env_layer on env ENV_PATHS_DATA_DIR (Inr :: str \<Rightarrow> unit + str)] (pc_data_dir (rc_paths c))\<rparr>,
      rc_log_json = first_layer [env_layer on env ENV_LOG_JSON (parse_bool_env ENV_LOG_JSON)] (rc_log_json c),
      rc_root_key =
        first_layer [env_layer on env ENV_ROOT_KEY (\<lambda>v. Inr (Some (KeyInline v)) :: unit + raw_root_key option)]
          (rc_root_key c),
      rc_gc = \<lparr>gc_interval_secs =
        first_layer [env_layer on env ENV_GC_INTERVAL_SECS u64_from_str] (gc_interval_secs (rc_gc c))\<rparr>,
      rc_rate_limit =
        \<lparr>rl_enabled = first_layer [env_layer on env ENV_RATE_LIMIT_ENABLED (parse_bool_env ENV_RATE_LIMIT_ENABLED)]
           (rl_enabled (rc_rate_limit c)),
         rl_requests_per_hour =
           first_layer [env_layer on env ENV_RATE_LIMIT_REQUESTS_PER_HOUR u64_from_str]
             (rl_requests_per_hour (rc_rate_limit c))\<rparr>\<rparr>"

lemma env_override_Inr:
  "env_override env name f c = Inr c' \<longleftrightarrow>
     env name = Inr None \<and> c' = c \<or> (\<exists>v. env name = Inr (Some v) \<and> f v c = Inr c')"
  by (cases "env name") (auto simp: env_override_def split: option.splits)

lemma env_layer_simps [simp]:
  "env_layer False env name parse = None"
  "env name = Inr None \<Longrightarrow> env_layer on env name parse = None"
  "env name = Inr (Some v) \<Longrightarrow> env_layer True env name parse = (case parse v of Inr x \<Rightarrow> Some x | Inl _ \<Rightarrow> None)"
  by (auto simp: env_layer_def)

lemma parse_env_value_Inr: "parse_env_value from_str name v = Inr x \<longleftrightarrow> from_str v = Inr x"
  by (auto simp: parse_env_value_def split: sum.splits)

text \<open>Each step of \<open>merge_env\<close> sets the one field its variable names.\<close>

lemma env_override_field:
  assumes "env_override env name (\<lambda>v c. and_then (parse v) (\<lambda>x. Inr (upd x c))) c = Inr c'"
    and "\<And>v x. parse v = Inr x \<longleftrightarrow> parse' v = Inr x" and "upd (get c) c = c"
  shows "c' = upd (first_layer [env_layer True env name parse'] (get c)) c"
proof (cases "env name = Inr None")
  case False
  then obtain v x where "env name = Inr (Some v)" and "parse v = Inr x" and "c' = upd x c"
    using assms(1) by (auto simp: env_override_Inr and_then_Inr)
  then show ?thesis using assms(2) [of v x] by simp
qed (use assms(1,3) in \<open>auto simp: env_override_Inr\<close>)

lemma merge_env_layered:
  assumes "merge_env L env c = Inr c'"
  shows "c' = env_layered L True env c"
proof -
  obtain c1 c2 c3 c4 c5 c6 c7 where
    s: "env_override env ENV_HTTP_LISTEN (\<lambda>v c.
       and_then (parse_env_value (addr_from_str L) ENV_HTTP_LISTEN v) (\<lambda>a.
         Inr (c\<lparr>rc_http := (rc_http c)\<lparr>hc_listen := a\<rparr>\<rparr>))) c = Inr c1"
    "env_override env ENV_HTTP_METRICS_LISTEN (\<lambda>v c.
       and_then (parse_optional_socket_addr L ENV_HTTP_METRICS_LISTEN v) (\<lambda>a.
         Inr (c\<lparr>rc_http := (rc_http c)\<lparr>hc_metrics_listen := a\<rparr>\<rparr>))) c1 = Inr c2"
    "env_override env ENV_PATHS_DATA_DIR (\<lambda>v c.
         and_then (Inr v) (\<lambda>v. Inr (c\<lparr>rc_paths := (rc_paths c)\<lparr>pc_data_dir := v\<rparr>\<rparr>))) c2 = Inr c3"
    "env_override env ENV_LOG_JSON (\<lambda>v c.
       and_then (parse_bool_env ENV_LOG_JSON v) (\<lambda>b. Inr (c\<lparr>rc_log_json := b\<rparr>))) c3 = Inr c4"
    "env_override env ENV_ROOT_KEY (\<lambda>v c.
       and_then (Inr (Some (KeyInline v))) (\<lambda>k. Inr (c\<lparr>rc_root_key := k\<rparr>))) c4 = Inr c5"
    "env_override env ENV_GC_INTERVAL_SECS (\<lambda>v c.
       and_then (parse_env_value u64_from_str ENV_GC_INTERVAL_SECS v) (\<lambda>n.
         Inr (c\<lparr>rc_gc := (rc_gc c)\<lparr>gc_interval_secs := n\<rparr>\<rparr>))) c5 = Inr c6"
    "env_override env ENV_RATE_LIMIT_ENABLED (\<lambda>v c.
       and_then (parse_bool_env ENV_RATE_LIMIT_ENABLED v) (\<lambda>b.
         Inr (c\<lparr>rc_rate_limit := (rc_rate_limit c)\<lparr>rl_enabled := b\<rparr>\<rparr>))) c6 = Inr c7"
    "env_override env ENV_RATE_LIMIT_REQUESTS_PER_HOUR (\<lambda>v c.
       and_then (parse_env_value u64_from_str ENV_RATE_LIMIT_REQUESTS_PER_HOUR v) (\<lambda>n.
         Inr (c\<lparr>rc_rate_limit := (rc_rate_limit c)\<lparr>rl_requests_per_hour := n\<rparr>\<rparr>))) c7 = Inr c'"
    using assms by (auto simp: merge_env_def and_then_Inr)
  note env_override_field [OF s(1) parse_env_value_Inr, where get = "\<lambda>c. hc_listen (rc_http c)", simplified]
    and env_override_field [OF s(2) refl, where get = "\<lambda>c. hc_metrics_listen (rc_http c)", simplified]
    and env_override_field [where parse' = "Inr :: str \<Rightarrow> unit + str", OF s(3),
      where get = "\<lambda>c. pc_data_dir (rc_paths c)", simplified]
    and env_override_field [OF s(4) refl, where get = rc_log_json, simplified]
    and env_override_field [where parse' = "\<lambda>v. Inr (Some (KeyInline v)) :: unit + raw_root_key option", OF s(5),
      where get = rc_root_key, simplified]
    and env_override_field [OF s(6) parse_env_value_Inr, where get = "\<lambda>c. gc_interval_secs (rc_gc c)", simplified]
    and env_override_field [OF s(7) refl, where get = "\<lambda>c. rl_enabled (rc_rate_limit c)", simplified]
    and env_override_field [OF s(8) parse_env_value_Inr, where get = "\<lambda>c. rl_requests_per_hour (rc_rate_limit c)",
      simplified]
  then show ?thesis by (simp add: env_layered_def)
qed

lemma load_from_sources_layers:
  "load_from_sources_with_env L read src env =
     and_then (base_config L read (src_config_path src)) (\<lambda>c.
     and_then (if src_apply_env src then merge_env L env c else Inr c) (\<lambda>c'.
     RawConfig_resolve read (merge_cli (src_listen src) (src_data_dir src) c')
       (case src_config_path src of None \<Rightarrow> None | Some p \<Rightarrow> path_parent p) env))"
  by (simp add: load_from_sources_with_env_def base_config_def and_then_assoc split: option.split)

text \<open>What a successful load went through.\<close>

lemma load_from_sources_Inr:
  assumes "load_from_sources_with_env L read src env = Inr cfg"
  obtains base c' dir where "base_config L read (src_config_path src) = Inr base"
    and "dir = (case src_config_path src of None \<Rightarrow> None | Some p \<Rightarrow> path_parent p)"
    and "c' = env_layered L (src_apply_env src) env base"
    and "src_apply_env src \<Longrightarrow> merge_env L env base = Inr c'"
    and "RawConfig_resolve read (merge_cli (src_listen src) (src_data_dir src) c') dir env = Inr cfg"
proof -
  obtain base c' dir where b: "base_config L read (src_config_path src) = Inr base"
    and d: "dir = (case src_config_path src of None \<Rightarrow> None | Some p \<Rightarrow> path_parent p)"
    and m: "(if src_apply_env src then merge_env L env base else Inr base) = Inr c'"
    and r: "RawConfig_resolve read (merge_cli (src_listen src) (src_data_dir src) c') dir env = Inr cfg"
    using assms by (auto simp: load_from_sources_layers and_then_Inr)
  have "c' = env_layered L (src_apply_env src) env base"
    using m merge_env_layered by (cases "src_apply_env src") (auto simp: env_layered_def)
  with b d r m show thesis by (intro that) simp_all
qed

lemma merge_cli_fields:
  "rc_http (merge_cli l d c) = (rc_http c)\<lparr>hc_listen := first_layer [l] (hc_listen (rc_http c))\<rparr>"
  "rc_paths (merge_cli l d c) = (rc_paths c)\<lparr>pc_data_dir := first_layer [d] (pc_data_dir (rc_paths c))\<rparr>"
  "rc_log_json (merge_cli l d c) = rc_log_json c" "rc_root_key (merge_cli l d c) = rc_root_key c"
  "rc_gc (merge_cli l d c) = rc_gc c" "rc_rate_limit (merge_cli l d c) = rc_rate_limit c"
  by (auto simp: merge_cli_def Let_def split: option.splits)

lemma RawConfig_resolve_Inr:
  "RawConfig_resolve read c dir env = Inr cfg \<longleftrightarrow>
     (\<exists>k v. rc_root_key c = Some k \<and> root_key_value read dir env k = Inr v \<and> validate_root_key v = Inr () \<and>
       cfg = \<lparr>cfg_http = rc_http c, cfg_paths = rc_paths c, cfg_log_json = rc_log_json c,
         cfg_root_key = LoadedSecret v, cfg_gc = rc_gc c, cfg_rate_limit = rc_rate_limit c\<rparr>)"
  by (auto simp: RawConfig_resolve_def resolve_root_key_def and_then_Inr split: option.splits)

lemma validate_root_key_Inr:
  "validate_root_key v = Inr () \<longleftrightarrow> trim v \<noteq> [] \<and> trim v \<noteq> INSECURE_ROOT_KEY_PLACEHOLDER"
  by (auto simp: validate_root_key_def Let_def)

lemma first_layer_append: "first_layer (ls @ [l]) d = first_layer ls (first_layer [l] d)"
  by (induction ls d rule: first_layer.induct) (auto split: option.splits)

lemma first_layer_two: "first_layer [a, b] d = first_layer [a] (first_layer [b] d)"
  using first_layer_append [of "[a]" b d] by simp

text \<open>The \<open>KEYDOCK_*\<close> variables that are set can be read and parse as what they configure.\<close>

definition env_reads :: "env_source \<Rightarrow> str \<Rightarrow> (str \<Rightarrow> 'e + 'a) \<Rightarrow> bool" where
  "env_reads env name parse =
     (case env name of
        Inl _ \<Rightarrow> False
      | Inr None \<Rightarrow> True
      | Inr (Some v) \<Rightarrow> (case parse v of Inl _ \<Rightarrow> False | Inr _ \<Rightarrow> True))"

definition env_well_formed :: "config_lib \<Rightarrow> env_source \<Rightarrow> bool" where
  "env_well_formed L env \<longleftrightarrow>
     env_reads env ENV_HTTP_LISTEN (addr_from_str L) \<and>
     env_reads env ENV_HTTP_METRICS_LISTEN (parse_optional_socket_addr L ENV_HTTP_METRICS_LISTEN) \<and>
     env_reads env ENV_PATHS_DATA_DIR (Inr :: str \<Rightarrow> unit + str) \<and>
     env_reads env ENV_LOG_JSON (parse_bool_env ENV_LOG_JSON) \<and>
     env_reads env ENV_ROOT_KEY (Inr :: str \<Rightarrow> unit + str) \<and>
     env_reads env ENV_GC_INTERVAL_SECS u64_from_str \<and>
     env_reads env ENV_RATE_LIMIT_ENABLED (parse_bool_env ENV_RATE_LIMIT_ENABLED) \<and>
     env_reads env ENV_RATE_LIMIT_REQUESTS_PER_HOUR u64_from_str"

lemma env_override_reads:
  "env_override env name (\<lambda>v c. and_then (parse v) (f c)) c = Inr c' \<Longrightarrow> env_reads env name parse"
  by (auto simp: env_override_Inr and_then_Inr env_reads_def split: sum.splits option.splits)

lemma env_override_reads_any:
  "env_override env name f c = Inr c' \<Longrightarrow> env_reads env name (Inr :: str \<Rightarrow> unit + str)"
  by (auto simp: env_override_Inr env_reads_def)

lemma env_reads_parse_env_value:
  "env_reads env name (parse_env_value parse name') = env_reads env name parse"
  by (auto simp: env_reads_def parse_env_value_def split: sum.splits option.splits)

lemma merge_env_well_formed: "merge_env L env c = Inr c' \<Longrightarrow> env_well_formed L env"
  unfolding merge_env_def env_well_formed_def and_then_Inr
  by (elim exE conjE) (simp add: env_override_reads env_override_reads_any
      env_override_reads [THEN env_reads_parse_env_value [THEN iffD1]])

section \<open>A library instance\<close>

text \<open>
  A concrete \<open>config_lib\<close>: IPv4 addresses are parsed as \<open>a.b.c.d:port\<close> texts, and the text of
  a configuration is its fields in the wire format of the entry codec, as ASCII.  The law the
  development relies on: what is printed from a configuration is read back as it, with the
  secret as an inline string.
\<close>

definition parse_octet :: "str \<Rightarrow> byte option" where
  "parse_octet s =
     (if all_digits s \<and> length s \<le> 3 \<and> int (dec_val s) < 256 \<and> (1 < length s \<longrightarrow> hd s \<noteq> 0x30)
      then Some (of_nat (dec_val s)) else None)"

definition parse_addr_v4 :: "str \<Rightarrow> socket_addr option" where
  "parse_addr_v4 s =
     (case split_once 0x3A s of
        None \<Rightarrow> None
      | Some (host, port) \<Rightarrow>
          (case map parse_octet (split_on 0x2E host) of
             [Some a, Some b, Some c, Some d] \<Rightarrow>
               if all_digits port \<and> int (dec_val port) < 65536
               then Some (SocketAddrV4 a b c d (of_nat (dec_val port))) else None
           | _ \<Rightarrow> None))"

fun put_addr :: "socket_addr \<Rightarrow> bytes option" where
  "put_addr (SocketAddrV4 a b c d p) = Some ([a, b, c, d] @ put_int (uint p))"
| "put_addr (SocketAddrV6 _ _ _ _) = None"

definition get_addr :: "bytes \<Rightarrow> (socket_addr \<times> bytes) option" where
  "get_addr s =
     (case s of
        a # b # c # d # r \<Rightarrow> (case get_int r of None \<Rightarrow> None | Some (p, r') \<Rightarrow> Some (SocketAddrV4 a b c d (of_int p), r'))
      | _ \<Rightarrow> None)"

definition put_config :: "config \<Rightarrow> str option" where
  "put_config c =
     (case (put_addr (hc_listen (cfg_http c)), hc_metrics_listen (cfg_http c)) of
        (Some l, None) \<Rightarrow>
          Some (nibble_enc (l @ put_bytes (pc_data_dir (cfg_paths c)) @ put_bool (cfg_log_json c) @
            put_bytes (expose_bytes (cfg_root_key c)) @ put_int (uint (gc_interval_secs (cfg_gc c))) @
            put_bool (rl_enabled (cfg_rate_limit c)) @ put_int (uint (rl_requests_per_hour (cfg_rate_limit c))) @ [0x0A]))
      | _ \<Rightarrow> None)"

definition get_config :: "str \<Rightarrow> toml raw_config_of option" where
  "get_config s =
     do {
       s \<leftarrow> nibble_dec s;
       (l, s) \<leftarrow> get_addr s;
       (d, s) \<leftarrow> get_bytes s;
       (j, s) \<leftarrow> get_bool s;
       (k, s) \<leftarrow> get_bytes s;
       (g, s) \<leftarrow> get_int s;
       (e, s) \<leftarrow> get_bool s;
       (n, s) \<leftarrow> get_int s;
       Some \<lparr>rc_http = \<lparr>hc_listen = l, hc_metrics_listen = None\<rparr>, rc_paths = \<lparr>pc_data_dir = d\<rparr>,
         rc_log_json = j, rc_root_key = Some (TomlString k), rc_gc = \<lparr>gc_interval_secs = of_int g\<rparr>,
         rc_rate_limit = \<lparr>rl_enabled = e, rl_requests_per_hour = of_int n\<rparr>\<rparr>
     }"

definition wire_config :: config_lib where
  "wire_config = \<lparr>cl_addr_parse = parse_addr_v4, cl_toml_from_str = get_config, cl_toml_to_string = put_config\<rparr>"

definition raw_of_config :: "config \<Rightarrow> toml raw_config_of" where
  "raw_of_config c =
     \<lparr>rc_http = cfg_http c, rc_paths = cfg_paths c, rc_log_json = cfg_log_json c,
      rc_root_key = Some (TomlString (expose_bytes (cfg_root_key c))), rc_gc = cfg_gc c,
      rc_rate_limit = cfg_rate_limit c\<rparr>"

locale toml_api =
  fixes L :: config_lib
  assumes toml_read_back: "cl_toml_to_string L c = Some text \<Longrightarrow> cl_toml_from_str L text = Some (raw_of_config c)"
    and toml_utf8: "cl_toml_to_string L c = Some text \<Longrightarrow> utf8_valid text"
begin

lemma config_read_back:
  "cl_toml_to_string L c = Some text \<Longrightarrow>
     raw_config_from_str L text =
       Some \<lparr>rc_http = cfg_http c, rc_paths = cfg_paths c, rc_log_json = cfg_log_json c,
         rc_root_key = Some (KeyInline (expose_bytes (cfg_root_key c))), rc_gc = cfg_gc c,
         rc_rate_limit = cfg_rate_limit c\<rparr>"
  using toml_read_back by (simp add: raw_config_from_str_def raw_of_config_def)

end

lemma get_put_addr: "put_addr a = Some w \<Longrightarrow> get_addr (w @ r) = Some (a, r)"
  by (cases a) (auto simp: get_addr_def)

interpretation wire_toml: toml_api wire_config
proof unfold_locales
  fix c s assume p: "cl_toml_to_string wire_config c = Some s"
  obtain l where l: "put_addr (hc_listen (cfg_http c)) = Some l" and m: "hc_metrics_listen (cfg_http c) = None"
    using p by (auto simp: wire_config_def put_config_def split: option.splits)
  show "cl_toml_from_str wire_config s = Some (raw_of_config c)"
    using p l m get_put_addr [OF l]
    by (auto simp: wire_config_def put_config_def get_config_def raw_of_config_def nibble_roundtrip
        intro!: http_config.equality paths_config.equality gc_config.equality rate_limit_config.equality)
  show "utf8_valid s" using p by (auto simp: wire_config_def put_config_def nibble_utf8 split: option.splits)
qed

section \<open>Properties\<close>

text \<open>
  C25. Precedence: a configuration that loads takes every setting from the highest layer that
  gives it, the command line over the \<open>KEYDOCK_*\<close> environment over the file over the built-in
  defaults; the environment layer counts only when it is switched on.
\<close>

theorem config_precedence:
  assumes "load_from_sources_with_env L read src env = Inr cfg"
  shows "\<exists>base. base_config L read (src_config_path src) = Inr base \<and>
      hc_listen (cfg_http cfg) =
        first_layer [src_listen src, env_layer (src_apply_env src) env ENV_HTTP_LISTEN (addr_from_str L)]
          (hc_listen (rc_http base)) \<and>
      hc_metrics_listen (cfg_http cfg) =
        first_layer [env_layer (src_apply_env src) env ENV_HTTP_METRICS_LISTEN
          (parse_optional_socket_addr L ENV_HTTP_METRICS_LISTEN)] (hc_metrics_listen (rc_http base)) \<and>
      pc_data_dir (cfg_paths cfg) =
        first_layer [src_data_dir src, env_layer (src_apply_env src) env ENV_PATHS_DATA_DIR (Inr :: str \<Rightarrow> unit + str)]
          (pc_data_dir (rc_paths base)) \<and>
      cfg_log_json cfg =
        first_layer [env_layer (src_apply_env src) env ENV_LOG_JSON (parse_bool_env ENV_LOG_JSON)] (rc_log_json base) \<and>
      gc_interval_secs (cfg_gc cfg) =
        first_layer [env_layer (src_apply_env src) env ENV_GC_INTERVAL_SECS u64_from_str] (gc_interval_secs (rc_gc base)) \<and>
      rl_enabled (cfg_rate_limit cfg) =
        first_layer [env_layer (src_apply_env src) env ENV_RATE_LIMIT_ENABLED (parse_bool_env ENV_RATE_LIMIT_ENABLED)]
          (rl_enabled (rc_rate_limit base)) \<and>
      rl_requests_per_hour (cfg_rate_limit cfg) =
        first_layer [env_layer (src_apply_env src) env ENV_RATE_LIMIT_REQUESTS_PER_HOUR u64_from_str]
          (rl_requests_per_hour (rc_rate_limit base)) \<and>
      (\<exists>k. first_layer [env_layer (src_apply_env src) env ENV_ROOT_KEY
              (\<lambda>v. Inr (Some (KeyInline v)) :: unit + raw_root_key option)] (rc_root_key base) = Some k \<and>
           root_key_value read (case src_config_path src of None \<Rightarrow> None | Some p \<Rightarrow> path_parent p) env k =
             Inr (expose_bytes (cfg_root_key cfg)))"
  using assms
  by (rule load_from_sources_Inr) (auto simp: RawConfig_resolve_Inr merge_cli_fields env_layered_def first_layer_two)

definition demo_sources :: config_sources where
  "demo_sources = \<lparr>src_config_path = None, src_listen = Some (SocketAddrV4 0 0 0 0 9000), src_data_dir = None, src_apply_env = True\<rparr>"

definition demo_vars :: "str \<rightharpoonup> bytes" where
  "demo_vars =
     map_of [(ENV_HTTP_LISTEN, bs ''10.0.0.1:80''), (ENV_ROOT_KEY, bs ''s3cret''), (ENV_GC_INTERVAL_SECS, bs ''5'')]"

definition no_files :: "path \<Rightarrow> string + str" where
  "no_files p = Inl ''not found''"

lemma demo_load:
  "load_from_sources wire_config no_files demo_vars demo_sources =
     Inr \<lparr>cfg_http = \<lparr>hc_listen = SocketAddrV4 0 0 0 0 9000, hc_metrics_listen = None\<rparr>,
       cfg_paths = \<lparr>pc_data_dir = bs ''./data''\<rparr>, cfg_log_json = False, cfg_root_key = LoadedSecret (bs ''s3cret''),
       cfg_gc = \<lparr>gc_interval_secs = 5\<rparr>, cfg_rate_limit = default_rate_limit_config\<rparr>"
  by code_simp

theorem config_precedence_witness:
  "\<exists>cfg. load_from_sources_with_env wire_config no_files demo_sources (ProcessEnv demo_vars) = Inr cfg \<and>
     hc_listen (cfg_http cfg) =
       first_layer [src_listen demo_sources,
         env_layer (src_apply_env demo_sources) (ProcessEnv demo_vars) ENV_HTTP_LISTEN (addr_from_str wire_config)]
         default_listen"
proof -
  obtain cfg where l: "load_from_sources_with_env wire_config no_files demo_sources (ProcessEnv demo_vars) = Inr cfg"
    using demo_load by (simp add: load_from_sources_def)
  have "base_config wire_config no_files (src_config_path demo_sources) = Inr default_raw_config"
    by (simp add: base_config_def demo_sources_def)
  then show ?thesis
    using config_precedence [OF l] l by (auto simp: default_raw_config_def default_http_config_def)
qed

text \<open>
  The server never starts on a blank root key or on the placeholder of the example file,
  whichever loader and source the key comes from.
\<close>

lemma loaded_root_key_usable:
  assumes "load_from_sources_with_env L read src env = Inr cfg \<or> load_from_file_with_env L read p env = Inr cfg"
  shows "trim (expose_bytes (cfg_root_key cfg)) \<noteq> []
    \<and> trim (expose_bytes (cfg_root_key cfg)) \<noteq> INSECURE_ROOT_KEY_PLACEHOLDER"
proof -
  obtain c dir where "RawConfig_resolve read c dir env = Inr cfg"
    using assms load_from_sources_Inr by (auto simp: load_from_file_with_env_def and_then_Inr) blast
  then show ?thesis by (auto simp: RawConfig_resolve_Inr validate_root_key_Inr)
qed

lemma loaded_root_key_usable_example:
  "\<exists>cfg. load_from_sources_with_env wire_config no_files demo_sources (ProcessEnv demo_vars) = Inr cfg
     \<and> trim (expose_bytes (cfg_root_key cfg)) \<noteq> []"
  using loaded_root_key_usable demo_load unfolding load_from_sources_def by blast

text \<open>
  With the environment layer switched off, the result of loading does not depend on the
  environment, except for the one variable a \<open>root_key = { env = ... }\<close> table of the file
  names itself.
\<close>

lemma no_env_ignores_environment:
  assumes "\<not> src_apply_env src"
    and "\<And>base name. base_config L read (src_config_path src) = Inr base \<Longrightarrow>
      rc_root_key base = Some (KeyEnv name) \<Longrightarrow> env name = env' name"
  shows "load_from_sources_with_env L read src env = load_from_sources_with_env L read src env'"
proof -
  let ?dir = "case src_config_path src of None \<Rightarrow> None | Some p \<Rightarrow> path_parent p"
  have "resolve_root_key read (rc_root_key base) ?dir env = resolve_root_key read (rc_root_key base) ?dir env'"
    if "base_config L read (src_config_path src) = Inr base" for base
  proof (cases "rc_root_key base")
    case (Some k)
    have "root_key_value read ?dir env k = root_key_value read ?dir env' k"
      using assms(2) that Some by (cases k) (auto simp: root_key_value_def)
    with Some show ?thesis by (simp add: resolve_root_key_def)
  qed (simp add: resolve_root_key_def)
  then show ?thesis
    using assms(1) by (cases "base_config L read (src_config_path src)")
      (simp_all add: load_from_sources_layers RawConfig_resolve_def merge_cli_fields)
qed

definition quiet_sources :: config_sources where
  "quiet_sources = demo_sources\<lparr>src_apply_env := False\<rparr>"

lemma no_env_ignores_environment_example:
  "load_from_sources wire_config no_files demo_vars quiet_sources =
     load_from_sources wire_config no_files Map.empty quiet_sources"
  unfolding load_from_sources_def
  by (rule no_env_ignores_environment)
    (auto simp: quiet_sources_def base_config_def demo_sources_def default_raw_config_def)

text \<open>
  A \<open>KEYDOCK_*\<close> variable that is set but not valid is never ignored: loading fails.
\<close>

lemma malformed_env_refused:
  assumes "src_apply_env src" and "\<not> env_well_formed L env"
  shows "\<exists>e. load_from_sources_with_env L read src env = Inl e"
proof (cases "load_from_sources_with_env L read src env")
  case (Inr cfg)
  then have "env_well_formed L env"
    using load_from_sources_Inr merge_env_well_formed assms(1) by metis
  with assms(2) show ?thesis by blast
qed blast

lemma malformed_env_refused_example:
  "\<exists>e. load_from_sources wire_config no_files [ENV_GC_INTERVAL_SECS \<mapsto> bs ''soon''] demo_sources = Inl e"
proof -
  have "u64_from_str (bs ''soon'') = Inl (bs ''invalid digit found in string'')" and "utf8_valid (bs ''soon'')"
    by code_simp+
  then have "\<not> env_well_formed wire_config (ProcessEnv [ENV_GC_INTERVAL_SECS \<mapsto> bs ''soon''])"
    by (simp add: env_well_formed_def env_reads_def ProcessEnv_def)
  then show ?thesis unfolding load_from_sources_def by (intro malformed_env_refused) (simp add: demo_sources_def)
qed

end
