(* ===== verification/Init.thy ===== *)
theory Init
  imports Config
begin

text \<open>
  \<open>keydock-config/src/config/init.rs\<close>: \<open>keydock init\<close> bootstraps an instance directory with a
  configuration file and a fresh root key.  The file system and the temporary-file crate are
  a record of operations on an abstract state; the locale \<open>file_system\<close> names what the code
  relies on, and an in-memory file system satisfies it.
\<close>

section \<open>The file system\<close>

record 'fs fs_ops =
  fs_exists :: "'fs \<Rightarrow> path \<Rightarrow> bool"
  fs_is_dir :: "'fs \<Rightarrow> path \<Rightarrow> bool"
  fs_create_dir_all :: "'fs \<Rightarrow> path \<Rightarrow> (string + unit) \<times> 'fs"
  fs_canonicalize :: "'fs \<Rightarrow> path \<Rightarrow> string + path"
  fs_read_to_string :: "'fs \<Rightarrow> path \<Rightarrow> string + str"
  fs_set_permissions :: "'fs \<Rightarrow> path \<Rightarrow> nat \<Rightarrow> (string + unit) \<times> 'fs"
  tf_new_in :: "'fs \<Rightarrow> path \<Rightarrow> (string + path) \<times> 'fs"
  tf_write_all :: "'fs \<Rightarrow> path \<Rightarrow> bytes \<Rightarrow> (string + unit) \<times> 'fs"
  tf_flush :: "'fs \<Rightarrow> path \<Rightarrow> (string + unit) \<times> 'fs"
  tf_sync_all :: "'fs \<Rightarrow> path \<Rightarrow> (string + unit) \<times> 'fs"
  tf_persist :: "'fs \<Rightarrow> path \<Rightarrow> path \<Rightarrow> (string + unit) \<times> 'fs"
  tf_drop :: "'fs \<Rightarrow> path \<Rightarrow> 'fs"

text \<open>A fallible step on the state, and \<open>map_err\<close>.\<close>

fun io_then :: "('e + 'a) \<times> 's \<Rightarrow> ('a \<Rightarrow> 's \<Rightarrow> ('e + 'b) \<times> 's) \<Rightarrow> ('e + 'b) \<times> 's" where
  "io_then (Inl e, s) f = (Inl e, s)"
| "io_then (Inr x, s) f = f x s"

fun io_err :: "('e \<Rightarrow> 'f) \<Rightarrow> ('e + 'a) \<times> 's \<Rightarrow> ('f + 'a) \<times> 's" where
  "io_err g (Inl e, s) = (Inl (g e), s)"
| "io_err g (Inr x, s) = (Inr x, s)"

section \<open>Bootstrap\<close>

datatype init_error =
    NotADirectory path
  | AlreadyExists path
  | Serialize
  | InitIo path string
  | Canonicalize path string

definition CONFIG_FILENAME :: path where "CONFIG_FILENAME = bs ''keydock.toml''"

text \<open>The two calls of \<open>Uuid::new_v4\<close> are the arguments \<open>u1\<close> and \<open>u2\<close>.\<close>

definition build_init_config :: "str \<Rightarrow> str \<Rightarrow> path \<Rightarrow> config" where
  "build_init_config u1 u2 data_dir =
     \<lparr>cfg_http = default_http_config, cfg_paths = \<lparr>pc_data_dir = data_dir\<rparr>, cfg_log_json = False,
      cfg_root_key = LoadedSecret (u1 @ bs ''-'' @ u2), cfg_gc = default_gc_config,
      cfg_rate_limit = default_rate_limit_config\<rparr>"

text \<open>An early return drops the temporary file, which deletes it.\<close>

fun drop_on_error :: "'fs fs_ops \<Rightarrow> path \<Rightarrow> ('e + 'a) \<times> 'fs \<Rightarrow> ('e + 'a) \<times> 'fs" where
  "drop_on_error F tmp (Inl e, fs) = (Inl e, tf_drop F fs tmp)"
| "drop_on_error F tmp (Inr x, fs) = (Inr x, fs)"

definition write_config_file ::
  "'fs fs_ops \<Rightarrow> path \<Rightarrow> path \<Rightarrow> str \<Rightarrow> 'fs \<Rightarrow> (init_error + unit) \<times> 'fs" where
  "write_config_file F instance_dir config_path toml_str fs0 =
     io_then (io_err (InitIo instance_dir) (tf_new_in F fs0 instance_dir)) (\<lambda>tmp fs1.
     drop_on_error F tmp (
       io_then (io_err (InitIo tmp) (tf_write_all F fs1 tmp toml_str)) (\<lambda>_ fs2.
       io_then (io_err (InitIo tmp) (tf_flush F fs2 tmp)) (\<lambda>_ fs3.
       io_then (io_err (InitIo tmp) (tf_sync_all F fs3 tmp)) (\<lambda>_ fs4.
       io_err (InitIo config_path) (tf_persist F fs4 tmp config_path))))))"

definition write_init_config ::
  "config_lib \<Rightarrow> 'fs fs_ops \<Rightarrow> str \<Rightarrow> str \<Rightarrow> path \<Rightarrow> bool \<Rightarrow> 'fs \<Rightarrow> (init_error + path) \<times> 'fs" where
  "write_init_config L F u1 u2 instance_dir force fs0 =
     (if fs_exists F fs0 instance_dir \<and> \<not> fs_is_dir F fs0 instance_dir
      then (Inl (NotADirectory instance_dir), fs0)
      else
        io_then (io_err (InitIo instance_dir) (fs_create_dir_all F fs0 instance_dir)) (\<lambda>_ fs1.
        let config_path = path_join instance_dir CONFIG_FILENAME in
        if fs_exists F fs1 config_path \<and> \<not> force then (Inl (AlreadyExists config_path), fs1)
        else
          (let data_dir_path = path_join instance_dir (bs ''data'') in
           io_then (io_err (InitIo data_dir_path) (fs_create_dir_all F fs1 data_dir_path)) (\<lambda>_ fs2.
           case fs_canonicalize F fs2 data_dir_path of
             Inl e \<Rightarrow> (Inl (Canonicalize data_dir_path e), fs2)
           | Inr data_dir_canonical \<Rightarrow>
               (case cl_toml_to_string L (build_init_config u1 u2 data_dir_canonical) of
                  None \<Rightarrow> (Inl Serialize, fs2)
                | Some toml_str \<Rightarrow>
                    io_then (write_config_file F instance_dir config_path toml_str fs2) (\<lambda>_ fs3.
                    io_then (io_err (InitIo config_path) (fs_set_permissions F fs3 config_path 0x180)) (\<lambda>_ fs4.
                    (Inr config_path, fs4))))))))"

section \<open>What the code relies on\<close>

text \<open>
  \<open>texts\<close> gives the bytes of each regular file, \<open>mode\<close> its permission bits.  Creating
  directories, flushing and changing permissions leave the files' bytes alone; a temporary
  file is a new one; a failed write changes at most the temporary file; \<open>persist\<close> moves the
  temporary file over the target at once or does nothing.
\<close>

locale file_system =
  fixes F :: "'fs fs_ops" and texts :: "'fs \<Rightarrow> path \<Rightarrow> bytes option" and mode :: "'fs \<Rightarrow> path \<Rightarrow> nat option"
  assumes create_dir_texts: "fs_create_dir_all F fs p = (r, fs') \<Longrightarrow> texts fs' = texts fs"
    and set_permissions_texts: "fs_set_permissions F fs p m = (r, fs') \<Longrightarrow> texts fs' = texts fs"
    and set_permissions_mode: "fs_set_permissions F fs p m = (Inr u, fs') \<Longrightarrow> mode fs' p = Some m"
    and new_in_ok: "tf_new_in F fs d = (Inr tmp, fs') \<Longrightarrow> texts fs tmp = None \<and> texts fs' = (texts fs)(tmp \<mapsto> [])"
    and new_in_err: "tf_new_in F fs d = (Inl e, fs') \<Longrightarrow> texts fs' = texts fs"
    and write_all_ok: "tf_write_all F fs tmp b = (Inr u, fs') \<Longrightarrow> texts fs tmp = Some a \<Longrightarrow>
      texts fs' = (texts fs)(tmp \<mapsto> a @ b)"
    and write_all_err: "tf_write_all F fs tmp b = (Inl e, fs') \<Longrightarrow> p \<noteq> tmp \<Longrightarrow> texts fs' p = texts fs p"
    and flush_texts: "tf_flush F fs tmp = (r, fs') \<Longrightarrow> texts fs' = texts fs"
    and sync_texts: "tf_sync_all F fs tmp = (r, fs') \<Longrightarrow> texts fs' = texts fs"
    and persist_ok: "tf_persist F fs tmp p = (Inr u, fs') \<Longrightarrow> texts fs' = ((texts fs)(tmp := None))(p := texts fs tmp)"
    and persist_err: "tf_persist F fs tmp p = (Inl e, fs') \<Longrightarrow> texts fs' = texts fs"
    and drop_texts: "texts (tf_drop F fs tmp) = (texts fs)(tmp := None)"
    and exists_texts: "texts fs p \<noteq> None \<Longrightarrow> fs_exists F fs p"
    and read_texts: "texts fs p = Some t \<Longrightarrow> utf8_valid t \<Longrightarrow> fs_read_to_string F fs p = Inr t"
begin

lemma io_then_cases:
  assumes "io_then (io_err g m) f = (r, fs')"
  obtains e where "m = (Inl e, fs')" and "r = Inl (g e)"
    | x fs1 where "m = (Inr x, fs1)" and "f x fs1 = (r, fs')"
  using assms by (cases m; cases "fst m") auto

lemma write_temp:
  assumes "io_then (io_err (InitIo tmp) (tf_write_all F fs1 tmp b)) (\<lambda>_ fs2.
       io_then (io_err (InitIo tmp) (tf_flush F fs2 tmp)) (\<lambda>_ fs3.
       io_then (io_err (InitIo tmp) (tf_sync_all F fs3 tmp)) (\<lambda>_ fs4.
       io_err (InitIo q) (tf_persist F fs4 tmp q)))) = (r, fs')"
    and "texts fs1 tmp = Some []"
  shows "(\<exists>e. r = Inl e \<and> (\<forall>p. p \<noteq> tmp \<longrightarrow> texts fs' p = texts fs1 p)) \<or>
    r = Inr () \<and> texts fs' = ((texts fs1)(tmp := None))(q \<mapsto> b)"
  using assms(1)
proof (cases rule: io_then_cases)
  case (1 e)
  then show ?thesis using write_all_err by blast
next
  case (2 x fs2)
  then have t2: "texts fs2 = (texts fs1)(tmp \<mapsto> b)" using write_all_ok [OF _ assms(2)] by simp
  from 2(2) show ?thesis
  proof (cases rule: io_then_cases)
    case (1 e)
    then show ?thesis using t2 flush_texts by auto
  next
    case (2 x fs3)
    then have t3: "texts fs3 = texts fs2" using flush_texts by blast
    from 2(2) show ?thesis
    proof (cases rule: io_then_cases)
      case (1 e)
      then show ?thesis using t2 t3 sync_texts by auto
    next
      case (2 x fs4)
      then have t4: "texts fs4 = texts fs2" using t3 sync_texts by auto
      show ?thesis
      proof (cases "tf_persist F fs4 tmp q")
        case (Pair r' fs5)
        then show ?thesis using 2(2) t2 t4 persist_ok [of fs4 tmp q] persist_err [of fs4 tmp q] by (cases r') auto
      qed
    qed
  qed
qed

lemma write_config_file_texts:
  assumes "write_config_file F d q b fs = (r, fs')"
  shows "(\<exists>e. r = Inl e \<and> texts fs' = texts fs) \<or> r = Inr () \<and> texts fs' = (texts fs)(q \<mapsto> b)"
  using assms unfolding write_config_file_def
proof (cases rule: io_then_cases)
  case (1 e)
  then show ?thesis using new_in_err by blast
next
  case (2 tmp fs1)
  then have n: "texts fs tmp = None" "texts fs1 = (texts fs)(tmp \<mapsto> [])" using new_in_ok by blast+
  let ?m = "io_then (io_err (InitIo tmp) (tf_write_all F fs1 tmp b)) (\<lambda>_ fs2.
       io_then (io_err (InitIo tmp) (tf_flush F fs2 tmp)) (\<lambda>_ fs3.
       io_then (io_err (InitIo tmp) (tf_sync_all F fs3 tmp)) (\<lambda>_ fs4.
       io_err (InitIo q) (tf_persist F fs4 tmp q))))"
  obtain r1 fs2 where m: "?m = (r1, fs2)" by fastforce
  have "texts fs1 tmp = Some []" using n(2) by simp
  from write_temp [OF m this] show ?thesis
  proof (elim disjE exE conjE)
    fix e assume "r1 = Inl e" and same: "\<forall>p. p \<noteq> tmp \<longrightarrow> texts fs2 p = texts fs1 p"
    then have "r = Inl e" and "fs' = tf_drop F fs2 tmp" using 2(2) m by simp_all
    moreover have "texts (tf_drop F fs2 tmp) = texts fs" using same n by (auto simp: drop_texts fun_eq_iff)
    ultimately show ?thesis by blast
  next
    assume "r1 = Inr ()" and "texts fs2 = ((texts fs1)(tmp := None))(q \<mapsto> b)"
    then show ?thesis using 2(2) m n by (auto simp: fun_eq_iff)
  qed
qed

lemma write_and_protect:
  assumes "io_then (write_config_file F d q t fs) (\<lambda>_ fs3.
      io_then (io_err (InitIo q) (fs_set_permissions F fs3 q 0x180)) (\<lambda>_ fs4. (Inr q, fs4))) = (r, fs')"
  shows "(\<exists>e. r = Inl e) \<and> texts fs' = texts fs \<or>
    texts fs' = (texts fs)(q \<mapsto> t) \<and> ((\<exists>e. r = Inl e) \<or> r = Inr q \<and> mode fs' q = Some 0x180)"
proof -
  obtain r3 fs3 where w: "write_config_file F d q t fs = (r3, fs3)" by fastforce
  obtain r4 fs4 where m: "fs_set_permissions F fs3 q 0x180 = (r4, fs4)" by fastforce
  from write_config_file_texts [OF w] show ?thesis
  proof (elim disjE exE conjE)
    assume "r3 = Inr ()" and "texts fs3 = (texts fs)(q \<mapsto> t)"
    then show ?thesis
      using assms w m set_permissions_texts [OF m] set_permissions_mode [of fs3 q _ _ fs4] by (cases r4) auto
  qed (use assms w in auto)
qed

text \<open>Every run of \<open>init\<close>: nothing changed, or exactly the whole configuration file is new.\<close>

lemma write_init_config_cases:
  assumes "write_init_config L F u1 u2 d force fs = (r, fs')"
  obtains (refused) e where "r = Inl e" and "texts fs' = texts fs"
    | (written) data t where "cl_toml_to_string L (build_init_config u1 u2 data) = Some t"
      and "texts fs' = (texts fs)(path_join d CONFIG_FILENAME \<mapsto> t)"
      and "force \<or> texts fs (path_join d CONFIG_FILENAME) = None"
      and "(\<exists>e. r = Inl e) \<or> r = Inr (path_join d CONFIG_FILENAME) \<and> mode fs' (path_join d CONFIG_FILENAME) = Some 0x180"
proof (cases "fs_exists F fs d \<and> \<not> fs_is_dir F fs d")
  case True
  then have "r = Inl (NotADirectory d)" and "fs' = fs" using assms by (simp_all add: write_init_config_def)
  then show thesis using refused by simp
next
  case False
  let ?q = "path_join d CONFIG_FILENAME" and ?d = "path_join d (bs ''data'')"
  note go = assms [unfolded write_init_config_def if_not_P [OF False] Let_def]
  obtain r1 fs1 where c1: "fs_create_dir_all F fs d = (r1, fs1)" by fastforce
  have t1: "texts fs1 = texts fs" using create_dir_texts [OF c1] .
  obtain r2 fs2 where c2: "fs_create_dir_all F fs1 ?d = (r2, fs2)" by fastforce
  have t2: "texts fs2 = texts fs" using create_dir_texts [OF c2] t1 by simp
  show thesis
  proof (cases "(\<exists>e. r = Inl e) \<and> texts fs' = texts fs")
    case True
    then show thesis using refused by blast
  next
    case ch: False
    have r1: "r1 = Inr ()"
    proof (cases r1)
      case (Inl e)
      with ch go c1 t1 show ?thesis by auto
    qed simp
    have f: "force \<or> \<not> fs_exists F fs1 ?q"
    proof (rule ccontr)
      assume "\<not> ?thesis"
      with ch go c1 r1 t1 show False by auto
    qed
    have r2: "r2 = Inr ()"
    proof (cases r2)
      case (Inl e)
      with ch go c1 r1 c2 t2 f show ?thesis by auto
    qed simp
    have run: "(case fs_canonicalize F fs2 ?d of
             Inl e \<Rightarrow> (Inl (Canonicalize ?d e), fs2)
           | Inr canonical \<Rightarrow>
               (case cl_toml_to_string L (build_init_config u1 u2 canonical) of
                  None \<Rightarrow> (Inl Serialize, fs2)
                | Some toml_str \<Rightarrow>
                    io_then (write_config_file F d ?q toml_str fs2) (\<lambda>_ fs3.
                    io_then (io_err (InitIo ?q) (fs_set_permissions F fs3 ?q 0x180)) (\<lambda>_ fs4.
                    (Inr ?q, fs4))))) = (r, fs')"
      using go c1 c2 f r1 r2 by auto
    obtain data t where e: "fs_canonicalize F fs2 ?d = Inr data"
      "cl_toml_to_string L (build_init_config u1 u2 data) = Some t"
      using ch run t2 by (auto split: sum.splits option.splits)
    have "io_then (write_config_file F d ?q t fs2) (\<lambda>_ fs3.
        io_then (io_err (InitIo ?q) (fs_set_permissions F fs3 ?q 0x180)) (\<lambda>_ fs4. (Inr ?q, fs4))) = (r, fs')"
      using run e by simp
    from write_and_protect [OF this] have "texts fs' = (texts fs)(?q \<mapsto> t)"
      and "(\<exists>e. r = Inl e) \<or> r = Inr ?q \<and> mode fs' ?q = Some 0x180" using ch t2 by auto
    moreover have "force \<or> texts fs ?q = None" using f exists_texts [of fs1 ?q] t1 by auto
    ultimately show thesis using written [OF e(2)] by blast
  qed
qed

end

section \<open>A file system in memory\<close>

record mem_fs =
  mf_files :: "(path \<times> bytes \<times> nat) list"
  mf_dirs :: "path list"

text \<open>A name no file has: longer than all of them.\<close>

definition fresh_name :: "(path \<times> 'a) list \<Rightarrow> path" where
  "fresh_name m = replicate (Suc (foldr (\<lambda>e n. length (fst e) + n) m 0)) 0x74"

definition mem_files :: "mem_fs fs_ops" where
  "mem_files =
     \<lparr>fs_exists = (\<lambda>fs p. map_of (mf_files fs) p \<noteq> None \<or> p \<in> set (mf_dirs fs)),
      fs_is_dir = (\<lambda>fs p. p \<in> set (mf_dirs fs)),
      fs_create_dir_all = (\<lambda>fs p. (Inr (), fs\<lparr>mf_dirs := p # mf_dirs fs\<rparr>)),
      fs_canonicalize = (\<lambda>fs p. Inr p),
      fs_read_to_string = (\<lambda>fs p. case map_of (mf_files fs) p of
         None \<Rightarrow> Inl ''not found'' | Some (t, _) \<Rightarrow> if utf8_valid t then Inr t else Inl ''not utf-8''),
      fs_set_permissions = (\<lambda>fs p m. case map_of (mf_files fs) p of
         None \<Rightarrow> (Inl ''not found'', fs)
       | Some (t, _) \<Rightarrow> (Inr (), fs\<lparr>mf_files := (p, t, m) # mf_files fs\<rparr>)),
      tf_new_in = (\<lambda>fs d. let tmp = fresh_name (mf_files fs) in (Inr tmp, fs\<lparr>mf_files := (tmp, [], 0x180) # mf_files fs\<rparr>)),
      tf_write_all = (\<lambda>fs p b. case map_of (mf_files fs) p of
         None \<Rightarrow> (Inl ''not found'', fs)
       | Some (t, m) \<Rightarrow> (Inr (), fs\<lparr>mf_files := (p, t @ b, m) # mf_files fs\<rparr>)),
      tf_flush = (\<lambda>fs p. (Inr (), fs)),
      tf_sync_all = (\<lambda>fs p. (Inr (), fs)),
      tf_persist = (\<lambda>fs p q. case map_of (mf_files fs) p of
         None \<Rightarrow> (Inl ''not found'', fs)
       | Some e \<Rightarrow> (Inr (), fs\<lparr>mf_files := (q, e) # filter (\<lambda>f. fst f \<noteq> p) (mf_files fs)\<rparr>)),
      tf_drop = (\<lambda>fs p. fs\<lparr>mf_files := filter (\<lambda>f. fst f \<noteq> p) (mf_files fs)\<rparr>)\<rparr>"

definition mem_texts :: "mem_fs \<Rightarrow> path \<Rightarrow> bytes option" where
  "mem_texts fs p = map_option fst (map_of (mf_files fs) p)"

definition mem_mode :: "mem_fs \<Rightarrow> path \<Rightarrow> nat option" where
  "mem_mode fs p = map_option snd (map_of (mf_files fs) p)"

lemma fresh_name_fresh: "map_of m (fresh_name m) = None"
proof -
  have "length p \<le> foldr (\<lambda>e n. length (fst e) + n) m 0" if "(p, e) \<in> set m" for p e
    using that by (induction m) fastforce+
  then have "(fresh_name m, e) \<notin> set m" for e by (fastforce simp: fresh_name_def)
  then show ?thesis by (force simp: map_of_eq_None_iff)
qed

interpretation mem_fs: file_system mem_files mem_texts mem_mode
proof unfold_locales
  show "mem_texts fs tmp = None \<and> mem_texts fs' = (mem_texts fs)(tmp \<mapsto> [])"
    if "tf_new_in mem_files fs d = (Inr tmp, fs')" for fs d tmp fs'
    using that fresh_name_fresh by (auto simp: mem_files_def mem_texts_def Let_def fun_eq_iff)
qed (auto simp: mem_files_def mem_texts_def mem_mode_def Let_def fun_eq_iff map_of_filter_key split: option.splits if_splits)

section \<open>Properties\<close>

lemma graph_key_valid:
  assumes "length u1 = 36" and "length u2 = 36" and "list_all is_graph (u1 @ u2)"
  shows "validate_root_key (u1 @ bs ''-'' @ u2) = Inr ()"
proof -
  let ?k = "u1 @ bs ''-'' @ u2"
  have "list_all is_graph ?k" using assms(3) by (simp add: bs_def is_graph_def)
  then have "trim ?k = ?k" by (intro graph_list_trim) (simp_all add: bs_def)
  moreover have "length ?k \<noteq> length INSECURE_ROOT_KEY_PLACEHOLDER"
    using assms(1,2) by (simp add: bs_def INSECURE_ROOT_KEY_PLACEHOLDER_def)
  then have "?k \<noteq> INSECURE_ROOT_KEY_PLACEHOLDER" by metis
  moreover have "?k \<noteq> []" by (simp add: bs_def)
  ultimately show ?thesis by (simp only: validate_root_key_Inr) simp
qed

text \<open>
  C28. \<open>keydock init\<close> is atomic: whatever fails on the way, every file is as before, or only the
  configuration file is new and complete; an existing configuration is never touched without
  \<open>--force\<close>.
\<close>

theorem init_is_atomic:
  assumes "file_system F texts mode" and "write_init_config L F u1 u2 d force fs = (r, fs')"
    and "q = path_join d CONFIG_FILENAME"
  shows "(\<forall>p. p \<noteq> q \<longrightarrow> texts fs' p = texts fs p)
    \<and> (texts fs' q = texts fs q \<or>
       (\<exists>data t. cl_toml_to_string L (build_init_config u1 u2 data) = Some t \<and> texts fs' q = Some t))
    \<and> (\<not> force \<and> texts fs q \<noteq> None \<longrightarrow> texts fs' = texts fs \<and> (\<exists>e. r = Inl e))"
  using assms(3) by (cases rule: file_system.write_init_config_cases [OF assms(1,2)]) auto

text \<open>
  What \<open>keydock init\<close> reports as created loads: reading the file back gives the default
  configuration with the generated key and the data directory of the instance, and the file
  is private to its owner.
\<close>

lemma init_then_load:
  assumes "file_system F texts mode" and "toml_api L"
    and "write_init_config L F u1 u2 d force fs = (Inr p, fs')"
    and "length u1 = 36" and "length u2 = 36" and "list_all is_graph (u1 @ u2)"
  shows "p = path_join d CONFIG_FILENAME \<and> mode fs' p = Some 0x180
    \<and> (\<exists>data. load_from_file L (fs_read_to_string F fs') vars p = Inr (build_init_config u1 u2 data))"
proof (cases rule: file_system.write_init_config_cases [OF assms(1,3), case_names refused written])
  case (written data t)
  then have p: "p = path_join d CONFIG_FILENAME" and m: "mode fs' p = Some 0x180" by auto
  have "fs_read_to_string F fs' p = Inr t"
    using file_system.read_texts [OF assms(1)] written(1,2) toml_api.toml_utf8 [OF assms(2)] p by simp
  then have "load_from_file L (fs_read_to_string F fs') vars p = Inr (build_init_config u1 u2 data)"
    using toml_api.config_read_back [OF assms(2) written(1)] graph_key_valid [OF assms(4-6)]
    by (simp add: load_from_file_def load_from_file_with_env_def read_raw_config_def RawConfig_resolve_def
        resolve_root_key_def root_key_value_def build_init_config_def)
  with p m show ?thesis by blast
qed simp

definition demo_uuid :: str where "demo_uuid = replicate 36 0x61"

definition demo_fs :: mem_fs where
  "demo_fs = \<lparr>mf_files = [(bs ''/srv/notes'', bs ''hi'', 0x1A4)], mf_dirs = [bs ''/srv'']\<rparr>"

lemma demo_init:
  "\<exists>fs'. write_init_config wire_config mem_files demo_uuid demo_uuid (bs ''/srv'') False demo_fs
     = (Inr (bs ''/srv/keydock.toml''), fs')"
proof -
  have j: "path_join (bs ''/srv'') CONFIG_FILENAME = bs ''/srv/keydock.toml''" by code_simp
  have n: "bs ''/srv/keydock.toml'' \<noteq> bs ''/srv/notes''" "bs ''/srv/keydock.toml'' \<noteq> bs ''/srv''" by code_simp+
  obtain t where t: "cl_toml_to_string wire_config (build_init_config demo_uuid demo_uuid (path_join (bs ''/srv'') (bs ''data''))) = Some t"
    by (auto simp: wire_config_def put_config_def build_init_config_def default_http_config_def default_listen_def)
  show ?thesis using t n fresh_name_fresh
    by (simp add: write_init_config_def write_config_file_def mem_files_def demo_fs_def Let_def j)
qed

theorem init_is_atomic_witness:
  "\<exists>r fs'. write_init_config wire_config mem_files demo_uuid demo_uuid (bs ''/srv'') False demo_fs = (r, fs')
     \<and> mem_texts fs' (bs ''/srv/notes'') = mem_texts demo_fs (bs ''/srv/notes'')"
proof -
  obtain fs' where i: "write_init_config wire_config mem_files demo_uuid demo_uuid (bs ''/srv'') False demo_fs
     = (Inr (bs ''/srv/keydock.toml''), fs')" using demo_init by blast
  have "bs ''/srv/notes'' \<noteq> path_join (bs ''/srv'') CONFIG_FILENAME" by code_simp
  then show ?thesis using init_is_atomic [OF mem_fs.file_system_axioms i refl] i by blast
qed

end
