(* ===== verification/Cli.thy ===== *)
theory Cli
  imports Init
begin

text \<open>
  \<open>keydock-config/src/cli.rs\<close>: the command line.  The argument lexer \<open>lexopt\<close> is a record of
  operations on its own state; the loops of \<open>parse_serve\<close> and \<open>parse_init\<close> run as long as it
  delivers arguments, so they are partial functions, and the locale \<open>lexer\<close> states what makes
  them end.
\<close>

section \<open>Arguments\<close>

datatype lex_arg = Short str | Long str | Value bytes

datatype lex_error = NonUnicodeValue bytes | LexError string

record 'p lexopt_ops =
  lx_next :: "'p \<Rightarrow> (lex_error + lex_arg option) \<times> 'p"
  lx_value :: "'p \<Rightarrow> (lex_error + bytes) \<times> 'p"
  lx_unexpected :: "lex_arg \<Rightarrow> lex_error"

text \<open>\<open>ValueExt::string\<close>, which \<open>ValueExt::parse\<close> goes through as well.\<close>

definition lx_string :: "bytes \<Rightarrow> lex_error + str" where
  "lx_string v = (case from_utf8 v of None \<Rightarrow> Inl (NonUnicodeValue v) | Some s \<Rightarrow> Inr s)"

datatype cli_error =
    MissingSubcommand
  | Parse lex_error
  | InvalidValue str str
  | MissingInitDirectory

record serve_args =
  sa_config_path :: "path option"
  sa_listen :: "socket_addr option"
  sa_data_dir :: "path option"
  sa_no_env :: bool

definition default_serve_args :: serve_args where
  "default_serve_args = \<lparr>sa_config_path = None, sa_listen = None, sa_data_dir = None, sa_no_env = False\<rparr>"

record init_args =
  ia_dir :: path
  ia_force :: bool

datatype command = Serve serve_args | Init init_args

text \<open>Printing help ends the process with status 0; the help text is named by its command (\<open>Cli_Help\<close> has the texts).\<close>

datatype 'a cli = CliOk 'a | CliErr cli_error | CliHelp string

section \<open>\<open>serve\<close>\<close>

text \<open>\<open>parser.value()?.parse()?\<close>.\<close>

definition string_value :: "'p lexopt_ops \<Rightarrow> 'p \<Rightarrow> (lex_error + str) \<times> 'p" where
  "string_value X p = (case lx_value X p of (v, p') \<Rightarrow> (and_then v lx_string, p'))"

text \<open>One round of the loop: the arguments after it, or why the loop returns.\<close>

definition serve_arg ::
  "config_lib \<Rightarrow> 'p lexopt_ops \<Rightarrow> 'p \<Rightarrow> lex_arg \<Rightarrow> serve_args \<Rightarrow> serve_args cli \<times> 'p" where
  "serve_arg L X p arg args =
     (if arg = Short (bs ''c'') \<or> arg = Long (bs ''config'') then
        (case string_value X p of
           (Inl e, p') \<Rightarrow> (CliErr (Parse e), p')
         | (Inr v, p') \<Rightarrow> (CliOk (args\<lparr>sa_config_path := Some v\<rparr>), p'))
      else if arg = Long (bs ''listen'') then
        (case string_value X p of
           (Inl e, p') \<Rightarrow> (CliErr (Parse e), p')
         | (Inr s, p') \<Rightarrow>
             (case addr_from_str L s of
                Inl e \<Rightarrow> (CliErr (InvalidValue (bs ''listen'') (s @ bs '': '' @ e)), p')
              | Inr addr \<Rightarrow> (CliOk (args\<lparr>sa_listen := Some addr\<rparr>), p')))
      else if arg = Long (bs ''data-dir'') then
        (case string_value X p of
           (Inl e, p') \<Rightarrow> (CliErr (Parse e), p')
         | (Inr v, p') \<Rightarrow> (CliOk (args\<lparr>sa_data_dir := Some v\<rparr>), p'))
      else if arg = Long (bs ''no-env'') then (CliOk (args\<lparr>sa_no_env := True\<rparr>), p)
      else if arg = Short (bs ''h'') \<or> arg = Long (bs ''help'') then (CliHelp ''serve'', p)
      else (CliErr (Parse (lx_unexpected X arg)), p))"

partial_function (option) parse_serve ::
  "config_lib \<Rightarrow> 'p lexopt_ops \<Rightarrow> 'p \<Rightarrow> serve_args \<Rightarrow> serve_args cli option" where
  "parse_serve L X p args =
     (case lx_next X p of
        (Inl e, p') \<Rightarrow> Some (CliErr (Parse e))
      | (Inr None, p') \<Rightarrow> Some (CliOk args)
      | (Inr (Some arg), p') \<Rightarrow>
          (case serve_arg L X p' arg args of
             (CliOk args', p'') \<Rightarrow> parse_serve L X p'' args'
           | (CliErr e, p'') \<Rightarrow> Some (CliErr e)
           | (CliHelp h, p'') \<Rightarrow> Some (CliHelp h)))"

section \<open>\<open>init\<close>\<close>

definition init_arg ::
  "'p lexopt_ops \<Rightarrow> lex_arg \<Rightarrow> path option \<times> bool \<Rightarrow> (path option \<times> bool) cli" where
  "init_arg X arg st =
     (case arg of
        Value v \<Rightarrow>
          (case lx_string v of
             Inl e \<Rightarrow> CliErr (Parse e)
           | Inr s \<Rightarrow>
               if fst st \<noteq> None
               then CliErr (InvalidValue (bs ''init'') (bs ''unexpected extra argument: '' @ s))
               else CliOk (Some s, snd st))
      | _ \<Rightarrow>
          if arg = Long (bs ''force'') then CliOk (fst st, True)
          else if arg = Short (bs ''h'') \<or> arg = Long (bs ''help'') then CliHelp ''init''
          else CliErr (Parse (lx_unexpected X arg)))"

partial_function (option) parse_init_loop ::
  "'p lexopt_ops \<Rightarrow> 'p \<Rightarrow> path option \<times> bool \<Rightarrow> (path option \<times> bool) cli option" where
  "parse_init_loop X p st =
     (case lx_next X p of
        (Inl e, p') \<Rightarrow> Some (CliErr (Parse e))
      | (Inr None, p') \<Rightarrow> Some (CliOk st)
      | (Inr (Some arg), p') \<Rightarrow>
          (case init_arg X arg st of
             CliOk st' \<Rightarrow> parse_init_loop X p' st'
           | CliErr e \<Rightarrow> Some (CliErr e)
           | CliHelp h \<Rightarrow> Some (CliHelp h)))"

definition parse_init :: "'p lexopt_ops \<Rightarrow> 'p \<Rightarrow> init_args cli option" where
  "parse_init X p =
     (case parse_init_loop X p (None, False) of
        None \<Rightarrow> None
      | Some (CliErr e) \<Rightarrow> Some (CliErr e)
      | Some (CliHelp h) \<Rightarrow> Some (CliHelp h)
      | Some (CliOk (None, force)) \<Rightarrow> Some (CliErr MissingInitDirectory)
      | Some (CliOk (Some d, force)) \<Rightarrow> Some (CliOk \<lparr>ia_dir = d, ia_force = force\<rparr>))"

section \<open>The subcommand\<close>

fun map_cli :: "('a \<Rightarrow> 'b) \<Rightarrow> 'a cli \<Rightarrow> 'b cli" where
  "map_cli f (CliOk x) = CliOk (f x)"
| "map_cli f (CliErr e) = CliErr e"
| "map_cli f (CliHelp h) = CliHelp h"

definition parse_subcommand :: "config_lib \<Rightarrow> 'p lexopt_ops \<Rightarrow> 'p \<Rightarrow> str \<Rightarrow> command cli option" where
  "parse_subcommand L X p sub =
     (if sub = bs ''serve'' then map_option (map_cli Serve) (parse_serve L X p default_serve_args)
      else if sub = bs ''init'' then map_option (map_cli Init) (parse_init X p)
      else Some (CliErr (InvalidValue (bs ''subcommand'') sub)))"

definition parse_command :: "config_lib \<Rightarrow> 'p lexopt_ops \<Rightarrow> 'p \<Rightarrow> command cli option" where
  "parse_command L X p =
     (case lx_next X p of
        (Inl e, p') \<Rightarrow> Some (CliErr (Parse e))
      | (Inr None, p') \<Rightarrow> Some (CliErr MissingSubcommand)
      | (Inr (Some arg), p') \<Rightarrow>
          if arg = Long (bs ''help'') \<or> arg = Short (bs ''h'') then Some (CliHelp ''keydock'')
          else
            (case arg of
               Value v \<Rightarrow>
                 (case lx_string v of
                    Inl e \<Rightarrow> Some (CliErr (Parse e))
                  | Inr sub \<Rightarrow> parse_subcommand L X p' sub)
             | _ \<Rightarrow> Some (CliErr (Parse (lx_unexpected X arg)))))"

text \<open>The two argument loops are executed by their equations.\<close>

declare parse_serve.simps [code] parse_init_loop.simps [code]

section \<open>Termination\<close>

text \<open>
  \<open>lexopt\<close> consumes its input: every argument it delivers shortens what is left, and reading
  a value never puts anything back.
\<close>

locale lexer =
  fixes X :: "'p lexopt_ops" and left :: "'p \<Rightarrow> nat"
  assumes next_consumes: "lx_next X p = (Inr (Some a), p') \<Longrightarrow> left p' < left p"
    and value_consumes: "lx_value X p = (r, p') \<Longrightarrow> left p' \<le> left p"
begin

lemma serve_arg_consumes: "serve_arg L X p arg args = (r, p') \<Longrightarrow> left p' \<le> left p"
  using value_consumes [of p]
  by (auto simp: serve_arg_def string_value_def split: if_splits prod.splits sum.splits)

lemma parse_serve_returns: "\<exists>r. parse_serve L X p args = Some r"
proof (induction "left p" arbitrary: p args rule: less_induct)
  case less
  show ?case
  proof (cases "lx_next X p")
    case n: (Pair m p')
    show ?thesis
    proof (cases "\<exists>arg args' p''. m = Inr (Some arg) \<and> serve_arg L X p' arg args = (CliOk args', p'')")
      case True
      then obtain arg args' p'' where m: "m = Inr (Some arg)"
        and s: "serve_arg L X p' arg args = (CliOk args', p'')" by blast
      have "left p'' < left p"
        using serve_arg_consumes [OF s] next_consumes [of p arg p'] n m by simp
      then show ?thesis using less.hyps n m s by (subst parse_serve.simps) simp
    next
      case False
      then show ?thesis using n
        by (subst parse_serve.simps) (auto split: sum.split option.split prod.split cli.split)
    qed
  qed
qed

lemma parse_init_loop_returns: "\<exists>r. parse_init_loop X p st = Some r"
proof (induction "left p" arbitrary: p st rule: less_induct)
  case less
  then show ?case
    using next_consumes [of p]
    by (subst parse_init_loop.simps) (auto split: sum.split option.split prod.split cli.split)
qed

lemma parse_init_returns: "\<exists>r. parse_init X p = Some r"
  using parse_init_loop_returns [of p "(None, False)"]
  by (auto simp: parse_init_def split: option.split cli.split prod.split)

lemma parse_command_returns: "\<exists>r. parse_command L X p = Some r"
  using parse_serve_returns parse_init_returns
  by (auto simp: parse_command_def parse_subcommand_def split: sum.split option.split prod.split lex_arg.split)

end

section \<open>What the lexer delivers\<close>

definition takes_value :: "lex_arg \<Rightarrow> bool" where
  "takes_value a \<longleftrightarrow> a \<in> {Short (bs ''c''), Long (bs ''config''), Long (bs ''listen''), Long (bs ''data-dir'')}"

inductive delivers :: "'p lexopt_ops \<Rightarrow> 'p \<Rightarrow> (lex_arg \<times> bytes option) list \<Rightarrow> bool" for X where
  none: "lx_next X p = (Inr None, p') \<Longrightarrow> delivers X p []"
| flag: "lx_next X p = (Inr (Some a), p') \<Longrightarrow> \<not> takes_value a \<Longrightarrow> delivers X p' items \<Longrightarrow>
    delivers X p ((a, None) # items)"
| option: "lx_next X p = (Inr (Some a), p') \<Longrightarrow> takes_value a \<Longrightarrow> lx_value X p' = (Inr v, p'') \<Longrightarrow>
    delivers X p'' items \<Longrightarrow> delivers X p ((a, Some v) # items)"

text \<open>The last value given for an option, in any of its spellings.\<close>

fun last_given :: "lex_arg set \<Rightarrow> (lex_arg \<times> bytes option) list \<Rightarrow> bytes option" where
  "last_given as [] = None"
| "last_given as ((a, v) # items) =
     (case last_given as items of Some w \<Rightarrow> Some w | None \<Rightarrow> if a \<in> as then v else None)"

text \<open>An argument \<open>serve\<close> accepts: a flag it knows, or an option with a text it can use.\<close>

fun serve_item :: "config_lib \<Rightarrow> lex_arg \<times> bytes option \<Rightarrow> bool" where
  "serve_item L (a, None) = (a = Long (bs ''no-env''))"
| "serve_item L (a, Some v) =
     (utf8_valid v \<and>
      (a = Short (bs ''c'') \<or> a = Long (bs ''config'') \<or> a = Long (bs ''data-dir'') \<or>
       a = Long (bs ''listen'') \<and> cl_addr_parse L v \<noteq> None))"

lemma option_names [simp]:
  "bs ''config'' \<noteq> bs ''listen''" "bs ''config'' \<noteq> bs ''data-dir''" "bs ''config'' \<noteq> bs ''no-env''"
  "bs ''listen'' \<noteq> bs ''data-dir''" "bs ''listen'' \<noteq> bs ''no-env''" "bs ''data-dir'' \<noteq> bs ''no-env''"
  "bs ''listen'' \<noteq> bs ''config''" "bs ''data-dir'' \<noteq> bs ''config''" "bs ''no-env'' \<noteq> bs ''config''"
  "bs ''data-dir'' \<noteq> bs ''listen''" "bs ''no-env'' \<noteq> bs ''listen''" "bs ''no-env'' \<noteq> bs ''data-dir''"
  by (simp_all add: bs_def)

definition serve_result ::
  "config_lib \<Rightarrow> (lex_arg \<times> bytes option) list \<Rightarrow> serve_args \<Rightarrow> serve_args" where
  "serve_result L items args =
     \<lparr>sa_config_path =
        (case last_given {Short (bs ''c''), Long (bs ''config'')} items of None \<Rightarrow> sa_config_path args | v \<Rightarrow> v),
      sa_listen =
        (case last_given {Long (bs ''listen'')} items of None \<Rightarrow> sa_listen args | Some v \<Rightarrow> cl_addr_parse L v),
      sa_data_dir = (case last_given {Long (bs ''data-dir'')} items of None \<Rightarrow> sa_data_dir args | v \<Rightarrow> v),
      sa_no_env = (sa_no_env args \<or> Long (bs ''no-env'') \<in> fst ` set items)\<rparr>"

lemma serve_result_Cons: "serve_result L (i # items) args = serve_result L items (serve_result L [i] args)"
  by (cases i) (simp add: serve_result_def split: option.split)

lemma serve_arg_flag:
  "serve_item L (a, None) \<Longrightarrow> serve_arg L X p a args = (CliOk (serve_result L [(a, None)] args), p)"
  by (simp add: serve_arg_def serve_result_def)

lemma serve_arg_option:
  assumes "serve_item L (a, Some v)" and "lx_value X p = (Inr v, p')"
  shows "serve_arg L X p a args = (CliOk (serve_result L [(a, Some v)] args), p')"
proof -
  have v: "string_value X p = (Inr v, p')" using assms by (simp add: string_value_def lx_string_def)
  consider "a = Short (bs ''c'')" | "a = Long (bs ''config'')" | "a = Long (bs ''data-dir'')"
    | x where "a = Long (bs ''listen'')" "cl_addr_parse L v = Some x" using assms(1) by auto
  then show ?thesis
    by cases (simp_all add: v serve_arg_def serve_result_def addr_from_str_def)
qed

lemma parse_serve_delivered:
  "delivers X p items \<Longrightarrow> list_all (serve_item L) items \<Longrightarrow>
     parse_serve L X p args = Some (CliOk (serve_result L items args))"
proof (induction arbitrary: args rule: delivers.induct)
  case (none p p')
  then show ?case by (subst parse_serve.simps) (simp add: serve_result_def)
next
  case (flag p a p' items)
  then show ?case
    using serve_arg_flag [of L a X p' args]
    by (subst parse_serve.simps, subst serve_result_Cons) (simp del: serve_item.simps)
next
  case (option p a p' v p'' items)
  then show ?case
    using serve_arg_option [of L a v X p' p'' args]
    by (subst parse_serve.simps, subst serve_result_Cons) (simp del: serve_item.simps)
qed

section \<open>A lexer\<close>

text \<open>
  An instance over an argument vector: \<open>--name\<close>, \<open>--name=value\<close>, \<open>-abc\<close>, values, and
  \<open>--\<close>, after which everything is a value.
\<close>

record argv =
  av_args :: "bytes list"
  av_shorts :: bytes
  av_value :: "bytes option"
  av_only :: bool

definition argv_of :: "bytes list \<Rightarrow> argv" where
  "argv_of args = \<lparr>av_args = args, av_shorts = [], av_value = None, av_only = False\<rparr>"

definition argv_next :: "argv \<Rightarrow> (lex_error + lex_arg option) \<times> argv" where
  "argv_next p =
     (if av_value p \<noteq> None then (Inl (LexError ''unexpected value''), p\<lparr>av_value := None\<rparr>)
      else if av_shorts p \<noteq> [] then (Inr (Some (Short [hd (av_shorts p)])), p\<lparr>av_shorts := tl (av_shorts p)\<rparr>)
      else
        (case av_args p of
           [] \<Rightarrow> (Inr None, p)
         | a # as \<Rightarrow>
             if av_only p then (Inr (Some (Value a)), p\<lparr>av_args := as\<rparr>)
             else if a = bs ''--'' then
               (case as of
                  [] \<Rightarrow> (Inr None, p\<lparr>av_args := []\<rparr>)
                | b # rest \<Rightarrow> (Inr (Some (Value b)), p\<lparr>av_args := rest, av_only := True\<rparr>))
             else if starts_with a (bs ''--'') then
               (case split_once 0x3D (drop 2 a) of
                  None \<Rightarrow> (Inr (Some (Long (drop 2 a))), p\<lparr>av_args := as\<rparr>)
                | Some (n, v) \<Rightarrow> (Inr (Some (Long n)), p\<lparr>av_args := as, av_value := Some v\<rparr>))
             else if starts_with a (bs ''-'') \<and> 2 \<le> length a then
               (Inr (Some (Short [a ! 1])), p\<lparr>av_args := as, av_shorts := drop 2 a\<rparr>)
             else (Inr (Some (Value a)), p\<lparr>av_args := as\<rparr>)))"

definition argv_value :: "argv \<Rightarrow> (lex_error + bytes) \<times> argv" where
  "argv_value p =
     (case av_value p of
        Some v \<Rightarrow> (Inr v, p\<lparr>av_value := None\<rparr>)
      | None \<Rightarrow>
          if av_shorts p \<noteq> [] then
            (Inr (if hd (av_shorts p) = 0x3D then tl (av_shorts p) else av_shorts p), p\<lparr>av_shorts := []\<rparr>)
          else
            (case av_args p of
               [] \<Rightarrow> (Inl (LexError ''missing value''), p)
             | a # as \<Rightarrow> (Inr a, p\<lparr>av_args := as\<rparr>)))"

definition argv_lexer :: "argv lexopt_ops" where
  "argv_lexer = \<lparr>lx_next = argv_next, lx_value = argv_value, lx_unexpected = (\<lambda>_. LexError ''unexpected argument'')\<rparr>"

definition argv_left :: "argv \<Rightarrow> nat" where
  "argv_left p =
     sum_list (map (\<lambda>a. Suc (length a)) (av_args p)) + length (av_shorts p) + (if av_value p = None then 0 else 1)"

interpretation argv: lexer argv_lexer argv_left
proof unfold_locales
  fix p a p' assume n: "lx_next argv_lexer p = (Inr (Some a), p')"
  have "2 \<le> length x" if "starts_with x (bs ''--'')" for x :: bytes
    using that prefix_length_le by (fastforce simp: starts_with_prefix bs_def)
  then show "argv_left p' < argv_left p"
    using n by (auto simp: argv_lexer_def argv_next_def argv_left_def split: if_splits list.splits option.splits prod.splits)
next
  fix p r p' assume "lx_value argv_lexer p = (r, p')"
  then show "argv_left p' \<le> argv_left p"
    by (auto simp: argv_lexer_def argv_value_def argv_left_def split: if_splits list.splits option.splits)
qed

section \<open>Properties\<close>



text \<open>
  Of repeated \<open>serve\<close> options the last one counts, whichever spelling it has, and
  \<open>--no-env\<close> anywhere switches the environment off.
\<close>

lemma serve_last_option_wins:
  assumes "delivers X p items" and "list_all (serve_item L) items"
  shows "parse_serve L X p default_serve_args = Some (CliOk
     \<lparr>sa_config_path = last_given {Short (bs ''c''), Long (bs ''config'')} items,
      sa_listen = Option.bind (last_given {Long (bs ''listen'')} items) (cl_addr_parse L),
      sa_data_dir = last_given {Long (bs ''data-dir'')} items,
      sa_no_env = (Long (bs ''no-env'') \<in> fst ` set items)\<rparr>)"
  using parse_serve_delivered [OF assms]
  by (simp add: serve_result_def default_serve_args_def split: option.split)

lemma serve_last_option_wins_example:
  "parse_serve wire_config argv_lexer (argv_of [bs ''-ca'', bs ''--config=b'', bs ''--no-env'']) default_serve_args =
     Some (CliOk \<lparr>sa_config_path = Some (bs ''b''), sa_listen = None, sa_data_dir = None, sa_no_env = True\<rparr>)"
proof -
  let ?items = "[(Short (bs ''c''), Some (bs ''a'')), (Long (bs ''config''), Some (bs ''b'')), (Long (bs ''no-env''), None)]"
  have "delivers argv_lexer (argv_of [bs ''-ca'', bs ''--config=b'', bs ''--no-env'']) ?items"
    by (rule delivers.option delivers.flag delivers.none
        | simp add: argv_lexer_def argv_next_def argv_value_def argv_of_def bs_def starts_with_def takes_value_def)+
  moreover have "list_all (serve_item wire_config) ?items"
    by (simp add: bs_def utf8_width_def)
  ultimately show ?thesis
    using serve_last_option_wins by (fastforce simp: bs_def)
qed

end
