(* ===== verification/Startup.thy ===== *)
theory Startup
  imports Server Sweeper Cli
begin

text \<open>
  \<open>apps/keydock/src/main.rs\<close> with \<open>FjallStore::open\<close> and \<open>AppState::new\<close>: from the command line
  to a running server.  What the process gets from its host (file system, environment,
  tracing and metrics set-up, the database files, sockets) is the record \<open>host_ops\<close>; the order
  of the steps, their error contexts, the exit status and the wiring of the parts are the
  program's.
\<close>

section \<open>The host\<close>

record ('fs, 'db) host_ops =
  ho_fs :: "'fs fs_ops"
  ho_vars :: "str \<rightharpoonup> bytes"
  ho_runtime :: "string + unit"
  ho_subscribe :: "bool \<Rightarrow> string + unit"
  ho_recorder :: "string + unit"
  ho_db_open :: "'fs \<Rightarrow> path \<Rightarrow> string + 'db"
  ho_keyspace :: "'db \<Rightarrow> string \<Rightarrow> string + 'db"
  ho_bind :: "socket_addr \<Rightarrow> string + unit"

text \<open>The error of \<open>anyhow\<close>: the context of the step and its cause.\<close>

datatype startup_error =
    ConfigContext config_error
  | StepContext str string
  | BindContext str socket_addr string

fun with_context :: "('e \<Rightarrow> startup_error) \<Rightarrow> 'e + 'a \<Rightarrow> startup_error + 'a" where
  "with_context c (Inl e) = Inl (c e)"
| "with_context c (Inr x) = Inr x"

lemma with_context_Inr [simp]: "with_context c m = Inr x \<longleftrightarrow> m = Inr x"
  by (cases m) simp_all

section \<open>Opening the store\<close>

definition StripedLocks_new :: "nat \<Rightarrow> bool" where
  "StripedLocks_new = (\<lambda>_. False)"

text \<open>\<open>?\<close> on a call of the database: its error becomes \<open>FjallError::Fjall\<close>.\<close>

fun fjall_result :: "string + 'a \<Rightarrow> fjall_error + 'a" where
  "fjall_result (Inl e) = Inl (FjallE e)"
| "fjall_result (Inr x) = Inr x"

definition open_keyspace :: "('fs, 'db) host_ops \<Rightarrow> string \<Rightarrow> 'db \<Rightarrow> fjall_error + 'db" where
  "open_keyspace H ks db = fjall_result (ho_keyspace H db ks)"

definition FjallStore_open :: "('fs, 'db) host_ops \<Rightarrow> 'fs \<Rightarrow> path \<Rightarrow> fjall_error + 'db store" where
  "FjallStore_open H fs p =
     and_then (fjall_result (ho_db_open H fs p)) (\<lambda>db0.
     and_then (open_keyspace H META_KEYSPACE db0) (\<lambda>db1.
     and_then (open_keyspace H DATA_KEYSPACE db1) (\<lambda>db2.
     and_then (open_keyspace H EXPIRY_KEYSPACE db2) (\<lambda>db3.
     Inr \<lparr>st_db = db3, st_poisoned = StripedLocks_new\<rparr>))))"

section \<open>Wiring\<close>

definition AppState_new :: "str \<Rightarrow> 'st bucket_repo \<Rightarrow> 'st key_repo \<Rightarrow> bytes \<Rightarrow> 'st app_state" where
  "AppState_new version buckets keys root_key =
     \<lparr>st_version = version, st_buckets = buckets, st_keys = keys, st_root_key = root_key\<rparr>"

definition load_merged_config ::
  "config_lib \<Rightarrow> ('fs, 'db) host_ops \<Rightarrow> 'fs \<Rightarrow> serve_args \<Rightarrow> config_error + config" where
  "load_merged_config CL H fs args =
     load_from_sources CL (fs_read_to_string (ho_fs H) fs) (ho_vars H)
       \<lparr>src_config_path = sa_config_path args, src_listen = sa_listen args, src_data_dir = sa_data_dir args,
        src_apply_env = (\<not> sa_no_env args)\<rparr>"

definition init_tracing :: "('fs, 'db) host_ops \<Rightarrow> bool \<Rightarrow> string + unit" where
  "init_tracing H json =
     (case ho_subscribe H json of
        Inl e \<Rightarrow> Inl (''init tracing subscriber: '' @ e)
      | Inr u \<Rightarrow> Inr u)"

text \<open>
  What \<open>serve\<close> has built when it starts to listen: the application, the options of its router,
  the store as opened, the sockets, the routes of the separate metrics listener, the sweeper.
\<close>

record 'db running =
  rn_app :: "'db store app_state"
  rn_options :: router_options
  rn_store :: "'db store"
  rn_listen :: socket_addr
  rn_metrics :: "(socket_addr \<times> route list) option"
  rn_sweeper :: gc_sweeper

definition assemble ::
  "'db store_env \<Rightarrow> policy_json \<Rightarrow> str \<Rightarrow> config \<Rightarrow> 'db store \<Rightarrow> 'db running" where
  "assemble S J version cfg store =
     \<lparr>rn_app = AppState_new version (fjall_buckets S J) (fjall_repo S) (expose_bytes (cfg_root_key cfg)),
      rn_options =
        \<lparr>ro_expose_metrics = (hc_metrics_listen (cfg_http cfg) = None),
         ro_rate_limit =
           \<lparr>rs_enabled = rl_enabled (cfg_rate_limit cfg),
            rs_requests_per_hour = rl_requests_per_hour (cfg_rate_limit cfg)\<rparr>\<rparr>,
      rn_store = store,
      rn_listen = hc_listen (cfg_http cfg),
      rn_metrics = map_option (\<lambda>a. (a, metrics_routes)) (hc_metrics_listen (cfg_http cfg)),
      rn_sweeper = build_gc_sweeper (gc_interval_secs (cfg_gc cfg))\<rparr>"

fun bind_metrics :: "('fs, 'db) host_ops \<Rightarrow> socket_addr option \<Rightarrow> startup_error + unit" where
  "bind_metrics H None = Inr ()"
| "bind_metrics H (Some a) = with_context (BindContext (bs ''bind metrics listener'') a) (ho_bind H a)"

definition serve ::
  "config_lib \<Rightarrow> ('fs, 'db) host_ops \<Rightarrow> 'db store_env \<Rightarrow> policy_json \<Rightarrow> str \<Rightarrow> serve_args \<Rightarrow> 'fs \<Rightarrow>
     (startup_error + 'db running) \<times> 'fs" where
  "serve CL H S J version args fs0 =
     (case load_merged_config CL H fs0 args of
        Inl e \<Rightarrow> (Inl (ConfigContext e), fs0)
      | Inr cfg \<Rightarrow>
          (case and_then (with_context (StepContext (bs ''init tracing'')) (init_tracing H (cfg_log_json cfg))) (\<lambda>_.
                with_context (StepContext (bs ''metrics recorder'')) (ho_recorder H)) of
             Inl e \<Rightarrow> (Inl e, fs0)
           | Inr _ \<Rightarrow>
               (case fs_create_dir_all (ho_fs H) fs0 (pc_data_dir (cfg_paths cfg)) of
                  (Inl e, fs1) \<Rightarrow> (Inl (StepContext (bs ''create data directory '' @ pc_data_dir (cfg_paths cfg)) e), fs1)
                | (Inr _, fs1) \<Rightarrow>
                    (and_then (with_context (\<lambda>e. StepContext (bs ''open store at '' @ pc_data_dir (cfg_paths cfg)) (show_fjall_error e))
                       (FjallStore_open H fs1 (pc_data_dir (cfg_paths cfg)))) (\<lambda>store.
                     and_then (with_context (BindContext (bs ''bind'') (hc_listen (cfg_http cfg))) (ho_bind H (hc_listen (cfg_http cfg)))) (\<lambda>_.
                     and_then (bind_metrics H (hc_metrics_listen (cfg_http cfg))) (\<lambda>_.
                     Inr (assemble S J version cfg store)))), fs1))))"

section \<open>The process\<close>

definition init_instance ::
  "config_lib \<Rightarrow> 'fs fs_ops \<Rightarrow> str \<Rightarrow> str \<Rightarrow> path \<Rightarrow> bool \<Rightarrow> 'fs \<Rightarrow> nat \<times> 'fs" where
  "init_instance CL F u1 u2 dir force fs =
     (case write_init_config CL F u1 u2 dir force fs of
        (Inl e, fs') \<Rightarrow> (2, fs')
      | (Inr p, fs') \<Rightarrow> (0, fs'))"

text \<open>A process ends with a status or is up and serving.\<close>

datatype 'db process = Exited nat | Serving "'db running"

definition main ::
  "config_lib \<Rightarrow> 'p lexopt_ops \<Rightarrow> ('fs, 'db) host_ops \<Rightarrow> 'db store_env \<Rightarrow> policy_json \<Rightarrow> str \<Rightarrow> str \<Rightarrow> str \<Rightarrow>
     'p \<Rightarrow> 'fs \<Rightarrow> ('db process \<times> 'fs) option" where
  "main CL X H S J version u1 u2 argv fs =
     (case parse_command CL X argv of
        None \<Rightarrow> None
      | Some (CliErr e) \<Rightarrow> Some (Exited 2, fs)
      | Some (CliHelp h) \<Rightarrow> Some (Exited 0, fs)
      | Some (CliOk (Serve args)) \<Rightarrow>
          (case ho_runtime H of
             Inl e \<Rightarrow> Some (Exited 1, fs)
           | Inr _ \<Rightarrow>
               (case serve CL H S J version args fs of
                  (Inl e, fs') \<Rightarrow> Some (Exited 1, fs')
                | (Inr r, fs') \<Rightarrow> Some (Serving r, fs')))
      | Some (CliOk (Init args)) \<Rightarrow>
          Some (apfst Exited (init_instance CL (ho_fs H) u1 u2 (ia_dir args) (ia_force args) fs)))"

section \<open>What a start went through\<close>

lemma main_Serving:
  assumes "main CL X H S J version u1 u2 argv fs = Some (Serving r, fs')"
  obtains args where "parse_command CL X argv = Some (CliOk (Serve args))"
    and "serve CL H S J version args fs = (Inr r, fs')"
  using assms
  by (auto simp: main_def apfst_def map_prod_def split: option.splits cli.splits command.splits sum.splits prod.splits)

lemma serve_Inr:
  assumes "serve CL H S J version args fs = (Inr r, fs')"
  obtains cfg store where "load_merged_config CL H fs args = Inr cfg"
    and "fs_create_dir_all (ho_fs H) fs (pc_data_dir (cfg_paths cfg)) = (Inr (), fs')"
    and "FjallStore_open H fs' (pc_data_dir (cfg_paths cfg)) = Inr store"
    and "r = assemble S J version cfg store"
    and "ho_bind H (hc_listen (cfg_http cfg)) = Inr ()"
  using assms that by (auto simp: serve_def and_then_Inr split: sum.splits prod.splits)

lemma load_merged_root_key:
  "load_merged_config CL H fs args = Inr cfg \<Longrightarrow> validate_root_key (expose_bytes (cfg_root_key cfg)) = Inr ()"
  unfolding load_merged_config_def load_from_sources_def
  by (erule load_from_sources_Inr) (auto simp: RawConfig_resolve_Inr)

lemma FjallStore_open_unpoisoned: "FjallStore_open H fs p = Inr st \<Longrightarrow> st_poisoned st = (\<lambda>_. False)"
  by (auto simp: FjallStore_open_def StripedLocks_new_def and_then_Inr)

lemma started_wired:
  "main CL X H S J version u1 u2 argv fs = Some (Serving r, fs') \<Longrightarrow> hl_time L = cd_time (sv_codec S) \<Longrightarrow>
     wired S J L (rn_app r)"
  by (elim main_Serving serve_Inr) (simp add: assemble_def AppState_new_def wired_def)

lemma main_init:
  assumes "main CL X H S J version u1 u2 argv fs = Some (Exited 0, fs')"
    and "parse_command CL X argv = Some (CliOk (Init args))"
  obtains p where "write_init_config CL (ho_fs H) u1 u2 (ia_dir args) (ia_force args) fs = (Inr p, fs')"
  using assms
  by (auto simp: main_def init_instance_def apfst_def map_prod_def split: prod.splits sum.splits)

lemma metrics_mounted:
  "([], bs ''/metrics'') \<in> mount_point ` set (build_router opts) \<longleftrightarrow> ro_expose_metrics opts"
proof -
  have "bs ''/metrics'' \<notin> {bs ''/health'', bs ''/ready'', API_PREFIX @ bs ''/''}" and "API_PREFIX \<noteq> []" by code_simp+
  then show ?thesis
    by (auto simp: build_router_def ops_routes_def metrics_routes_def api_alias_routes_def mount_point_def Let_def
        image_Un image_image case_prod_unfold)
qed

section \<open>Processes\<close>

text \<open>A host in memory: every step succeeds, and the data directory holds an empty database.\<close>

definition mem_host :: "(str \<rightharpoonup> bytes) \<Rightarrow> (mem_fs, mem_db) host_ops" where
  "mem_host vars =
     \<lparr>ho_fs = mem_files, ho_vars = vars, ho_runtime = Inr (), ho_subscribe = (\<lambda>_. Inr ()), ho_recorder = Inr (),
      ho_db_open = (\<lambda>fs p. Inr (\<lambda>_. [])), ho_keyspace = (\<lambda>db ks. Inr db), ho_bind = (\<lambda>_. Inr ())\<rparr>"


definition demo_running :: "mem_db running" where
  "demo_running =
     assemble mem_env wire_policy (bs ''0.1.0'')
       \<lparr>cfg_http = default_http_config, cfg_paths = default_paths_config, cfg_log_json = False,
        cfg_root_key = LoadedSecret (bs ''s3cret''), cfg_gc = default_gc_config,
        cfg_rate_limit = default_rate_limit_config\<rparr> mem_store"

definition demo_env :: "str \<rightharpoonup> bytes" where
  "demo_env = map_of [(ENV_ROOT_KEY, bs ''s3cret'')]"

lemma demo_main:
  "\<exists>fs'. main wire_config argv_lexer (mem_host demo_env) mem_env wire_policy (bs ''0.1.0'') demo_uuid demo_uuid
     (argv_of [bs ''serve'']) demo_fs = Some (Serving demo_running, fs')"
proof -
  have p: "parse_command wire_config argv_lexer (argv_of [bs ''serve'']) = Some (CliOk (Serve default_serve_args))"
    by code_simp
  have "load_from_sources wire_config (fs_read_to_string mem_files demo_fs) demo_env
     \<lparr>src_config_path = None, src_listen = None, src_data_dir = None, src_apply_env = True\<rparr>
     = Inr \<lparr>cfg_http = default_http_config, cfg_paths = default_paths_config, cfg_log_json = False,
        cfg_root_key = LoadedSecret (bs ''s3cret''), cfg_gc = default_gc_config,
        cfg_rate_limit = default_rate_limit_config\<rparr>"
    by code_simp
  then have "load_merged_config wire_config (mem_host demo_env) demo_fs default_serve_args
     = Inr \<lparr>cfg_http = default_http_config, cfg_paths = default_paths_config, cfg_log_json = False,
        cfg_root_key = LoadedSecret (bs ''s3cret''), cfg_gc = default_gc_config,
        cfg_rate_limit = default_rate_limit_config\<rparr>"
    by (simp add: load_merged_config_def mem_host_def default_serve_args_def)
  moreover have "FjallStore_open (mem_host demo_env) fs d = Inr mem_store" for fs d
    by (simp add: FjallStore_open_def open_keyspace_def mem_host_def mem_store_def StripedLocks_new_def)
  ultimately show ?thesis
    by (simp add: main_def p serve_def mem_host_def mem_files_def init_tracing_def demo_running_def
        default_http_config_def)
qed




end
