(* ===== verification/Serving.thy ===== *)
theory Serving
  imports Startup
begin

text \<open>
  The serving phase of \<open>apps/keydock/src/main.rs\<close>: what happens between the start of the
  listeners and the exit of the process.  The main server, the metrics server and the sweeper
  are tasks that share the store and two cancellation tokens; \<open>service_step\<close> is one event of
  one of them, as the code reacts to it.  Shown here: the store of a serving process is always
  one the request handlers and the sweeper can reach, a clean exit leaves no accepted request
  unanswered, and after the shutdown signal the process always ends.
\<close>

section \<open>The signal\<close>

text \<open>
  What wakes \<open>shutdown_signal\<close>: each of the two futures ends when its signal arrives and also
  when the handler cannot be installed.
\<close>

datatype signal_event = CtrlC "string + unit" | Terminate "string + unit"

fun shutdown_signal :: "signal_event \<Rightarrow> str list" where
  "shutdown_signal (CtrlC (Inl e)) = [bs ''failed to listen for CTRL+C'', bs ''shutdown signal received'']"
| "shutdown_signal (Terminate (Inl e)) = [bs ''failed to listen for SIGTERM'', bs ''shutdown signal received'']"
| "shutdown_signal _ = [bs ''shutdown signal received'']"

section \<open>The tasks\<close>

datatype server_task = Accepting | Draining | Stopped "string + unit"

fun is_stopped :: "server_task \<Rightarrow> bool" where
  "is_stopped (Stopped r) = True"
| "is_stopped _ = False"

datatype metrics_task = MetricsServing | MetricsEnded

datatype sweeper_task = Sleeping | Sweeping i64 "(string + bytes \<times> bytes) list" | SweeperEnded

record 'db service =
  sc_store :: "'db store"
  sc_inflight :: "request list"
  sc_server :: server_task
  sc_metrics :: "metrics_task option"
  sc_sweeper :: sweeper_task
  sc_shutdown_cancel :: bool
  sc_gc_cancel :: bool
  sc_exit :: "nat option"

definition service_start :: "'db running \<Rightarrow> 'db service" where
  "service_start r =
     \<lparr>sc_store = rn_store r, sc_inflight = [], sc_server = Accepting,
      sc_metrics = map_option (\<lambda>_. MetricsServing) (rn_metrics r), sc_sweeper = Sleeping,
      sc_shutdown_cancel = False, sc_gc_cancel = False, sc_exit = None\<rparr>"

text \<open>
  The events: a connection brings a request, a request is answered, the signal arrives, a
  server ends (the main one without error only once it has been told to stop and its requests
  are answered, the metrics one once its token is cancelled), the sweeper's \<open>select!\<close> is
  polled with its timer elapsed or not, the sweep visits its next index key or dies, and
  \<open>serve\<close> returns.
\<close>

datatype service_event =
    Accept request
  | Answer nat readings
  | Signal signal_event
  | ServerEnds "string + unit"
  | MetricsEnds "string + unit"
  | SweeperPolled "instant option"
  | SweepVisits
  | SweepDies
  | ServeReturns

text \<open>The biased \<open>select!\<close> of the sweeper: cancellation wins over an elapsed timer.\<close>

definition poll_sweeper :: "'db store_env \<Rightarrow> instant option \<Rightarrow> 'db service \<Rightarrow> 'db service option" where
  "poll_sweeper S timer c =
     (if sc_gc_cancel c then Some (c\<lparr>sc_sweeper := SweeperEnded\<rparr>)
      else (case timer of
              None \<Rightarrow> None
            | Some now \<Rightarrow>
                Some (c\<lparr>sc_sweeper := Sweeping (unix_timestamp (cd_time (sv_codec S)) now)
                   (fj_iter (sv_fjall S) (st_db (sc_store c)) EXPIRY_KEYSPACE)\<rparr>)))"

definition sweep_visit :: "'db store_env \<Rightarrow> i64 \<Rightarrow> (string + bytes \<times> bytes) list \<Rightarrow> 'db service \<Rightarrow> 'db service" where
  "sweep_visit S now_ts gs c =
     (case gs of
        [] \<Rightarrow> c\<lparr>sc_sweeper := Sleeping\<rparr>
      | g # rest \<Rightarrow>
          (let (flow, stats, st') =
             gc_step S now_ts g \<lparr>expiry_scanned = 0, expiry_removed = 0, keys_removed = 0\<rparr> (sc_store c)
           in c\<lparr>sc_store := st',
                sc_sweeper := (case flow of Break \<Rightarrow> Sleeping | Continue \<Rightarrow> Sweeping now_ts rest)\<rparr>))"

fun on_event ::
  "'db store_env \<Rightarrow> http_lib \<Rightarrow> axum_ops \<Rightarrow> 'db store app_state \<Rightarrow> router_options \<Rightarrow>
     service_event \<Rightarrow> 'db service \<Rightarrow> 'db service option" where
  "on_event S L X A opts (Accept req) c =
     (if sc_server c = Accepting then Some (c\<lparr>sc_inflight := sc_inflight c @ [req]\<rparr>) else None)"
| "on_event S L X A opts (Answer i rd) c =
     (if i < length (sc_inflight c) \<and> \<not> is_stopped (sc_server c) then
        (let (r, st') = handle_request L X A opts rd (sc_store c) (sc_inflight c ! i)
         in Some (c\<lparr>sc_store := st', sc_inflight := take i (sc_inflight c) @ drop (Suc i) (sc_inflight c)\<rparr>))
      else None)"
| "on_event S L X A opts (Signal sig) c =
     (if sc_server c = Accepting
      then Some (c\<lparr>sc_server := Draining, sc_shutdown_cancel := True, sc_gc_cancel := True\<rparr>)
      else None)"
| "on_event S L X A opts (ServerEnds r) c =
     (case r of
        Inr _ \<Rightarrow> if sc_server c = Draining \<and> sc_inflight c = [] then Some (c\<lparr>sc_server := Stopped r\<rparr>) else None
      | Inl _ \<Rightarrow> if \<not> is_stopped (sc_server c) then Some (c\<lparr>sc_server := Stopped r\<rparr>) else None)"
| "on_event S L X A opts (MetricsEnds r) c =
     (if sc_metrics c = Some MetricsServing \<and> (sc_shutdown_cancel c \<or> isl r)
      then Some (c\<lparr>sc_metrics := Some MetricsEnded\<rparr>) else None)"
| "on_event S L X A opts (SweeperPolled timer) c =
     (if sc_sweeper c = Sleeping then poll_sweeper S timer c else None)"
| "on_event S L X A opts SweepVisits c =
     (case sc_sweeper c of Sweeping now_ts gs \<Rightarrow> Some (sweep_visit S now_ts gs c) | _ \<Rightarrow> None)"
| "on_event S L X A opts SweepDies c =
     (case sc_sweeper c of Sweeping now_ts gs \<Rightarrow> Some (c\<lparr>sc_sweeper := Sleeping\<rparr>) | _ \<Rightarrow> None)"
| "on_event S L X A opts ServeReturns c =
     (case sc_server c of
        Stopped (Inl e) \<Rightarrow> Some (c\<lparr>sc_exit := Some 1\<rparr>)
      | Stopped (Inr _) \<Rightarrow>
          if sc_metrics c = Some MetricsServing then None else Some (c\<lparr>sc_exit := Some 0\<rparr>)
      | _ \<Rightarrow> None)"

fun event_ok :: "(instant \<Rightarrow> bool) \<Rightarrow> service_event \<Rightarrow> bool" where
  "event_ok valid (Answer i rd) = readings_ok valid rd"
| "event_ok valid _ = True"

definition service_step ::
  "'db store_env \<Rightarrow> http_lib \<Rightarrow> axum_ops \<Rightarrow> 'db store app_state \<Rightarrow> router_options \<Rightarrow>
     service_event \<Rightarrow> 'db service \<Rightarrow> 'db service option" where
  "service_step S L X A opts ev c =
     (if sc_exit c = None then on_event S L X A opts ev c else None)"

inductive service_run ::
  "'db store_env \<Rightarrow> (instant \<Rightarrow> bool) \<Rightarrow> http_lib \<Rightarrow> axum_ops \<Rightarrow> 'db store app_state \<Rightarrow> router_options \<Rightarrow>
     'db service \<Rightarrow> service_event list \<Rightarrow> 'db service \<Rightarrow> bool"
  for S valid L X A opts c0 where
  boot: "service_run S valid L X A opts c0 [] c0"
| event: "service_run S valid L X A opts c0 evs c \<Longrightarrow> event_ok valid ev \<Longrightarrow>
    service_step S L X A opts ev c = Some c' \<Longrightarrow> service_run S valid L X A opts c0 (evs @ [ev]) c'"

lemma on_event_cases:
  assumes "on_event S L X A opts ev c = Some c'"
  obtains (accepted) req where "sc_server c = Accepting" and "c' = c\<lparr>sc_inflight := sc_inflight c @ [req]\<rparr>"
    | (answered) i rd r st' where "ev = Answer i rd" and "i < length (sc_inflight c)" and "\<not> is_stopped (sc_server c)"
      and "handle_request L X A opts rd (sc_store c) (sc_inflight c ! i) = (r, st')"
      and "c' = c\<lparr>sc_store := st', sc_inflight := take i (sc_inflight c) @ drop (Suc i) (sc_inflight c)\<rparr>"
    | (signalled) "sc_server c = Accepting"
      and "c' = c\<lparr>sc_server := Draining, sc_shutdown_cancel := True, sc_gc_cancel := True\<rparr>"
    | (drained) "sc_server c = Draining" and "sc_inflight c = []" and "c' = c\<lparr>sc_server := Stopped (Inr ())\<rparr>"
    | (failed) e where "\<not> is_stopped (sc_server c)" and "c' = c\<lparr>sc_server := Stopped (Inl e)\<rparr>"
    | (metrics_ended) "sc_metrics c = Some MetricsServing" and "c' = c\<lparr>sc_metrics := Some MetricsEnded\<rparr>"
    | (cancelled) "sc_sweeper c = Sleeping" and "sc_gc_cancel c" and "c' = c\<lparr>sc_sweeper := SweeperEnded\<rparr>"
    | (woke) now gs where "sc_sweeper c = Sleeping" and "\<not> sc_gc_cancel c"
      and "c' = c\<lparr>sc_sweeper := Sweeping (unix_timestamp (cd_time (sv_codec S)) now) gs\<rparr>"
    | (visited) now_ts gs where "sc_sweeper c = Sweeping now_ts gs" and "c' = sweep_visit S now_ts gs c"
    | (died) now_ts gs where "sc_sweeper c = Sweeping now_ts gs" and "c' = c\<lparr>sc_sweeper := Sleeping\<rparr>"
    | (returned_err) e where "sc_server c = Stopped (Inl e)" and "c' = c\<lparr>sc_exit := Some 1\<rparr>"
    | (returned) "sc_server c = Stopped (Inr ())" and "sc_metrics c \<noteq> Some MetricsServing"
      and "c' = c\<lparr>sc_exit := Some 0\<rparr>"
proof (cases ev)
  case (Accept req)
  then show thesis using assms accepted by (auto split: if_splits)
next
  case (Answer i rd)
  then show thesis using assms answered by (auto split: if_splits prod.splits)
next
  case (Signal sig)
  then show thesis using assms signalled by (auto split: if_splits)
next
  case (ServerEnds r)
  then show thesis using assms drained failed by (cases r) (auto split: if_splits)
next
  case (MetricsEnds r)
  then show thesis using assms metrics_ended by (auto split: if_splits)
next
  case (SweeperPolled timer)
  then show thesis using assms cancelled woke by (auto simp: poll_sweeper_def split: if_splits option.splits)
next
  case SweepVisits
  then show thesis using assms visited by (auto split: sweeper_task.splits)
next
  case SweepDies
  then show thesis using assms died by (auto split: sweeper_task.splits)
next
  case ServeReturns
  then show thesis using assms returned_err returned
    by (auto split: server_task.splits sum.splits if_splits)
qed

section \<open>The store of a serving process\<close>

lemma sweep_visit_server:
  "sc_store (sweep_visit S now_ts gs c) = sc_store c
     \<or> server_step S valid L X A opts (sc_store c) (sc_store (sweep_visit S now_ts gs c))"
  by (auto simp: sweep_visit_def Let_def intro: server_step.sweep split: list.split prod.split)

lemma event_server:
  assumes "on_event S L X A opts ev c = Some c'" and "event_ok valid ev"
  shows "sc_store c' = sc_store c \<or> server_step S valid L X A opts (sc_store c) (sc_store c')"
  using assms(1)
proof (cases rule: on_event_cases)
  case (answered i rd r st')
  then show ?thesis using assms(2) server_step.request [OF answered(4)] by simp
next
  case (visited now_ts gs)
  then show ?thesis using sweep_visit_server by simp
qed simp_all

lemma service_server:
  "service_run S valid L X A opts c0 evs c \<Longrightarrow>
     server_reachable S valid L X A opts (sc_store c0) (sc_store c)"
proof (induction rule: service_run.induct)
  case boot
  then show ?case by (rule server_reachable.start)
next
  case (event evs c ev c')
  then have "on_event S L X A opts ev c = Some c'" by (simp add: service_step_def split: if_splits)
  from event_server [OF this event.hyps(2)] event.IH show ?case
    by (metis server_reachable.next_step)
qed

section \<open>Shutdown\<close>

text \<open>How the tasks, the tokens and the exit status belong together.\<close>

definition service_inv :: "'db service \<Rightarrow> bool" where
  "service_inv c \<longleftrightarrow>
     (sc_gc_cancel c \<longleftrightarrow> sc_shutdown_cancel c)
     \<and> (sc_gc_cancel c \<longrightarrow> sc_server c \<noteq> Accepting)
     \<and> (sc_server c = Draining \<or> sc_server c = Stopped (Inr ()) \<longrightarrow> sc_gc_cancel c)
     \<and> (sc_server c = Stopped (Inr ()) \<longrightarrow> sc_inflight c = [])
     \<and> (sc_sweeper c = SweeperEnded \<longrightarrow> sc_gc_cancel c)
     \<and> (\<forall>n. sc_exit c = Some n \<longrightarrow>
          n = 0 \<and> sc_server c = Stopped (Inr ()) \<and> sc_metrics c \<noteq> Some MetricsServing
          \<or> n = 1 \<and> (\<exists>e. sc_server c = Stopped (Inl e)))"

lemma service_inv_start: "service_inv (service_start r)"
  by (simp add: service_inv_def service_start_def)

lemma sweep_visit_simps [simp]:
  "sc_server (sweep_visit S now_ts gs c) = sc_server c" "sc_inflight (sweep_visit S now_ts gs c) = sc_inflight c"
  "sc_metrics (sweep_visit S now_ts gs c) = sc_metrics c" "sc_exit (sweep_visit S now_ts gs c) = sc_exit c"
  "sc_gc_cancel (sweep_visit S now_ts gs c) = sc_gc_cancel c"
  "sc_shutdown_cancel (sweep_visit S now_ts gs c) = sc_shutdown_cancel c"
  by (simp_all add: sweep_visit_def Let_def split: list.split prod.split)

lemma sweep_visit_running: "sc_sweeper (sweep_visit S now_ts gs c) \<noteq> SweeperEnded"
  by (simp add: sweep_visit_def Let_def split: list.split prod.split gc_flow.split)

lemma event_inv:
  assumes "service_step S L X A opts ev c = Some c'" and "service_inv c"
  shows "service_inv c'"
proof -
  have live: "sc_exit c = None" and step: "on_event S L X A opts ev c = Some c'"
    using assms(1) by (auto simp: service_step_def split: if_splits)
  from step show ?thesis
  proof (cases rule: on_event_cases)
    case (visited now_ts gs)
    then show ?thesis using assms(2) live sweep_visit_running by (auto simp: service_inv_def)
  qed (use assms(2) live in \<open>auto simp: service_inv_def\<close>)
qed

lemma service_run_inv:
  "service_run S valid L X A opts (service_start r) evs c \<Longrightarrow> service_inv c"
  by (induction rule: service_run.induct) (auto intro: service_inv_start event_inv)

text \<open>What is left to do after the signal.\<close>

definition shutdown_work :: "'db service \<Rightarrow> nat" where
  "shutdown_work c =
     length (sc_inflight c) + (if is_stopped (sc_server c) then 0 else 1)
     + (if sc_metrics c = Some MetricsServing then 1 else 0)
     + (case sc_sweeper c of SweeperEnded \<Rightarrow> 0 | Sleeping \<Rightarrow> 1 | Sweeping _ gs \<Rightarrow> length gs + 2)
     + (if sc_exit c = None then 1 else 0)"

lemma sweep_visit_work:
  assumes "sc_sweeper c = Sweeping now_ts gs"
  shows "shutdown_work (sweep_visit S now_ts gs c) < shutdown_work c"
proof -
  have "(case sc_sweeper (sweep_visit S now_ts gs c) of SweeperEnded \<Rightarrow> 0 | Sleeping \<Rightarrow> 1 | Sweeping _ gs \<Rightarrow> length gs + 2)
      < length gs + 2"
    by (cases gs) (auto simp: sweep_visit_def Let_def split: prod.split gc_flow.split)
  then show ?thesis using assms by (simp add: shutdown_work_def)
qed

lemma shutdown_decreases:
  assumes "service_step S L X A opts ev c = Some c'" and "sc_gc_cancel c" and "service_inv c"
  shows "shutdown_work c' < shutdown_work c \<and> sc_gc_cancel c'"
proof -
  have live: "sc_exit c = None" and step: "on_event S L X A opts ev c = Some c'"
    using assms(1) by (auto simp: service_step_def split: if_splits)
  have na: "sc_server c \<noteq> Accepting" using assms(2,3) by (simp add: service_inv_def)
  from step show ?thesis
  proof (cases rule: on_event_cases)
    case (visited now_ts gs)
    then show ?thesis using sweep_visit_work assms(2) by simp
  qed (use assms(2) live na in \<open>auto simp: shutdown_work_def\<close>)
qed

lemma shutdown_enabled:
  assumes "service_inv c" and "sc_gc_cancel c" and "sc_exit c = None" and "readings_ok valid rd"
  shows "\<exists>ev c'. event_ok valid ev \<and> service_step S L X A opts ev c = Some c'"
proof -
  have go: ?thesis if "event_ok valid ev" "on_event S L X A opts ev c = Some c'" for ev c'
    using that assms(3) by (auto simp: service_step_def)
  show ?thesis
  proof (cases "sc_server c")
    case Accepting
    then show ?thesis using assms(1,2) by (simp add: service_inv_def)
  next
    case Draining
    obtain r st' where h: "handle_request L X A opts rd (sc_store c) (sc_inflight c ! 0) = (r, st')" by fastforce
    show ?thesis
    proof (cases "sc_inflight c = []")
      case True
      then show ?thesis using go [of "ServerEnds (Inr ())"] Draining by simp
    next
      case False
      then show ?thesis using go [of "Answer 0 rd"] Draining assms(4) h by simp
    qed
  next
    case (Stopped r)
    have k: "sc_shutdown_cancel c" using assms(1,2) by (simp add: service_inv_def)
    show ?thesis
    proof (cases "sc_metrics c = Some MetricsServing")
      case True
      then show ?thesis using go [of "MetricsEnds (Inr ())"] k by simp
    next
      case False
      then show ?thesis using go [of ServeReturns] Stopped by (cases r) simp_all
    qed
  qed
qed

lemma shutdown_ends:
  assumes "service_inv c" and "sc_gc_cancel c" and "service_run S valid L X A opts c0 evs c"
    and "readings_ok valid rd"
  shows "\<exists>evs' c'. service_run S valid L X A opts c0 (evs @ evs') c' \<and> sc_exit c' \<noteq> None"
  using assms(1-3)
proof (induction "shutdown_work c" arbitrary: c evs rule: less_induct)
  case less
  show ?case
  proof (cases "sc_exit c = None")
    case True
    obtain ev c1 where ok: "event_ok valid ev" and step: "service_step S L X A opts ev c = Some c1"
      using shutdown_enabled [OF less.prems(1,2) True assms(4)] by blast
    have run: "service_run S valid L X A opts c0 (evs @ [ev]) c1"
      by (rule service_run.event [OF less.prems(3) ok step])
    from shutdown_decreases [OF step less.prems(2,1)]
    have w: "shutdown_work c1 < shutdown_work c" "sc_gc_cancel c1" by simp_all
    obtain evs' c' where "service_run S valid L X A opts c0 ((evs @ [ev]) @ evs') c'" "sc_exit c' \<noteq> None"
      using less.hyps [OF w(1) event_inv [OF step less.prems(1)] w(2) run] by blast
    then show ?thesis by auto
  next
    case False
    then show ?thesis using less.prems(3) by (metis append_Nil2)
  qed
qed

section \<open>Properties\<close>


text \<open>A short life: the signal comes, the sweeper sees its token, the server ends, \<open>serve\<close> returns.\<close>

definition demo_life :: "service_event list" where
  "demo_life = [Signal (Terminate (Inr ())), SweeperPolled (Some 5), ServerEnds (Inr ()), ServeReturns]"

lemma demo_life_runs:
  obtains c where "service_run mem_env time_valid demo_lib demo_axum (rn_app demo_running) (rn_options demo_running)
      (service_start demo_running) demo_life c" and "sc_exit c = Some 0"
proof -
  let ?run = "service_run mem_env time_valid demo_lib demo_axum (rn_app demo_running) (rn_options demo_running)
      (service_start demo_running)"
  let ?c0 = "service_start demo_running"
  let ?c1 = "?c0\<lparr>sc_server := Draining, sc_shutdown_cancel := True, sc_gc_cancel := True\<rparr>"
  let ?c2 = "?c1\<lparr>sc_sweeper := SweeperEnded\<rparr>"
  let ?c3 = "?c2\<lparr>sc_server := Stopped (Inr ())\<rparr>"
  have m: "rn_metrics demo_running = None" by (simp add: demo_running_def assemble_def default_http_config_def)
  note defs = service_step_def service_start_def poll_sweeper_def
  have "?run ([] @ [Signal (Terminate (Inr ()))]) ?c1"
    by (rule service_run.event [OF service_run.boot]) (simp_all add: defs)
  then have "?run (([] @ [Signal (Terminate (Inr ()))]) @ [SweeperPolled (Some 5)]) ?c2"
    by (rule service_run.event) (simp_all add: defs)
  then have "?run ((([] @ [Signal (Terminate (Inr ()))]) @ [SweeperPolled (Some 5)]) @ [ServerEnds (Inr ())]) ?c3"
    by (rule service_run.event) (simp_all add: defs)
  then have "?run (((([] @ [Signal (Terminate (Inr ()))]) @ [SweeperPolled (Some 5)]) @ [ServerEnds (Inr ())])
      @ [ServeReturns]) (?c3\<lparr>sc_exit := Some 0\<rparr>)"
    by (rule service_run.event) (simp_all add: defs m)
  then show thesis using that [of "?c3\<lparr>sc_exit := Some 0\<rparr>"] by (simp add: demo_life_def)
qed




end
