(* ===== verification/Typed.thy ===== *)
theory Typed
  imports Server
begin

text \<open>
  The type invariant of the data keyspace: every record belongs to a bucket and a key within
  the limits of the domain, and its bytes decode to an entry whose value is within the limits.
  Every write of a request keeps it, so a read never meets a record it cannot decode.
\<close>

text \<open>What one record has to satisfy.\<close>

definition record_typed :: "codec_ops \<Rightarrow> bytes \<Rightarrow> bytes \<Rightarrow> bool" where
  "record_typed C sk raw \<longleftrightarrow>
     (\<exists>b k en. sk = data_storage_key b k \<and> bucket_ok b \<and> key_ok k
        \<and> decode_entry C raw = Inr en \<and> value_ok (se_value en))"

definition well_typed :: "codec_ops \<Rightarrow> contents \<Rightarrow> bool" where
  "well_typed C c \<longleftrightarrow>
     (\<forall>sk raw. c DATA_KEYSPACE sk = Some raw \<longrightarrow> record_typed C sk raw)"

lemma well_typed_shrink:
  assumes "well_typed C c" and "\<And>sk. c' DATA_KEYSPACE sk = c DATA_KEYSPACE sk \<or> c' DATA_KEYSPACE sk = None"
  shows "well_typed C c'"
  using assms unfolding well_typed_def by (metis option.distinct(1))

lemma well_typed_remove: "well_typed C c \<Longrightarrow> well_typed C (apply_bop (BRemove DATA_KEYSPACE sk) c)"
  by (erule well_typed_shrink) simp

lemma txn_ops_keys:
  "txn_ops_of L clk auth n items = Inr ops \<Longrightarrow> list_all (\<lambda>op. key_ok (txn_key op)) ops"
proof (induction items arbitrary: n ops)
  case (Cons it items)
  then show ?case by (cases it) (fastforce dest: parse_key_ok split: sum.splits prod.splits)+
qed simp

section \<open>Store operations\<close>

context fjall_store
begin

lemma write_typed:
  assumes "encode_entry C v ex = Inr raw" and "value_ok v" and "pred_option valid ex" and "bucket_ok b" and "key_ok k"
    and "well_typed C c"
  shows "well_typed C (apply_bops (write_ops C (data_storage_key b k) raw ex) c)"
proof -
  have "decode_entry C raw = Inr (truncated_entry v ex)" by (rule decode_encode_entry [OF assms(1-3)])
  moreover have "se_value (truncated_entry v ex) = v" by (simp add: truncated_entry_def)
  ultimately have "record_typed C (data_storage_key b k) raw"
    using assms(2,4,5) unfolding record_typed_def by metis
  then show ?thesis using assms(6) by (auto simp: well_typed_def write_ops_def split: option.splits)
qed

lemma put_entry_typed:
  assumes "put_entry S st (data_storage_key b k) raw ex = (r, st')" and "encode_entry C v ex = Inr raw" and "value_ok v"
    and "pred_option valid ex" and "bucket_ok b" and "key_ok k" and "well_typed C (contents_of st)"
  shows "well_typed C (contents_of st')"
  using put_entry_contents(1) [OF assms(1)] write_typed [OF assms(2-6)] assms(7) by auto

lemma set_typed:
  assumes "fjall_set S st b k v ex = (r, st')" and "value_ok v" and "pred_option valid ex" and "bucket_ok b"
    and "key_ok k" and "well_typed C (contents_of st)"
  shows "well_typed C (contents_of st')"
  using set_cases [OF assms(1)] put_entry_typed assms(2-6) by metis

lemma increment_typed:
  assumes "fjall_increment S st now b k op ex = (r, st')" and "counter_op_ok op" and "pred_option valid ex"
    and "bucket_ok b" and "key_ok k" and "well_typed C (contents_of st)"
  shows "well_typed C (contents_of st')"
  using assms(1)
proof (cases rule: increment_cases)
  case (written v raw q)
  then show ?thesis using put_entry_typed incremented_ok assms(2-6) by blast
qed (use assms(6) in simp)

lemma delete_typed:
  assumes "fjall_delete S st b k = (r, st')" and "well_typed C (contents_of st)"
  shows "well_typed C (contents_of st')"
  using assms(1)
proof (cases rule: delete_cases)
  case (removed q)
  then show ?thesis using db.remove_cases [OF removed(2)] well_typed_remove assms(2) by metis
qed (use assms(2) in simp_all)

lemma batch_item_typed:
  assumes "batch_item_of S b op = Inr it" and "txn_op_ok valid op" and "key_ok (txn_key op)" and "bucket_ok b"
    and "well_typed C c"
  shows "well_typed C (apply_bops (item_ops it) c)"
proof (cases op)
  case (TxnSet k v ex)
  then show ?thesis using batch_item_of_ops [of S b k v ex it] write_typed assms by auto
next
  case (TxnDelete k)
  then show ?thesis using assms(1,5) well_typed_remove by (auto simp del: apply_bop.simps)
qed

lemma batch_items_typed:
  assumes "batch_items S b ops = Inr its" and "list_all (txn_op_ok valid) ops"
    and "list_all (\<lambda>op. key_ok (txn_key op)) ops" and "bucket_ok b" and "well_typed C c"
  shows "well_typed C (apply_bops (concat (map item_ops its)) c)"
  using assms(1-3,5)
  by (induction ops arbitrary: its c)
    (auto simp: apply_bops_append dest: batch_item_typed [OF _ _ _ assms(4)] split: sum.splits)

lemma apply_batch_typed:
  assumes "fjall_apply_batch S st b ops = (r, st')" and "list_all (txn_op_ok valid) ops"
    and "list_all (\<lambda>op. key_ok (txn_key op)) ops" and "bucket_ok b" and "well_typed C (contents_of st)"
  shows "well_typed C (contents_of st')"
  using assms(1)
  by (cases rule: apply_batch_cases) (simp_all add: assms(5) batch_items_typed [OF _ assms(2-5)])

text \<open>On a well-typed store a read fails only if the database does.\<close>

lemma well_typed_get:
  assumes "well_typed C (contents_of st)" and "fj_get (sv_fjall S) (st_db st) DATA_KEYSPACE (data_storage_key b k) = Inr r"
  shows "fjall_get S st b k = Inr (entry st b k)"
proof (cases r)
  case (Some raw)
  then have "contents_of st DATA_KEYSPACE (data_storage_key b k) = Some raw" using db.get_Inr [OF assms(2)] by simp
  then obtain en where "decode_entry C raw = Inr en" using assms(1) unfolding well_typed_def record_typed_def by blast
  then show ?thesis
    using assms(2) Some db.get_Inr [OF assms(2)] by (simp add: fjall_get_def abs_entry_def decoded_def)
qed (use assms(2) db.get_Inr [OF assms(2)] in \<open>simp add: fjall_get_def abs_entry_def decoded_def\<close>)

end

section \<open>Requests\<close>

context fjall_backend
begin

lemma resolved_ttl_valid:
  "wired S J L A \<Longrightarrow> valid now \<Longrightarrow> resolve_ttl (hl_time L) now ttl dflt = Inr ex \<Longrightarrow> pred_option valid ex"
  using tm.resolve_ttl_valid by (simp add: wired_def)

lemma write_by_typed:
  assumes "write_by L A rd st auth st'" and "wired S J L A" and "readings_ok valid rd" and "bucket_ok (ba_bucket_id auth)"
    and "well_typed C (contents_of st)"
  shows "well_typed C (contents_of st')"
proof (cases "st' = st")
  case ne: False
  have w: "st_keys A = fjall_repo S" "st_buckets A = fjall_buckets S J" using assms(2) by (auto simp: wired_def)
  have v: "valid (rd_now rd)" "\<And>i. valid (rd_clk rd i)" using assms(3) by (auto simp: readings_ok_def)
  from assms(1) show ?thesis
  proof cases
    case (put key ttl cth body q)
    obtain k x ex q' dflt where "require_write_on auth k = Inr ()"
      and f: "fjall_set S st (ba_bucket_id auth) k x ex = (q', st')" "key_ok k" "value_ok x"
        "resolve_ttl (hl_time L) (rd_now rd) ttl dflt = Inr ex" by (rule put_key_fjall [OF w(1) put ne])
    show ?thesis by (rule set_typed [OF f(1,3) resolved_ttl_valid [OF assms(2) v(1) f(4)] assms(4) f(2) assms(5)])
  next
    case (patch key ttl body q)
    obtain k op ex q' dflt where "require_write_on auth k = Inr ()"
      and f: "fjall_increment S st (rd_store_now rd) (ba_bucket_id auth) k op ex = (q', st')" "key_ok k" "counter_op_ok op"
        "resolve_ttl (hl_time L) (rd_now rd) ttl dflt = Inr ex" by (rule patch_key_fjall [OF w(1) patch ne])
    show ?thesis
      by (rule increment_typed [OF f(1,3) resolved_ttl_valid [OF assms(2) v(1) f(4)] assms(4) f(2) assms(5)])
  next
    case (delete key q)
    obtain k q' where "require_delete_on auth k = Inr ()" and f: "fjall_delete S st (ba_bucket_id auth) k = (q', st')"
      by (rule delete_key_fjall [OF w(1) delete ne])
    show ?thesis by (rule delete_typed [OF f assms(5)])
  next
    case (txn body q)
    obtain ops q' items where "list_all (txn_op_permitted auth) ops"
      and b: "fjall_apply_batch S st (ba_bucket_id auth) ops = (q', st')"
      and o: "txn_ops_of L (rd_clk rd) auth 0 items = Inr ops" by (rule execute_txn_fjall [OF w(1) txn ne])
    have t: "time_api (hl_time L) valid" using tm.time_api_axioms assms(2) by (simp add: wired_def)
    have "list_all (txn_op_ok valid) ops" by (rule txn_ops_ok [OF t _ o]) (rule v(2))
    from apply_batch_typed [OF b this txn_ops_keys [OF o] assms(4,5)] show ?thesis .
  next
    case (update body q)
    then obtain pol q' where "fjall_create_bucket S J st (ba_bucket_id auth) pol = (q', st')"
      using update_policy_request [OF w(2)] ne by blast
    from create_cases [OF this] show ?thesis using assms(5) by (auto intro: well_typed_shrink)
  next
    case (drop q)
    then obtain b q' where "fjall_delete_bucket S st b = (q', st')" using delete_bucket_request [OF w(2)] ne by blast
    from delete_bucket_cases [OF this] show ?thesis using assms(5) by (auto intro: well_typed_shrink)
  qed
qed (use assms(5) in simp)

lemma request_typed:
  assumes "handle_request L X A opts rd st req = (r, st')" and "readings_ok valid rd" and "wired S J L A"
    and "server_inv st" and "well_typed C (contents_of st)"
  shows "well_typed C (contents_of st')"
proof (cases "st' = st")
  case ne: False
  with assms(1) show ?thesis
  proof (cases rule: handle_request_writes)
    case (create form q)
    then obtain pol q' where "fjall_create_bucket S J st (BucketId (rd_uuid rd)) pol = (q', st')"
      using create_bucket_request ne assms(3) unfolding wired_def by blast
    from create_cases [OF this] show ?thesis using assms(5) by (auto intro: well_typed_shrink)
  next
    case (authorised m params path auth)
    then show ?thesis using write_by_typed extracted assms(2-5) by blast
  qed
qed (use assms(5) in simp)

lemma server_reachable_typed:
  assumes "server_reachable S valid L X A opts st0 st" and "wired S J L A" and "reliable (sv_fjall S)"
    and "server_inv st0" and "well_typed C (contents_of st0)"
  shows "well_typed C (contents_of st)"
  using assms(1)
proof induction
  case start
  then show ?case by (rule assms(5))
next
  case (next_step st st')
  have inv: "server_inv st" using server_reachable_inv [OF next_step(1) assms(2-4)] .
  from next_step(2) show ?case
  proof cases
    case (request rd req r)
    then show ?thesis using request_typed assms(2) inv next_step.IH by blast
  next
    case (sweep now_ts g stats flow stats')
    have "contents_of st' DATA_KEYSPACE sk = contents_of st DATA_KEYSPACE sk \<or> contents_of st' DATA_KEYSPACE sk = None" for sk
      using gc_step_only_expired [OF sweep] by (auto simp: only_expired_dropped_def)
    then show ?thesis by (rule well_typed_shrink [OF next_step.IH])
  qed
qed

end

end
