(* ===== verification/Policy_Race.thy ===== *)
theory Policy_Race
  imports Server
begin

text \<open>
  \<open>update_policy\<close> under concurrency (\<open>keydock-http/src/routes/buckets.rs\<close>).  The handler reads the
  policy in one blocking task and writes the patched one in another, and no lock spans the two:
  other requests run in between.  \<open>update_policy_plan\<close> is the handler up to the patched policy,
  \<open>update_policy_commit\<close> the rest; their composition is the handler.  The theorems say what a
  second update or a deletion between the two does.
\<close>

section \<open>The handler in two halves\<close>

definition update_policy_plan ::
  "http_lib \<Rightarrow> 'st app_state \<Rightarrow> 'st \<Rightarrow> bucket_auth \<Rightarrow> bytes \<Rightarrow> response + bucket_policy" where
  "update_policy_plan L A st auth body =
     (case require_admin auth of
        Inl r \<Rightarrow> Inl r
      | Inr _ \<Rightarrow>
          (case (if body = [] then Some default_patch else hl_patch_from_slice L body) of
             None \<Rightarrow> Inl bad_request
           | Some patch \<Rightarrow>
               (case read_policy A st (ba_bucket_id auth) of
                  Inl r \<Rightarrow> Inl r
                | Inr policy \<Rightarrow>
                    (case apply_policy_patch L policy patch (st_root_key A) of
                       Inl r \<Rightarrow> Inl r
                     | Inr (_, policy') \<Rightarrow>
                         Inr (policy'\<lparr>anonymous_access := recompute_anonymous_access policy'\<rparr>)))))"

definition update_policy_commit ::
  "'st app_state \<Rightarrow> bucket_auth \<Rightarrow> bucket_policy \<Rightarrow> 'st \<Rightarrow> (response + response) \<times> 'st" where
  "update_policy_commit A auth policy st =
     (let (res, st') = br_create (st_buckets A) st (ba_bucket_id auth) policy
      in (case spawn_usecase (Done res) of Inl r \<Rightarrow> Inl r | Inr _ \<Rightarrow> Inr (status_response 204), st'))"

lemma update_policy_halves:
  "update_policy L A st auth body =
     (case update_policy_plan L A st auth body of
        Inl r \<Rightarrow> (Inl r, st)
      | Inr policy \<Rightarrow> update_policy_commit A auth policy st)"
  by (auto simp: update_policy_def update_policy_plan_def update_policy_commit_def Let_def
      split: sum.split option.split prod.split)

lemma plan_patched:
  assumes "update_policy_plan L A st auth body = Inr p'"
  obtains p patch where "ba_identity auth = Admin"
    and "(if body = [] then Some default_patch else hl_patch_from_slice L body) = Some patch"
    and "br_get_policy (st_buckets A) st (ba_bucket_id auth) = Inr (Some p)" and "patched patch p p'"
proof -
  obtain patch p audit p1 where a: "require_admin auth = Inr ()"
    and patch: "(if body = [] then Some default_patch else hl_patch_from_slice L body) = Some patch"
    and get: "br_get_policy (st_buckets A) st (ba_bucket_id auth) = Inr (Some p)"
    and app: "apply_policy_patch L p patch (st_root_key A) = Inr (audit, p1)"
    and p': "p' = p1\<lparr>anonymous_access := recompute_anonymous_access p1\<rparr>"
    using assms by (auto simp: update_policy_plan_def read_policy_def split: sum.splits option.splits)
  have "patched patch p p'"
    using apply_policy_patch_patched [OF app] by (simp add: patched_def p')
  moreover have "ba_identity auth = Admin" using a by (auto simp: require_admin_def split: resolved_identity.splits)
  ultimately show thesis using that patch get by blast
qed

context fjall_backend
begin

lemma commit_writes:
  assumes "st_buckets A = fjall_buckets S J" and "update_policy_commit A auth p st = (Inr r, st')"
  shows "r = status_response 204"
    and "abs_policy J (contents_of st') = (abs_policy J (contents_of st))(ba_bucket_id auth := Some p)"
proof -
  have c: "fjall_create_bucket S J st (ba_bucket_id auth) p = (Inr (), st')" and "r = status_response 204"
    using assms by (auto simp: update_policy_commit_def Let_def split: sum.splits prod.splits)
  then show "r = status_response 204" by simp
  show "abs_policy J (contents_of st') = (abs_policy J (contents_of st))(ba_bucket_id auth := Some p)"
    using bk.create_writes [of st "ba_bucket_id auth" p "()" st'] c by simp
qed

end

section \<open>Races\<close>

text \<open>
  C38. Concurrent policy updates can lose one: when two updates of a bucket both read its policy
  before either writes, both are answered 204, but the policy that remains is the second one's
  patch of the old policy.  A key set by the first update only is not there, although its
  sender was told it is.
\<close>

theorem racing_updates_lose_one:
  assumes "fjall_backend S view valid J" and "st_buckets A = fjall_buckets S J"
    and "ba_bucket_id auth2 = ba_bucket_id auth1"
    and "update_policy_plan L A st auth1 body1 = Inr p1" and "update_policy_plan L A st auth2 body2 = Inr p2"
    and "update_policy_commit A auth1 p1 st = (Inr r1, st1)" and "update_policy_commit A auth2 p2 st1 = (Inr r2, st2)"
  shows "rs_status r1 = 204 \<and> rs_status r2 = 204
    \<and> abs_policy J (view (st_db st1)) (ba_bucket_id auth1) = Some p1
    \<and> abs_policy J (view (st_db st2)) (ba_bucket_id auth1) = Some p2
    \<and> (\<exists>p patch. abs_policy J (view (st_db st)) (ba_bucket_id auth1) = Some p
        \<and> (if body2 = [] then Some default_patch else hl_patch_from_slice L body2) = Some patch
        \<and> patched patch p p2)"
proof -
  obtain p patch where p: "br_get_policy (st_buckets A) st (ba_bucket_id auth2) = Inr (Some p)"
    and patch: "(if body2 = [] then Some default_patch else hl_patch_from_slice L body2) = Some patch" "patched patch p p2"
    by (rule plan_patched [OF assms(5)])
  have "abs_policy J (view (st_db st)) (ba_bucket_id auth1) = Some p"
    using fjall_backend.get_policy_abs [OF assms(1), of st "ba_bucket_id auth2" "Some p"] p assms(2,3) by simp
  then show ?thesis
    using fjall_backend.commit_writes [OF assms(1,2,6)] fjall_backend.commit_writes [OF assms(1,2,7)] assms(3) patch
    by (auto simp: status_response_def)
qed

text \<open>One update sets a write key, the other a time to live.\<close>

definition race_lib :: http_lib where
  "race_lib = demo_lib\<lparr>hl_patch_from_slice := (\<lambda>b.
     if b = bs ''w'' then Some (default_patch\<lparr>up_write_key := Some (Some (bs ''k''))\<rparr>)
     else if b = bs ''t'' then Some (default_patch\<lparr>up_default_ttl := Some (Some 60)\<rparr>) else None)\<rparr>"

definition open_policy :: bucket_policy where
  "open_policy =
     \<lparr>default_ttl_secs = None, anonymous_access = anonymous_from_keys True False False,
      secret_key_hash = Some (bs ''rootadmin''), read_key_hash = None, write_key_hash = None, signing_key = None,
      signing_key_generation = 0\<rparr>"

lemma race_plans:
  assumes "fjall_get_policy mem_env wire_policy st demo_bucket = Inr (Some open_policy)"
  shows "\<exists>p1. update_policy_plan race_lib demo_app st demo_admin (bs ''w'') = Inr p1 \<and> write_key_hash p1 \<noteq> None"
    and "\<exists>p2. update_policy_plan race_lib demo_app st demo_admin (bs ''t'') = Inr p2 \<and> write_key_hash p2 = None"
proof -
  have "\<exists>h. hash_api_key_or_fail race_lib (bs ''root'') (bs ''k'') = Inr h"
    by (simp add: hash_api_key_or_fail_def hash_credential_def hmac_sha256_def race_lib_def demo_lib_def demo_crypto_def)
  then obtain h where h: "hash_api_key_or_fail race_lib (bs ''root'') (bs ''k'') = Inr h" by blast
  note defs = update_policy_plan_def require_admin_def read_policy_def assms apply_policy_patch_def patch_secret_def
    patch_read_def patch_write_def patch_signing_def patch_ttl_def apply_nullable_hash_def h default_patch_def
    open_policy_def
  have lib: "hl_patch_from_slice race_lib (bs ''w'') = Some (default_patch\<lparr>up_write_key := Some (Some (bs ''k''))\<rparr>)"
    "hl_patch_from_slice race_lib (bs ''t'') = Some (default_patch\<lparr>up_default_ttl := Some (Some 60)\<rparr>)"
    by (simp_all add: race_lib_def bs_def)
  show "\<exists>p1. update_policy_plan race_lib demo_app st demo_admin (bs ''w'') = Inr p1 \<and> write_key_hash p1 \<noteq> None"
    by (simp add: defs lib) (simp add: bs_def)
  show "\<exists>p2. update_policy_plan race_lib demo_app st demo_admin (bs ''t'') = Inr p2 \<and> write_key_hash p2 = None"
    by (simp add: defs lib)
qed

lemma commit_total: "\<exists>st'. update_policy_commit demo_app demo_admin p st = (Inr (status_response 204), st')"
  using mem_create_total [of st demo_bucket p] by (auto simp: update_policy_commit_def)

lemma demo_bucket_open:
  obtains st where "fjall_get_policy mem_env wire_policy st demo_bucket = Inr (Some open_policy)"
proof -
  obtain st where st: "fjall_create_bucket mem_env wire_policy mem_store demo_bucket open_policy = (Inr (), st)"
    using mem_create_total by blast
  then have "abs_policy wire_policy (mem_view (st_db st)) demo_bucket = Some open_policy"
    using mem_backend.bk.create_writes [of mem_store demo_bucket open_policy "()" st] by simp
  then have "fjall_get_policy mem_env wire_policy st demo_bucket = Inr (Some open_policy)"
    by (auto simp: fjall_get_policy_def abs_policy_def mem_view_def split: option.splits sum.splits)
  then show thesis by (rule that)
qed

theorem racing_updates_lose_one_witness:
  "\<exists>st p1 st1 p2 st2. update_policy_plan race_lib demo_app st demo_admin (bs ''w'') = Inr p1 \<and> write_key_hash p1 \<noteq> None
     \<and> update_policy_plan race_lib demo_app st demo_admin (bs ''t'') = Inr p2
     \<and> update_policy_commit demo_app demo_admin p1 st = (Inr (status_response 204), st1)
     \<and> update_policy_commit demo_app demo_admin p2 st1 = (Inr (status_response 204), st2)
     \<and> abs_policy wire_policy (mem_view (st_db st2)) demo_bucket = Some p2 \<and> write_key_hash p2 = None"
proof -
  obtain st where st: "fjall_get_policy mem_env wire_policy st demo_bucket = Inr (Some open_policy)"
    by (rule demo_bucket_open)
  obtain p1 where p1: "update_policy_plan race_lib demo_app st demo_admin (bs ''w'') = Inr p1" "write_key_hash p1 \<noteq> None"
    using race_plans(1) [OF st] by blast
  obtain p2 where p2: "update_policy_plan race_lib demo_app st demo_admin (bs ''t'') = Inr p2" "write_key_hash p2 = None"
    using race_plans(2) [OF st] by blast
  obtain st1 where c1: "update_policy_commit demo_app demo_admin p1 st = (Inr (status_response 204), st1)"
    using commit_total by blast
  obtain st2 where c2: "update_policy_commit demo_app demo_admin p2 st1 = (Inr (status_response 204), st2)"
    using commit_total by blast
  have "abs_policy wire_policy (mem_view (st_db st2)) demo_bucket = Some p2"
    using racing_updates_lose_one [OF mem_backend.fjall_backend_axioms _ _ p1(1) p2(1) c1 c2] by simp
  then show ?thesis using p1 p2 c1 c2 by blast
qed

text \<open>
  An update can bring a deleted bucket back: when a bucket is deleted between the two halves
  of an update, the deletion is answered 204 and the bucket is gone, and then the update is
  answered 204 and the bucket exists again, with the patched policy and whatever entries it had.
\<close>

lemma update_resurrects_deleted_bucket:
  assumes "fjall_backend S view valid J" and "st_buckets A = fjall_buckets S J"
    and "ba_bucket_id auth2 = ba_bucket_id auth1"
    and "update_policy_plan L A st auth1 body = Inr p" and "delete_bucket A st auth2 = (Inr r1, st1)"
    and "update_policy_commit A auth1 p st1 = (Inr r2, st2)"
  shows "rs_status r1 = 204 \<and> rs_status r2 = 204
    \<and> abs_policy J (view (st_db st1)) (ba_bucket_id auth1) = None
    \<and> abs_policy J (view (st_db st2)) (ba_bucket_id auth1) = Some p
    \<and> abs_entry (sv_codec S) (view (st_db st2)) = abs_entry (sv_codec S) (view (st_db st))"
proof -
  have repo: "bucket_repository (fjall_buckets S J) (\<lambda>st. abs_policy J (view (st_db st)))
      (\<lambda>st. abs_entry (sv_codec S) (view (st_db st)))"
    by (rule fjall_backend.is_bucket_repository [OF assms(1)])
  have d: "br_delete (fjall_buckets S J) st (ba_bucket_id auth1) = (Inr (), st1)" and r1: "r1 = status_response 204"
    using assms(2,3,5) by (auto simp: delete_bucket_def Let_def split: sum.splits prod.splits)
  have c: "br_create (fjall_buckets S J) st1 (ba_bucket_id auth1) p = (Inr (), st2)"
    using assms(2,6) by (auto simp: update_policy_commit_def Let_def split: sum.splits prod.splits)
  show ?thesis
    using bucket_repository.delete_removes [OF repo d] bucket_repository.delete_entries [OF repo d]
      bucket_repository.create_entries [OF repo c] fjall_backend.commit_writes [OF assms(1,2,6)] r1
    by (simp add: status_response_def)
qed

lemma update_resurrects_deleted_bucket_example:
  "\<exists>st p st1 st2. update_policy_plan race_lib demo_app st demo_admin (bs ''t'') = Inr p
     \<and> delete_bucket demo_app st demo_admin = (Inr (status_response 204), st1)
     \<and> abs_policy wire_policy (mem_view (st_db st1)) demo_bucket = None
     \<and> update_policy_commit demo_app demo_admin p st1 = (Inr (status_response 204), st2)
     \<and> abs_policy wire_policy (mem_view (st_db st2)) demo_bucket = Some p"
proof -
  obtain st where st: "fjall_get_policy mem_env wire_policy st demo_bucket = Inr (Some open_policy)"
    by (rule demo_bucket_open)
  obtain p where p: "update_policy_plan race_lib demo_app st demo_admin (bs ''t'') = Inr p"
    using race_plans(2) [OF st] by blast
  obtain st1 where d: "delete_bucket demo_app st demo_admin = (Inr (status_response 204), st1)"
    by (simp add: delete_bucket_def require_admin_def fjall_delete_bucket_def)
  obtain st2 where c: "update_policy_commit demo_app demo_admin p st1 = (Inr (status_response 204), st2)"
    using commit_total by blast
  from update_resurrects_deleted_bucket [OF mem_backend.fjall_backend_axioms _ _ p d c]
  show ?thesis using p d c by auto
qed

end
