(* ===== verification/Demo_Server.thy ===== *)
theory Demo_Server
  imports Server
begin

text \<open>
  A server on the in-memory instances of every interface, for the witnesses of the properties of
  whole servers: a bucket created over HTTP, and an anonymous caller who writes to it.
\<close>

lemma demo_wired: "wired mem_env wire_policy demo_lib demo_app"
  by (simp add: wired_def wire_codec_def)

lemma mem_store_empty: "mem_view (st_db mem_store) = (\<lambda>_ _. None)"
  by (simp add: mem_view_def mem_store_def fun_eq_iff)

lemma demo_readings_ok: "readings_ok time_valid demo_readings"
proof -
  have "bucket_ok (BucketId (rd_uuid demo_readings))" by code_simp
  then show ?thesis
    by (simp add: readings_ok_def demo_readings_def time_valid_def time_min_def time_max_def)
qed

text \<open>The demonstration bucket, created on the empty database.\<close>

lemma demo_created:
  obtains r st p where "create_bucket demo_lib demo_app (bs ''b1'') mem_store demo_form = (Done (Inr r), st)"
    and "fjall_get_policy mem_env wire_policy st (BucketId (bs ''b1'')) = Inr (Some p)"
    and "write_key_hash p = None" and "policy_consistent p" and "default_ttl_secs p = Some 604800"
    and "abs_entry wire_codec (mem_view (st_db st)) (BucketId (bs ''b1'')) demo_key = None"
    and "st_poisoned st = (\<lambda>_. False)" and "st \<noteq> mem_store"
proof -
  obtain r st where c: "create_bucket demo_lib demo_app (bs ''b1'') mem_store demo_form = (Done (Inr r), st)"
    using demo_create by blast
  obtain p where a: "abs_policy wire_policy (mem_view (st_db st)) (BucketId (bs ''b1'')) = Some p"
    and e: "abs_entry wire_codec (mem_view (st_db st)) = abs_entry wire_codec (mem_view (st_db mem_store))"
    and h: "hash_opt demo_lib (st_root_key demo_app) (none_if_empty (cf_write_key demo_form)) = Inr (write_key_hash p)"
    and d: "default_ttl_secs p = Some (unwrap_or (cf_default_ttl demo_form) 604800)" and pc: "policy_consistent p"
    using create_bucket_policy [OF mem_backend.fjall_backend_axioms _ c] by auto
  have g: "fjall_get_policy mem_env wire_policy st (BucketId (bs ''b1'')) = Inr (Some p)"
    using a by (auto simp: fjall_get_policy_def abs_policy_def mem_view_def split: option.splits sum.splits)
  have w: "write_key_hash p = None" using h by (simp add: hash_opt_def none_if_empty_def demo_form_def)
  have d': "default_ttl_secs p = Some 604800" using d by (simp add: unwrap_or_def demo_form_def)
  have e': "abs_entry wire_codec (mem_view (st_db st)) (BucketId (bs ''b1'')) demo_key = None"
    using e by (simp add: mem_store_empty abs_entry_def decoded_def)
  have po: "st_poisoned st = (\<lambda>_. False)"
    using c by (auto simp: create_bucket_def fjall_create_bucket_def mem_store_def Let_def
        split: if_splits sum.splits prod.splits)
  have ne: "st \<noteq> mem_store" using a by (auto simp: abs_policy_def mem_view_def mem_store_def)
  show thesis by (rule that [OF c g w pc d' e' po ne])
qed

text \<open>A reachable state of the demonstration server: one bucket, created over HTTP.\<close>

lemma demo_reachable:
  obtains st p where "server_reachable mem_env time_valid demo_lib demo_axum demo_app default_router_options mem_store st"
    and "fjall_get_policy mem_env wire_policy st (BucketId (bs ''b1'')) = Inr (Some p)"
    and "write_key_hash p = None" and "policy_consistent p" and "default_ttl_secs p = Some 604800"
    and "abs_entry wire_codec (mem_view (st_db st)) (BucketId (bs ''b1'')) demo_key = None"
    and "st_poisoned st = (\<lambda>_. False)" and "st \<noteq> mem_store"
proof -
  obtain r st p where c: "create_bucket demo_lib demo_app (bs ''b1'') mem_store demo_form = (Done (Inr r), st)"
    and p: "fjall_get_policy mem_env wire_policy st (BucketId (bs ''b1'')) = Inr (Some p)"
      "write_key_hash p = None" "policy_consistent p" "default_ttl_secs p = Some 604800"
      "abs_entry wire_codec (mem_view (st_db st)) (BucketId (bs ''b1'')) demo_key = None"
      "st_poisoned st = (\<lambda>_. False)" "st \<noteq> mem_store" by (rule demo_created)
  have "server_step mem_env time_valid demo_lib demo_axum demo_app default_router_options mem_store st"
    by (rule server_step.request [OF demo_create_request [OF c] demo_readings_ok])
  then have "server_reachable mem_env time_valid demo_lib demo_axum demo_app default_router_options mem_store st"
    by (rule server_reachable.next_step [OF server_reachable.start])
  then show thesis using p by (rule that)
qed

text \<open>The anonymous caller on the bucket of the demonstration server.\<close>

lemma demo_anonymous:
  assumes "fjall_get_policy mem_env wire_policy st (BucketId (bs ''b1'')) = Inr (Some p)"
  shows "from_request_parts demo_lib demo_app 0 st (bs ''/b1/n'') None None = Inr
     \<lparr>ba_identity = Anonymous, ba_bucket_id = BucketId (bs ''b1''), ba_policy_presence = presence_of p,
      ba_anonymous_access = anonymous_access p, ba_default_ttl_secs = default_ttl_secs p\<rparr>"
proof -
  have "bucket_id_from_path (bs ''/b1/n'') = Inr (BucketId (bs ''b1''))" by code_simp
  then show ?thesis using assms by (simp add: from_request_parts_def extract_credential_def resolve_def)
qed

definition anonymous_auth :: "bucket_policy \<Rightarrow> bucket_auth" where
  "anonymous_auth p =
     \<lparr>ba_identity = Anonymous, ba_bucket_id = BucketId (bs ''b1''), ba_policy_presence = presence_of p,
      ba_anonymous_access = anonymous_access p, ba_default_ttl_secs = default_ttl_secs p\<rparr>"

lemma demo_anonymous_put:
  assumes "write_key_hash p = None" and "policy_consistent p" and "default_ttl_secs p = Some 604800"
    and "st_poisoned st = (\<lambda>_. False)"
  obtains st' where "put_key demo_lib demo_app 500000000 st (anonymous_auth p) (bs ''n'') None None (bs ''hi'')
      = (Inr (bytes_response 200 (bs ''text/plain; charset=utf-8'') (bs ''hi'')), st')"
    and "abs_entry wire_codec (mem_view (st_db st')) (BucketId (bs ''b1'')) demo_key \<noteq> None"
proof -
  let ?v = "\<lparr>payload = bs ''hi'', kind = Utf8\<rparr>"
  have v: "infer_stored_value (json_text_ok demo_lib) (bs ''hi'') None = Inr ?v" by code_simp
  have ttl: "resolve_ttl time_crate 500000000 None (Some 604800) = Inr (Some 604800500000000)" by code_simp
  have ex: "value_ok ?v" "pred_option time_valid (Some 604800500000000)"
    by (simp_all add: value_ok_def bs_def MAX_VALUE_BYTES_def time_valid_def time_min_def time_max_def)
  have bo: "bucket_ok (BucketId (bs ''b1''))" by code_simp
  have w: "require_write_on (anonymous_auth p) demo_key = Inr ()"
    using assms(1,2)
    by (simp add: anonymous_auth_def require_write_on_def presence_of_def policy_consistent_def flags_agree_def
        anonymous_from_keys_def)
  obtain st' where st': "fjall_set mem_env st (BucketId (bs ''b1'')) demo_key ?v (Some 604800500000000) = (Inr (), st')"
    using mem_set_total [OF assms(4)] by blast
  have "put_key demo_lib demo_app 500000000 st (anonymous_auth p) (bs ''n'') None None (bs ''hi'')
      = (Inr (bytes_response 200 (bs ''text/plain; charset=utf-8'') (bs ''hi'')), st')"
    using v ttl st' w assms(3)
    by (simp add: put_key_def demo_parse_n KeyService_set_def stored_value_response_def anonymous_auth_def)
  moreover have "abs_entry wire_codec (mem_view (st_db st')) (BucketId (bs ''b1'')) demo_key \<noteq> None"
    using mem_store.set_entry [OF st' ex bo bo] by simp
  ultimately show thesis by (rule that)
qed

lemma demo_put_request:
  assumes "fjall_get_policy mem_env wire_policy st (BucketId (bs ''b1'')) = Inr (Some p)"
    and "write_key_hash p = None" and "policy_consistent p" and "default_ttl_secs p = Some 604800"
    and "st_poisoned st = (\<lambda>_. False)"
  obtains r st' where "handle_request demo_lib demo_axum demo_app default_router_options demo_readings st
      (demo_request PUT ''/api/v1/b1/n'' ''hi'') = (Done r, st')"
    and "abs_entry wire_codec (mem_view (st_db st')) (BucketId (bs ''b1'')) demo_key \<noteq> None"
proof -
  obtain st' where put: "put_key demo_lib demo_app 500000000 st (anonymous_auth p) (bs ''n'') None None (bs ''hi'')
      = (Inr (bytes_response 200 (bs ''text/plain; charset=utf-8'') (bs ''hi'')), st')"
    and e: "abs_entry wire_codec (mem_view (st_db st')) (BucketId (bs ''b1'')) demo_key \<noteq> None"
    by (rule demo_anonymous_put [OF assms(2-)])
  have "handle_request demo_lib demo_axum demo_app default_router_options demo_readings st
      (demo_request PUT ''/api/v1/b1/n'' ''hi'')
      = (Done (bytes_response 200 (bs ''text/plain; charset=utf-8'') (bs ''hi'')), st')"
    using put demo_anonymous [OF assms(1)] demo_route_key
    by (simp add: handle_request_def limited_response_def demo_dispatch demo_request_def demo_readings_def
        with_auth_def with_part_def wrote_def anonymous_auth_def)
  then show thesis using e by (rule that)
qed

end
