(* ===== verification/Interleaved.thy ===== *)
theory Interleaved
  imports Typed Policy_Race Demo_Server
begin

text \<open>
  The server with its requests cut at their storage calls.  A request reads the policy of its
  bucket when its credentials are resolved (\<open>extract.rs\<close>) and makes its own storage call later,
  in a blocking task; \<open>update_policy\<close> makes two.  Between these moments other requests and the
  sweeper run, and a client that goes away may leave a request unfinished.  \<open>start_request\<close> and
  \<open>continue_request\<close> are the pieces, \<open>task_step\<close> one step of the server, and \<open>task_run\<close> its runs
  with the stores they went through.  Shown here: in one piece, the pieces are
  \<open>handle_request\<close>; the invariant and the types hold in every interleaving; and an entry changes only by
  a request that was authorised for it, by a policy that was stored when the request arrived.
\<close>

section \<open>The pieces of a request\<close>

text \<open>Where a request waits: its identity is resolved, or its patched policy is ready to be written.\<close>

datatype stage = Extracted "str list" handler bucket_auth | Patched bucket_auth bucket_policy

text \<open>
  A handler after the \<open>BucketAuth\<close> extractor, up to its next storage call and including it.  The last
  line is for the handlers that have no such extractor; no request gets there.
\<close>

fun after_auth ::
  "http_lib \<Rightarrow> axum_ops \<Rightarrow> 'st app_state \<Rightarrow> readings \<Rightarrow> 'st \<Rightarrow> request \<Rightarrow> str list \<Rightarrow> handler \<Rightarrow> bucket_auth \<Rightarrow>
     (response + stage) \<times> 'st" where
  "after_auth L X A rd st req params CreateToken auth =
     apfst Inl (with_part st (ax_token_form X req) (\<lambda>form.
       (case create_token L A (rd_now rd) st auth form of Inl r \<Rightarrow> r | Inr t \<Rightarrow> token_response t, st)))"
| "after_auth L X A rd st req params GetKey auth =
     apfst Inl (with_part st (ax_path_pair X params) (\<lambda>(_, key).
       (into_response (get_key L A (rd_now rd) st auth key), st)))"
| "after_auth L X A rd st req params HeadKey auth =
     apfst Inl (with_part st (ax_path_pair X params) (\<lambda>(_, key).
       (into_response (head_key L A (rd_now rd) st auth key), st)))"
| "after_auth L X A rd st req params PutKey auth =
     apfst Inl (with_part st (ax_path_pair X params) (\<lambda>(_, key).
       with_part st (ax_ttl_query X (rq_query req)) (\<lambda>ttl.
       with_part st (ax_body X req) (\<lambda>body.
         wrote (put_key L A (rd_now rd) st auth key ttl (rq_content_type req) body)))))"
| "after_auth L X A rd st req params DeleteKey auth =
     apfst Inl (with_part st (ax_path_pair X params) (\<lambda>(_, key). wrote (delete_key L A st auth key)))"
| "after_auth L X A rd st req params PatchKey auth =
     apfst Inl (with_part st (ax_path_pair X params) (\<lambda>(_, key).
       with_part st (ax_ttl_query X (rq_query req)) (\<lambda>ttl.
       with_part st (ax_body X req) (\<lambda>body.
         wrote (patch_key L A (rd_now rd) (rd_store_now rd) st auth key ttl body)))))"
| "after_auth L X A rd st req params ListBucket auth =
     apfst Inl (with_part st (ax_list_query X (rq_query req)) (\<lambda>ps.
       (into_response (list_bucket L A (rd_now rd) st auth ps (rq_accept req)), st)))"
| "after_auth L X A rd st req params DeleteBucket auth = apfst Inl (wrote (delete_bucket A st auth))"
| "after_auth L X A rd st req params GetBucketPolicy auth = (Inl (into_response (get_bucket_policy A st auth)), st)"
| "after_auth L X A rd st req params HeadBucket auth = (Inl (into_response (head_bucket auth)), st)"
| "after_auth L X A rd st req params ExecuteTxn auth =
     apfst Inl (with_part st (ax_body X req) (\<lambda>body. wrote (execute_txn L A (rd_clk rd) st auth body)))"
| "after_auth L X A rd st req params UpdatePolicy auth =
     (case ax_body X req of
        Inl r \<Rightarrow> (Inl r, st)
      | Inr body \<Rightarrow>
          (case update_policy_plan L A st auth body of
             Inl r \<Rightarrow> (Inl r, st)
           | Inr policy \<Rightarrow> (Inr (Patched auth policy), st)))"
| "after_auth L X A rd st req params _ auth = (Inl internal_error, st)"

text \<open>The handlers that have no \<open>BucketAuth\<close>.\<close>

fun is_open :: "handler \<Rightarrow> bool" where
  "is_open CreateBucket = True"
| "is_open HealthCheck = True"
| "is_open ReadinessCheck = True"
| "is_open Metrics = True"
| "is_open _ = False"

definition start_request ::
  "http_lib \<Rightarrow> axum_ops \<Rightarrow> 'st app_state \<Rightarrow> router_options \<Rightarrow> readings \<Rightarrow> 'st \<Rightarrow> request \<Rightarrow>
     (response run + stage) \<times> 'st" where
  "start_request L X A opts rd st req =
     (case ax_preflight X req of
        Some r \<Rightarrow> (Inl (Done r), st)
      | None \<Rightarrow>
          (case ax_swagger X req of
             Some r \<Rightarrow> (Inl (Done r), st)
           | None \<Rightarrow>
               (case routed X opts req of
                  None \<Rightarrow> (Inl (Done (ax_not_found X)), st)
                | Some (m, params, path) \<Rightarrow>
                    (case limited_response X opts m req of
                       Some r \<Rightarrow> (Inl (Done r), st)
                     | None \<Rightarrow>
                         (case method_handler X (mt_methods m) (rq_method req) of
                            None \<Rightarrow> (Inl (Done (ax_reply X (rq_method req) method_not_allowed_fallback)), st)
                          | Some h \<Rightarrow>
                              if is_open h
                              then apfst (Inl \<circ> reply X (rq_method req)) (run_handler L X A rd st path req params h)
                              else
                                (case from_request_parts L A (rd_auth_now rd) st path (rq_query req)
                                        (rq_authorization req) of
                                   Inl r \<Rightarrow> (Inl (Done (ax_reply X (rq_method req) r)), st)
                                 | Inr auth \<Rightarrow> (Inr (Extracted params h auth), st)))))))"

definition continue_request ::
  "http_lib \<Rightarrow> axum_ops \<Rightarrow> 'st app_state \<Rightarrow> readings \<Rightarrow> 'st \<Rightarrow> request \<Rightarrow> stage \<Rightarrow>
     (response run + stage) \<times> 'st" where
  "continue_request L X A rd st req sg =
     (let (r, st') =
        (case sg of
           Extracted params h auth \<Rightarrow> after_auth L X A rd st req params h auth
         | Patched auth policy \<Rightarrow> apfst Inl (wrote (update_policy_commit A auth policy st)))
      in (case r of Inl resp \<Rightarrow> Inl (Done (ax_reply X (rq_method req) resp)) | Inr sg' \<Rightarrow> Inr sg', st'))"

text \<open>All pieces of a request one after the other: there are at most three.\<close>

definition resume ::
  "http_lib \<Rightarrow> axum_ops \<Rightarrow> 'st app_state \<Rightarrow> readings \<Rightarrow> request \<Rightarrow> (response run + stage) \<times> 'st \<Rightarrow>
     (response run + stage) \<times> 'st" where
  "resume L X A rd req c =
     (case fst c of Inl r \<Rightarrow> c | Inr sg \<Rightarrow> continue_request L X A rd (snd c) req sg)"

definition whole_request ::
  "http_lib \<Rightarrow> axum_ops \<Rightarrow> 'st app_state \<Rightarrow> router_options \<Rightarrow> readings \<Rightarrow> 'st \<Rightarrow> request \<Rightarrow>
     (response run + stage) \<times> 'st" where
  "whole_request L X A opts rd st req =
     resume L X A rd req (resume L X A rd req (start_request L X A opts rd st req))"

lemma after_auth_handler:
  assumes "\<not> is_open h"
  shows "run_handler L X A rd st path req params h =
    (case from_request_parts L A (rd_auth_now rd) st path (rq_query req) (rq_authorization req) of
       Inl r \<Rightarrow> (Done r, st)
     | Inr auth \<Rightarrow>
         (case after_auth L X A rd st req params h auth of
            (Inl r, st') \<Rightarrow> (Done r, st')
          | (Inr (Patched auth' policy), st') \<Rightarrow> apfst Done (wrote (update_policy_commit A auth' policy st'))
          | (Inr (Extracted params' h' auth'), st') \<Rightarrow> (Panicked, st')))"
  using assms
  by (cases h)
    (auto simp: with_auth_def with_part_def wrote_def update_policy_halves split: sum.splits prod.splits)

lemma after_auth_not_extracted:
  "after_auth L X A rd st req params h auth \<noteq> (Inr (Extracted params' h' auth'), st')"
  by (cases h) (auto simp: with_part_def wrote_def split: sum.splits prod.splits)

lemma resume_handler:
  assumes "\<not> is_open h"
    and "from_request_parts L A (rd_auth_now rd) st path (rq_query req) (rq_authorization req) = Inr auth"
  shows "resume L X A rd req (resume L X A rd req (Inr (Extracted params h auth), st)) =
    apfst (Inl \<circ> reply X (rq_method req)) (run_handler L X A rd st path req params h)"
proof -
  obtain r st1 where a: "after_auth L X A rd st req params h auth = (r, st1)" by fastforce
  show ?thesis
  proof (cases r)
    case (Inl resp)
    then show ?thesis using assms a by (simp add: resume_def continue_request_def after_auth_handler)
  next
    case (Inr sg)
    then obtain auth' policy where "sg = Patched auth' policy" using a after_auth_not_extracted by (cases sg) fast+
    then show ?thesis using assms a Inr
      by (simp add: resume_def continue_request_def after_auth_handler wrote_def split: prod.split)
  qed
qed


section \<open>The interleaved server\<close>

record ('t, 'db) tasks =
  tk_store :: "'db store"
  tk_pending :: "'t \<Rightarrow> (request \<times> readings \<times> stage) option"

text \<open>
  A request arrives, a waiting one makes its next storage call, a client goes away and its
  handler is dropped where it waits, the sweeper visits an index key.
\<close>

datatype 't task_event =
    Arrives 't readings request
  | Continues 't
  | GoesAway 't
  | Sweeps i64 "string + bytes \<times> bytes"

definition settle ::
  "'t \<Rightarrow> request \<Rightarrow> readings \<Rightarrow> (response run + stage) \<times> 'db store \<Rightarrow> ('t, 'db) tasks \<Rightarrow> ('t, 'db) tasks" where
  "settle t req rd out c =
     c\<lparr>tk_store := snd out,
       tk_pending := (tk_pending c)(t := (case fst out of Inl _ \<Rightarrow> None | Inr sg \<Rightarrow> Some (req, rd, sg)))\<rparr>"

fun task_step ::
  "'db store_env \<Rightarrow> http_lib \<Rightarrow> axum_ops \<Rightarrow> 'db store app_state \<Rightarrow> router_options \<Rightarrow>
     't task_event \<Rightarrow> ('t, 'db) tasks \<Rightarrow> ('t, 'db) tasks option" where
  "task_step S L X A opts (Arrives t rd req) c =
     (case tk_pending c t of
        Some _ \<Rightarrow> None
      | None \<Rightarrow> Some (settle t req rd (start_request L X A opts rd (tk_store c) req) c))"
| "task_step S L X A opts (Continues t) c =
     (case tk_pending c t of
        None \<Rightarrow> None
      | Some (req, rd, sg) \<Rightarrow> Some (settle t req rd (continue_request L X A rd (tk_store c) req sg) c))"
| "task_step S L X A opts (GoesAway t) c =
     (case tk_pending c t of None \<Rightarrow> None | Some _ \<Rightarrow> Some (c\<lparr>tk_pending := (tk_pending c)(t := None)\<rparr>))"
| "task_step S L X A opts (Sweeps now_ts g) c =
     (let (flow, stats, st') =
        gc_step S now_ts g \<lparr>expiry_scanned = 0, expiry_removed = 0, keys_removed = 0\<rparr> (tk_store c)
      in Some (c\<lparr>tk_store := st'\<rparr>))"

fun task_event_ok :: "(instant \<Rightarrow> bool) \<Rightarrow> 't task_event \<Rightarrow> bool" where
  "task_event_ok valid (Arrives t rd req) = readings_ok valid rd"
| "task_event_ok valid _ = True"

text \<open>A run, with the stores it went through, the latest first.\<close>

inductive task_run ::
  "'db store_env \<Rightarrow> (instant \<Rightarrow> bool) \<Rightarrow> http_lib \<Rightarrow> axum_ops \<Rightarrow> 'db store app_state \<Rightarrow> router_options \<Rightarrow>
     'db store \<Rightarrow> 'db store list \<Rightarrow> ('t, 'db) tasks \<Rightarrow> bool"
  for S valid L X A opts st0 where
  boot: "task_run S valid L X A opts st0 [st0] \<lparr>tk_store = st0, tk_pending = (\<lambda>_. None)\<rparr>"
| event: "task_run S valid L X A opts st0 hist c \<Longrightarrow> task_event_ok valid ev \<Longrightarrow>
    task_step S L X A opts ev c = Some c' \<Longrightarrow> task_run S valid L X A opts st0 (tk_store c' # hist) c'"

lemma task_step_cases:
  assumes "task_step S L X A opts ev c = Some c'"
  obtains (arrived) t rd req where "ev = Arrives t rd req" and "tk_pending c t = None"
      and "c' = settle t req rd (start_request L X A opts rd (tk_store c) req) c"
    | (continued) t rd req sg where "ev = Continues t" and "tk_pending c t = Some (req, rd, sg)"
      and "c' = settle t req rd (continue_request L X A rd (tk_store c) req sg) c"
    | (gone) t where "ev = GoesAway t" and "c' = c\<lparr>tk_pending := (tk_pending c)(t := None)\<rparr>"
    | (swept) now_ts g flow stats st' where "ev = Sweeps now_ts g"
      and "gc_step S now_ts g \<lparr>expiry_scanned = 0, expiry_removed = 0, keys_removed = 0\<rparr> (tk_store c) = (flow, stats, st')"
      and "c' = c\<lparr>tk_store := st'\<rparr>"
proof (cases ev)
  case (Arrives t rd req)
  then show thesis using assms arrived by (auto split: option.splits)
next
  case (Continues t)
  then show thesis using assms continued by (auto split: option.splits)
next
  case (GoesAway t)
  then show thesis using assms gone by (auto split: option.splits)
next
  case (Sweeps now_ts g)
  then show thesis using assms swept by (auto split: prod.splits)
qed

section \<open>What the pieces do\<close>

lemma after_auth_writes:
  assumes "after_auth L X A rd st req params h auth = (r, st')" and "st' \<noteq> st"
  shows "write_by L A rd st auth st'"
  using assms
  by (cases h)
    (auto elim!: with_part_cases dest!: wrote_eq intro: write_by.intros
      simp: apfst_def map_prod_def split: prod.splits sum.splits)

lemma after_auth_patched:
  assumes "after_auth L X A rd st req params h auth = (Inr sg, st')"
  obtains body policy where "sg = Patched auth policy" and "update_policy_plan L A st auth body = Inr policy" and "st' = st"
proof -
  have "apfst Inl m \<noteq> (Inr sg, st')" for m :: "response \<times> 'a" by (cases m) simp
  then have h: "h = UpdatePolicy" using assms by (cases h) simp_all
  then obtain body where "ax_body X req = Inr body" using assms by (cases "ax_body X req") simp_all
  moreover from this obtain policy where p: "update_policy_plan L A st auth body = Inr policy"
    using assms h by (cases "update_policy_plan L A st auth body") simp_all
  ultimately have "sg = Patched auth policy" and "st' = st" using assms h by simp_all
  then show thesis using p that by blast
qed

lemma start_request_writes:
  assumes "start_request L X A opts rd st req = (r, st')" and "st' \<noteq> st"
  obtains form q where "create_bucket L A (rd_uuid rd) st form = (q, st')"
proof -
  obtain params path h r' where h: "is_open h" "run_handler L X A rd st path req params h = (r', st')"
    using assms
    by (auto simp: start_request_def apfst_def map_prod_def split: option.splits sum.splits prod.splits if_splits)
  then show thesis using that assms(2) by (cases h) (auto split: sum.splits prod.splits run.splits)
qed

lemma start_request_extracted:
  assumes "start_request L X A opts rd st req = (Inr sg, st')"
  obtains m params path h auth where "sg = Extracted params h auth" and "routed X opts req = Some (m, params, path)"
    and "from_request_parts L A (rd_auth_now rd) st path (rq_query req) (rq_authorization req) = Inr auth" and "st' = st"
  using assms
  by (auto simp: start_request_def apfst_def map_prod_def split: option.splits sum.splits prod.splits if_splits)

section \<open>The invariant\<close>

text \<open>
  What is known of a waiting request: its identity was resolved on a store of the past; a
  policy that waits to be written is consistent and belongs to a well-formed bucket.
\<close>

definition pending_ok ::
  "(instant \<Rightarrow> bool) \<Rightarrow> http_lib \<Rightarrow> axum_ops \<Rightarrow> 'st app_state \<Rightarrow> router_options \<Rightarrow> 'st list \<Rightarrow>
     request \<times> readings \<times> stage \<Rightarrow> bool" where
  "pending_ok valid L X A opts hist = (\<lambda>(req, rd, sg). readings_ok valid rd \<and>
     (case sg of
        Extracted params h auth \<Rightarrow> bucket_ok (ba_bucket_id auth)
          \<and> (\<exists>st \<in> set hist. \<exists>m path. routed X opts req = Some (m, params, path)
               \<and> from_request_parts L A (rd_auth_now rd) st path (rq_query req) (rq_authorization req) = Inr auth)
      | Patched auth policy \<Rightarrow> policy_consistent policy \<and> bucket_ok (ba_bucket_id auth)))"

lemma pending_ok_Cons: "pending_ok valid L X A opts hist q \<Longrightarrow> pending_ok valid L X A opts (st # hist) q"
  by (auto simp: pending_ok_def split: stage.splits)

context fjall_backend
begin

abbreviation sound where
  "sound st \<equiv> server_inv st \<and> well_typed C (contents_of st)"

lemma create_sound:
  assumes "fjall_create_bucket S J st b pol = (q, st')" and "policy_consistent pol" and "bucket_ok b" and "sound st"
  shows "sound st'"
  using create_inv [OF assms(1-3)] create_cases [OF assms(1)] assms(4) by (auto intro: well_typed_shrink)

lemma plan_ok:
  assumes "update_policy_plan L A st auth body = Inr p" and "wired S J L A" and "server_inv st"
  shows "policy_consistent p \<and> bucket_ok (ba_bucket_id auth)"
proof -
  have "fjall_get_policy S J st (ba_bucket_id auth) \<noteq> Inr None" and "policy_consistent p"
    and "\<exists>old. fjall_get_policy S J st (ba_bucket_id auth) = Inr (Some old)"
    using assms(1,2) recompute_consistent
    by (auto simp: update_policy_plan_def read_policy_def wired_def split: sum.splits option.splits)
  then show ?thesis using known_bucket_ok assms(3) by blast
qed

lemma start_sound:
  assumes "start_request L X A opts rd st req = (r, st')" and "readings_ok valid rd" and "wired S J L A" and "sound st"
  shows "sound st'"
proof (cases "st' = st")
  case False
  obtain form q where "create_bucket L A (rd_uuid rd) st form = (q, st')" by (rule start_request_writes [OF assms(1) False])
  then obtain pol q' where "policy_consistent pol" "fjall_create_bucket S J st (BucketId (rd_uuid rd)) pol = (q', st')"
    using create_bucket_request assms(3) False unfolding wired_def by blast
  then show ?thesis using create_sound assms(2,4) unfolding readings_ok_def by blast
qed (use assms in simp)

lemma commit_sound:
  assumes "update_policy_commit A auth p st = (r, st')" and "wired S J L A" and "policy_consistent p"
    and "bucket_ok (ba_bucket_id auth)" and "sound st"
  shows "sound st'"
proof -
  obtain q where "fjall_create_bucket S J st (ba_bucket_id auth) p = (q, st')"
    using assms(1,2) by (auto simp: update_policy_commit_def wired_def Let_def split: prod.splits)
  from create_sound [OF this assms(3-5)] show ?thesis .
qed

lemma continue_sound:
  assumes "continue_request L X A rd st req sg = (r, st')" and "pending_ok valid L X A opts hist (req, rd, sg)"
    and "wired S J L A" and "sound st"
  shows "sound st'"
proof (cases sg)
  case (Extracted params h auth)
  then obtain q where "after_auth L X A rd st req params h auth = (q, st')"
    using assms(1) by (auto simp: continue_request_def Let_def split: prod.splits)
  then have "st' \<noteq> st \<Longrightarrow> write_by L A rd st auth st'" by (rule after_auth_writes)
  moreover have "readings_ok valid rd" and "bucket_ok (ba_bucket_id auth)"
    using assms(2) Extracted by (simp_all add: pending_ok_def)
  ultimately show ?thesis using write_by_inv write_by_typed assms(3,4) by blast
next
  case (Patched auth p)
  then obtain q where "update_policy_commit A auth p st = (q, st')"
    using assms(1) by (cases "update_policy_commit A auth p st") (auto simp: continue_request_def wrote_def)
  then show ?thesis using commit_sound assms(2-4) Patched by (simp add: pending_ok_def)
qed

lemma start_pending:
  assumes "start_request L X A opts rd st req = (Inr sg, st')" and "readings_ok valid rd" and "wired S J L A"
    and "sound st" and "st \<in> set hist"
  shows "pending_ok valid L X A opts hist (req, rd, sg)"
proof -
  obtain m params path h auth where sg: "sg = Extracted params h auth" "routed X opts req = Some (m, params, path)"
    and f: "from_request_parts L A (rd_auth_now rd) st path (rq_query req) (rq_authorization req) = Inr auth"
    by (rule start_request_extracted [OF assms(1)])
  have "bucket_ok (ba_bucket_id auth)" using extracted [OF f assms(3)] assms(4) by blast
  then show ?thesis using sg f assms(2,5) by (auto simp: pending_ok_def)
qed

lemma continue_pending:
  assumes "continue_request L X A rd st req sg = (Inr sg', st')" and "pending_ok valid L X A opts hist (req, rd, sg)"
    and "wired S J L A" and "sound st"
  shows "pending_ok valid L X A opts hist (req, rd, sg')"
proof (cases sg)
  case (Extracted params h auth)
  then have "after_auth L X A rd st req params h auth = (Inr sg', st')"
    using assms(1) by (auto simp: continue_request_def Let_def split: prod.splits sum.splits)
  then obtain body p where "sg' = Patched auth p" and "update_policy_plan L A st auth body = Inr p"
    by (rule after_auth_patched)
  then show ?thesis using plan_ok assms(2-4) by (auto simp: pending_ok_def)
next
  case (Patched auth p)
  then show ?thesis using assms(1) by (simp add: continue_request_def wrote_def)
qed

text \<open>Every store a run went through is sound, and what waits is as it should be.\<close>

lemma step_sound:
  assumes "task_step S L X A opts ev c = Some c'" and "task_event_ok valid ev" and "wired S J L A"
    and "reliable (sv_fjall S)" and "sound (tk_store c)"
    and "\<And>t q. tk_pending c t = Some q \<Longrightarrow> pending_ok valid L X A opts hist q"
  shows "sound (tk_store c')"
  using assms(1)
proof (cases rule: task_step_cases)
  case (arrived t rd req)
  then show ?thesis
    using start_sound [OF _ _ assms(3,5), of X opts rd req] assms(2)
    by (cases "start_request L X A opts rd (tk_store c) req") (simp add: settle_def)
next
  case (continued t rd req sg)
  then show ?thesis
    using continue_sound [OF _ assms(6) assms(3,5)]
    by (cases "continue_request L X A rd (tk_store c) req sg") (simp add: settle_def)
next
  case (swept now_ts g flow stats st')
  have "only_expired_dropped C now_ts (contents_of (tk_store c)) (contents_of st')"
    using swept(2) by (rule gc_step_only_expired)
  then have "well_typed C (contents_of st')" and "policies_consistent J (contents_of st')"
    using well_typed_shrink [of C "contents_of (tk_store c)"] meta_keeps_policies assms(5)
    unfolding only_expired_dropped_def by metis+
  then show ?thesis using gc_step_index [OF assms(4) swept(2)] swept(3) assms(5) by simp
qed (use assms(5) in simp)

lemma step_pending:
  assumes "task_step S L X A opts ev c = Some c'" and "task_event_ok valid ev" and "wired S J L A"
    and "sound (tk_store c)" and "tk_store c \<in> set hist"
    and "\<And>t q. tk_pending c t = Some q \<Longrightarrow> pending_ok valid L X A opts hist q"
    and "tk_pending c' t = Some q"
  shows "pending_ok valid L X A opts hist q"
  using assms(1)
proof (cases rule: task_step_cases)
  case (arrived u rd req)
  show ?thesis
  proof (cases "t = u \<and> q \<in> range (\<lambda>sg. (req, rd, sg))")
    case True
    then obtain sg where q: "q = (req, rd, sg)" and "start_request L X A opts rd (tk_store c) req
        = (Inr sg, snd (start_request L X A opts rd (tk_store c) req))"
      using arrived assms(7) by (auto simp: settle_def prod_eq_iff split: sum.splits)
    then show ?thesis using start_pending [OF _ _ assms(3-5)] arrived(1) assms(2) by simp
  next
    case False
    then have "tk_pending c t = Some q" using arrived assms(7) by (auto simp: settle_def split: if_splits sum.splits)
    then show ?thesis by (rule assms(6))
  qed
next
  case (continued u rd req sg)
  show ?thesis
  proof (cases "t = u")
    case True
    then obtain sg' where q: "q = (req, rd, sg')" and "continue_request L X A rd (tk_store c) req sg
        = (Inr sg', snd (continue_request L X A rd (tk_store c) req sg))"
      using continued assms(7) by (auto simp: settle_def prod_eq_iff split: sum.splits)
    then show ?thesis using continue_pending [OF _ assms(6) assms(3,4)] continued(2) by simp
  next
    case False
    then have "tk_pending c t = Some q" using continued assms(7) by (simp add: settle_def)
    then show ?thesis by (rule assms(6))
  qed
next
  case (gone u)
  then have "tk_pending c t = Some q" using assms(7) by (simp split: if_splits)
  then show ?thesis by (rule assms(6))
next
  case (swept now_ts g flow stats st')
  then have "tk_pending c t = Some q" using assms(7) by simp
  then show ?thesis by (rule assms(6))
qed

lemma task_run_sound:
  assumes "task_run S valid L X A opts st0 hist c" and "wired S J L A" and "reliable (sv_fjall S)" and "sound st0"
  shows "(\<forall>st \<in> set hist. sound st) \<and> tk_store c \<in> set hist
    \<and> (\<forall>t q. tk_pending c t = Some q \<longrightarrow> pending_ok valid L X A opts hist q)"
  using assms(1)
proof induction
  case boot
  then show ?case using assms(4) by simp
next
  case (event hist c ev c')
  then have IH: "sound (tk_store c)" "tk_store c \<in> set hist"
    "\<And>t q. tk_pending c t = Some q \<Longrightarrow> pending_ok valid L X A opts hist q" by blast+
  have "sound (tk_store c')" by (rule step_sound [OF event.hyps(3,2) assms(2,3) IH(1,3)])
  moreover have "pending_ok valid L X A opts (tk_store c' # hist) q" if "tk_pending c' t = Some q" for t q
    using step_pending [OF event.hyps(3,2) assms(2) IH that] by (rule pending_ok_Cons)
  ultimately show ?case using event.IH by simp
qed

text \<open>
  An entry that a step changes: the step is the storage call of a request that was authorised
  for the key, or the sweeper dropped the entry because it had expired.
\<close>

lemma step_entries:
  assumes "task_step S L X A opts ev c = Some c'" and "wired S J L A" and "\<forall>st \<in> set hist. sound st"
    and "\<forall>t q. tk_pending c t = Some q \<longrightarrow> pending_ok valid L X A opts hist q" and "bucket_ok b"
    and "entry (tk_store c') b k \<noteq> entry (tk_store c) b k"
  shows "(\<exists>t req rd params h auth m path. \<exists>st \<in> set hist.
      ev = Continues t \<and> tk_pending c t = Some (req, rd, Extracted params h auth)
      \<and> routed X opts req = Some (m, params, path)
      \<and> from_request_parts L A (rd_auth_now rd) st path (rq_query req) (rq_authorization req) = Inr auth
      \<and> ba_bucket_id auth = b \<and> (may p_write auth k \<or> may p_delete auth k))
    \<or> (\<exists>now_ts g raw. ev = Sweeps now_ts g \<and> contents_of (tk_store c) DATA_KEYSPACE (data_storage_key b k) = Some raw
         \<and> expired_at C now_ts raw)"
  using assms(1)
proof (cases rule: task_step_cases)
  case (arrived t rd req)
  let ?st' = "snd (start_request L X A opts rd (tk_store c) req)"
  have "?st' \<noteq> tk_store c" using arrived(3) assms(6) by (auto simp: settle_def)
  with start_request_writes [of L X A opts rd "tk_store c" req _ ?st']
  obtain form q where "create_bucket L A (rd_uuid rd) (tk_store c) form = (q, ?st')" by (metis surjective_pairing)
  then have "entry ?st' b k = entry (tk_store c) b k"
    using create_bucket_request bucket_ops_entries(1) assms(2) unfolding wired_def by metis
  then show ?thesis using arrived(3) assms(6) by (simp add: settle_def)
next
  case (continued t rd req sg)
  let ?st' = "snd (continue_request L X A rd (tk_store c) req sg)"
  have ne: "entry ?st' b k \<noteq> entry (tk_store c) b k" using continued(3) assms(6) by (simp add: settle_def)
  have ok: "pending_ok valid L X A opts hist (req, rd, sg)" using continued(2) assms(4) by blast
  show ?thesis
  proof (cases sg)
    case (Extracted params h auth)
    then have "write_by L A rd (tk_store c) auth ?st'"
      using after_auth_writes [of L X A rd "tk_store c" req params h auth _ ?st'] ne
      by (cases "after_auth L X A rd (tk_store c) req params h auth") (auto simp: continue_request_def)
    moreover obtain st m path where st: "st \<in> set hist" and r: "routed X opts req = Some (m, params, path)"
      and f: "from_request_parts L A (rd_auth_now rd) st path (rq_query req) (rq_authorization req) = Inr auth"
      using ok Extracted by (auto simp: pending_ok_def)
    moreover have "flags_agree (ba_policy_presence auth) (ba_anonymous_access auth)" "bucket_ok (ba_bucket_id auth)"
      using extracted [OF f assms(2)] assms(3) st by blast+
    ultimately have "ba_bucket_id auth = b" and "may p_write auth k \<or> may p_delete auth k"
      using write_by_entries [OF _ assms(2) _ assms(5) ne] gates_decide by blast+
    then show ?thesis using continued(1,2) Extracted st r f by blast
  next
    case (Patched auth p)
    then obtain q where "fjall_create_bucket S J (tk_store c) (ba_bucket_id auth) p = (q, ?st')"
      using assms(2)
      by (cases "fjall_create_bucket S J (tk_store c) (ba_bucket_id auth) p")
        (auto simp: continue_request_def wrote_def update_policy_commit_def wired_def)
    then show ?thesis using bucket_ops_entries(1) ne by blast
  qed
next
  case (gone t)
  then show ?thesis using assms(6) by simp
next
  case (swept now_ts g flow stats st')
  then have "contents_of st' DATA_KEYSPACE (data_storage_key b k) \<noteq> contents_of (tk_store c) DATA_KEYSPACE (data_storage_key b k)"
    using assms(6) by (auto simp: abs_entry_def)
  then show ?thesis using gc_step_only_expired [OF swept(2)] swept(1) unfolding only_expired_dropped_def by metis
qed

end

text \<open>
  A run of the demonstration server: a bucket is created, an anonymous put arrives and is
  authorised, and then makes its storage call.
\<close>

lemma demo_task_run:
  obtains c c' :: "(nat, mem_db) tasks" and hist where
    "task_run mem_env time_valid demo_lib demo_axum demo_app default_router_options mem_store hist c"
    and "task_step mem_env demo_lib demo_axum demo_app default_router_options (Continues 0) c = Some c'"
    and "tk_store c \<noteq> mem_store"
    and "abs_entry wire_codec (mem_view (st_db (tk_store c))) (BucketId (bs ''b1'')) demo_key = None"
    and "abs_entry wire_codec (mem_view (st_db (tk_store c'))) (BucketId (bs ''b1'')) demo_key \<noteq> None"
proof -
  obtain r st p where c: "create_bucket demo_lib demo_app (bs ''b1'') mem_store demo_form = (Done (Inr r), st)"
    and p: "fjall_get_policy mem_env wire_policy st (BucketId (bs ''b1'')) = Inr (Some p)" "write_key_hash p = None"
      "policy_consistent p" "default_ttl_secs p = Some 604800"
    and e: "abs_entry wire_codec (mem_view (st_db st)) (BucketId (bs ''b1'')) demo_key = None"
    and st: "st_poisoned st = (\<lambda>_. False)" "st \<noteq> mem_store" by (rule demo_created)
  let ?run = "task_run mem_env time_valid demo_lib demo_axum demo_app default_router_options mem_store"
  let ?step = "task_step mem_env demo_lib demo_axum demo_app default_router_options"
  let ?post = "demo_request POST ''/api/v1/'' []" and ?put = "demo_request PUT ''/api/v1/b1/n'' ''hi''"
  define c0 :: "(nat, mem_db) tasks" where "c0 = \<lparr>tk_store = mem_store, tk_pending = (\<lambda>_. None)\<rparr>"
  define c1 where "c1 = c0\<lparr>tk_store := st\<rparr>"
  define sg where "sg = Extracted [bs ''b1'', bs ''n''] PutKey (anonymous_auth p)"
  define c2 where "c2 = c1\<lparr>tk_pending := (tk_pending c1)(0 := Some (?put, demo_readings, sg))\<rparr>"
  have "start_request demo_lib demo_axum demo_app default_router_options demo_readings mem_store ?post = (Inl (Done r), st)"
    using c demo_route_create
    by (simp add: start_request_def limited_response_def demo_dispatch demo_request_def demo_readings_def)
  then have "?step (Arrives 0 demo_readings ?post) c0 = Some c1" by (simp add: c0_def c1_def settle_def)
  from task_run.event [OF task_run.boot _ this [unfolded c0_def]] demo_readings_ok
  have r1: "?run [st, mem_store] c1" by (simp add: c1_def c0_def)
  have "start_request demo_lib demo_axum demo_app default_router_options demo_readings st ?put = (Inr sg, st)"
    using demo_anonymous [OF p(1)] demo_route_key
    by (simp add: start_request_def limited_response_def demo_dispatch demo_request_def demo_readings_def sg_def
        anonymous_auth_def)
  then have "?step (Arrives 0 demo_readings ?put) c1 = Some c2" by (simp add: c2_def c1_def c0_def settle_def)
  from task_run.event [OF r1 _ this] demo_readings_ok have r2: "?run [st, st, mem_store] c2"
    by (simp add: c2_def c1_def)
  obtain st' where put: "put_key demo_lib demo_app 500000000 st (anonymous_auth p) (bs ''n'') None None (bs ''hi'')
      = (Inr (bytes_response 200 (bs ''text/plain; charset=utf-8'') (bs ''hi'')), st')"
    and e': "abs_entry wire_codec (mem_view (st_db st')) (BucketId (bs ''b1'')) demo_key \<noteq> None"
    by (rule demo_anonymous_put [OF p(2-) st(1)])
  have "snd (continue_request demo_lib demo_axum demo_app demo_readings st ?put sg) = st'"
    using put by (simp add: continue_request_def sg_def demo_request_def demo_readings_def with_part_def wrote_def)
  then have "\<exists>c3. ?step (Continues 0) c2 = Some c3 \<and> tk_store c3 = st'" by (simp add: c2_def c1_def settle_def)
  then show thesis using that [OF r2] st(2) e e' by (auto simp: c2_def c1_def)
qed

section \<open>Properties\<close>

text \<open>
  C4. The invariant does not depend on requests being atomic: whatever requests arrive, make
  their storage calls in any interleaving, are dropped half-way, and whatever the sweeper does
  in between, the expiry index is complete and every stored policy has anonymous flags that agree
  with its keys, from the empty database on.
\<close>

theorem interleaved_invariant:
  assumes "fjall_backend S view valid J" and "wired S J L A" and "reliable (sv_fjall S)"
    and "view (st_db st0) = (\<lambda>_ _. None)" and "task_run S valid L X A opts st0 hist c"
  shows "index_inv (sv_codec S) (view (st_db (tk_store c))) \<and> policies_consistent J (view (st_db (tk_store c)))"
proof -
  have "well_typed (sv_codec S) (view (st_db st0))" using assms(4) by (simp add: well_typed_def)
  then show ?thesis
    using fjall_backend.task_run_sound [OF assms(1,5,2,3)] fjall_backend.empty_inv [OF assms(1,4)] by blast
qed

theorem interleaved_invariant_witness:
  "\<exists>(c :: (nat, mem_db) tasks) hist.
     task_run mem_env time_valid demo_lib demo_axum demo_app default_router_options mem_store hist c
     \<and> tk_store c \<noteq> mem_store \<and> policies_consistent wire_policy (mem_view (st_db (tk_store c)))"
proof -
  obtain c :: "(nat, mem_db) tasks" and hist where
    r: "task_run mem_env time_valid demo_lib demo_axum demo_app default_router_options mem_store hist c"
    and "tk_store c \<noteq> mem_store" by (rule demo_task_run)
  with interleaved_invariant [OF mem_backend.fjall_backend_axioms demo_wired mem_reliable mem_store_empty r]
  show ?thesis by blast
qed

text \<open>
  C8. Stored data is well typed under every interleaving: every record of the data keyspace lies
  under a bucket and a key within the limits and decodes to an entry with a value within the
  limits, so reading a key never fails on a record and gives exactly the stored entry.
\<close>

theorem interleaved_data_well_typed:
  assumes "fjall_backend S view valid J" and "wired S J L A" and "reliable (sv_fjall S)"
    and "view (st_db st0) = (\<lambda>_ _. None)" and "task_run S valid L X A opts st0 hist c"
  shows "well_typed (sv_codec S) (view (st_db (tk_store c)))
    \<and> fjall_get S (tk_store c) b k = Inr (abs_entry (sv_codec S) (view (st_db (tk_store c))) b k)"
proof -
  have "well_typed (sv_codec S) (view (st_db st0))" using assms(4) by (simp add: well_typed_def)
  then have t: "well_typed (sv_codec S) (view (st_db (tk_store c)))"
    using fjall_backend.task_run_sound [OF assms(1,5,2,3)] fjall_backend.empty_inv [OF assms(1,4)] by blast
  have fs: "fjall_store S view valid" using assms(1) by (simp add: fjall_backend_def)
  obtain r where "fj_get (sv_fjall S) (st_db (tk_store c)) DATA_KEYSPACE (data_storage_key b k) = Inr r"
    using assms(3) unfolding reliable_def by blast
  from t fjall_store.well_typed_get [OF fs t this] show ?thesis by blast
qed

theorem interleaved_data_well_typed_witness:
  "\<exists>(c :: (nat, mem_db) tasks) hist.
     task_run mem_env time_valid demo_lib demo_axum demo_app default_router_options mem_store hist c
     \<and> tk_store c \<noteq> mem_store \<and> well_typed wire_codec (mem_view (st_db (tk_store c)))"
proof -
  obtain c :: "(nat, mem_db) tasks" and hist where
    r: "task_run mem_env time_valid demo_lib demo_axum demo_app default_router_options mem_store hist c"
    and "tk_store c \<noteq> mem_store" by (rule demo_task_run)
  with interleaved_data_well_typed [OF mem_backend.fjall_backend_axioms demo_wired mem_reliable mem_store_empty r]
  show ?thesis by auto
qed

text \<open>
  C6. Requests change only what their caller was allowed to change, under every interleaving: if
  a step of the server alters an entry, then it is the storage call of a waiting request whose
  identity was resolved, on a store of the past, for the bucket of the entry and with the right
  to write or delete its key; or the sweeper dropped an expired entry.
\<close>

theorem interleaved_changes_are_authorised:
  assumes "fjall_backend S view valid J" and "wired S J L A" and "reliable (sv_fjall S)"
    and "view (st_db st0) = (\<lambda>_ _. None)" and "task_run S valid L X A opts st0 hist c"
    and "task_step S L X A opts ev c = Some c'" and "bucket_ok b"
    and "abs_entry (sv_codec S) (view (st_db (tk_store c'))) b k \<noteq> abs_entry (sv_codec S) (view (st_db (tk_store c))) b k"
  shows "(\<exists>t req rd params h auth m path. \<exists>st \<in> set hist.
      ev = Continues t \<and> tk_pending c t = Some (req, rd, Extracted params h auth)
      \<and> routed X opts req = Some (m, params, path)
      \<and> from_request_parts L A (rd_auth_now rd) st path (rq_query req) (rq_authorization req) = Inr auth
      \<and> ba_bucket_id auth = b \<and> (may p_write auth k \<or> may p_delete auth k))
    \<or> (\<exists>now_ts g raw. ev = Sweeps now_ts g
         \<and> view (st_db (tk_store c)) DATA_KEYSPACE (data_storage_key b k) = Some raw \<and> expired_at (sv_codec S) now_ts raw)"
proof -
  have "well_typed (sv_codec S) (view (st_db st0))" using assms(4) by (simp add: well_typed_def)
  then have "(\<forall>st \<in> set hist. (index_inv (sv_codec S) (view (st_db st)) \<and> policies_consistent J (view (st_db st)))
      \<and> well_typed (sv_codec S) (view (st_db st)))
    \<and> (\<forall>t q. tk_pending c t = Some q \<longrightarrow> pending_ok valid L X A opts hist q)"
    using fjall_backend.task_run_sound [OF assms(1,5,2,3)] fjall_backend.empty_inv [OF assms(1,4)] by blast
  then show ?thesis
    using fjall_backend.step_entries [OF assms(1,6,2) _ _ assms(7,8)] by blast
qed

theorem interleaved_changes_are_authorised_witness:
  "\<exists>(c :: (nat, mem_db) tasks) hist t auth.
     task_run mem_env time_valid demo_lib demo_axum demo_app default_router_options mem_store hist c
     \<and> (\<exists>req rd params h. tk_pending c t = Some (req, rd, Extracted params h auth))
     \<and> ba_bucket_id auth = BucketId (bs ''b1'') \<and> (may p_write auth demo_key \<or> may p_delete auth demo_key)"
proof -
  obtain c c' :: "(nat, mem_db) tasks" and hist where
    r: "task_run mem_env time_valid demo_lib demo_axum demo_app default_router_options mem_store hist c"
    and s: "task_step mem_env demo_lib demo_axum demo_app default_router_options (Continues 0) c = Some c'"
    and e: "abs_entry wire_codec (mem_view (st_db (tk_store c))) (BucketId (bs ''b1'')) demo_key = None"
      "abs_entry wire_codec (mem_view (st_db (tk_store c'))) (BucketId (bs ''b1'')) demo_key \<noteq> None"
    by (rule demo_task_run)
  have b: "bucket_ok (BucketId (bs ''b1''))" by code_simp
  have "abs_entry (sv_codec mem_env) (mem_view (st_db (tk_store c'))) (BucketId (bs ''b1'')) demo_key
      \<noteq> abs_entry (sv_codec mem_env) (mem_view (st_db (tk_store c))) (BucketId (bs ''b1'')) demo_key" using e by simp
  from interleaved_changes_are_authorised [OF mem_backend.fjall_backend_axioms demo_wired mem_reliable mem_store_empty r s b this]
  obtain req rd params h auth where "tk_pending c 0 = Some (req, rd, Extracted params h auth)"
    "ba_bucket_id auth = BucketId (bs ''b1'')" "may p_write auth demo_key \<or> may p_delete auth demo_key" by blast
  then show ?thesis using r by blast
qed

end
