(* ===== verification/Micro.thy ===== *)
theory Micro
  imports Gc
begin

text \<open>
  The operations of \<open>FjallStore\<close> and the sweeper's visit of one index key, cut at their
  database calls.  \<open>prepare\<close> is what an operation does before it takes its locks,
  \<open>micro\<close> what it does up to and including its next database call while it holds them, and
  \<open>run_alone\<close> composes the two without interruption.  \<open>run_alone\<close> is shown to be the
  operation as \<open>Store\<close> and \<open>Gc\<close> define it, so the interleavings of these steps are the
  interleavings of the code.
\<close>

section \<open>Jobs\<close>

datatype job =
    JGet bucket_id key
  | JSet bucket_id key stored_value "instant option"
  | JDelete bucket_id key
  | JIncrement instant bucket_id key counter_op "instant option"
  | JBatch bucket_id "txn_op list"
  | JSweep i64 "string + bytes \<times> bytes"

datatype outcome =
    OEntry "use_case_error + stored_entry option"
  | OUnit "use_case_error + unit"
  | OBool "use_case_error + bool"
  | OValue "use_case_error + stored_value"
  | OSwept gc_flow

text \<open>The result of a job that ends with an error; the sweeper goes on to its next index key.\<close>

fun err_outcome :: "job \<Rightarrow> use_case_error \<Rightarrow> outcome" where
  "err_outcome (JGet _ _) e = OEntry (Inl e)"
| "err_outcome (JSet _ _ _ _) e = OUnit (Inl e)"
| "err_outcome (JDelete _ _) e = OBool (Inl e)"
| "err_outcome (JIncrement _ _ _ _ _) e = OValue (Inl e)"
| "err_outcome (JBatch _ _) e = OUnit (Inl e)"
| "err_outcome (JSweep _ _) e = OSwept Continue"

text \<open>Where the sweeper goes for an index key: the key's parts, unless it skips it or stops.\<close>

definition sweep_target ::
  "i64 \<Rightarrow> string + bytes \<times> bytes \<Rightarrow> gc_flow + bytes \<times> i64 \<times> bytes" where
  "sweep_target now_ts guard =
     (case guard of
        Inl _ \<Rightarrow> Inl Continue
      | Inr (expiry_key, _) \<Rightarrow>
          (case parse_expiry_index_key expiry_key of
             None \<Rightarrow> Inl Continue
           | Some (expires_unix, storage_key) \<Rightarrow>
               if sint now_ts < sint expires_unix then Inl Break
               else Inr (expiry_key, expires_unix, storage_key)))"

text \<open>Before the locks: the result when the job ends here, or the storage keys to lock.\<close>

fun prepare :: "'db store_env \<Rightarrow> job \<Rightarrow> outcome + bytes list" where
  "prepare S (JGet b k) = Inr []"
| "prepare S (JSet b k v ex) = Inr [data_storage_key b k]"
| "prepare S (JDelete b k) = Inr [data_storage_key b k]"
| "prepare S (JIncrement now b k op ex) = Inr [data_storage_key b k]"
| "prepare S (JBatch b ops) =
     (if ops = [] then Inl (OUnit (Inr ()))
      else (case batch_items S b ops of
              Inl e \<Rightarrow> Inl (OUnit (Inl e))
            | Inr items \<Rightarrow> Inr (map item_key items)))"
| "prepare S (JSweep now_ts guard) =
     (case sweep_target now_ts guard of
        Inl flow \<Rightarrow> Inl (OSwept flow)
      | Inr (_, _, storage_key) \<Rightarrow> Inr [storage_key])"

section \<open>One database call at a time\<close>

text \<open>
  How far a job has come: \<open>HasRead\<close> is an increment that knows the stored bytes, \<open>Exists\<close> a
  delete that found its key, \<open>IndexGone\<close> a sweep that removed the index key and \<open>Doomed\<close> one
  that has verified the entry.
\<close>

datatype progress = Fresh | HasRead "bytes option" | Exists | IndexGone | Doomed

definition write_step ::
  "'db store_env \<Rightarrow> bytes \<Rightarrow> stored_value \<Rightarrow> instant option \<Rightarrow> 'db store \<Rightarrow>
     (use_case_error + unit) \<times> 'db store" where
  "write_step S sk v ex st =
     (case uc (encode_entry (sv_codec S) v ex) of
        Inl e \<Rightarrow> (Inl e, st)
      | Inr raw \<Rightarrow> put_entry S st sk raw ex)"

definition increment_value ::
  "'db store_env \<Rightarrow> instant \<Rightarrow> counter_op \<Rightarrow> bytes option \<Rightarrow> use_case_error + stored_value" where
  "increment_value S now op cur =
     (case current_value S now cur of
        Inl e \<Rightarrow> Inl e
      | Inr current \<Rightarrow>
          (case CounterOp_apply op current of
             Inl e \<Rightarrow> Inl (DomainErr e)
           | Inr merged \<Rightarrow>
               (case CounterValue_into_stored merged of
                  Inl e \<Rightarrow> Inl (DomainErr e)
                | Inr stored \<Rightarrow> Inr stored)))"

definition increment_step ::
  "'db store_env \<Rightarrow> bytes \<Rightarrow> instant \<Rightarrow> counter_op \<Rightarrow> instant option \<Rightarrow> bytes option \<Rightarrow> 'db store \<Rightarrow>
     (use_case_error + stored_value) \<times> 'db store" where
  "increment_step S sk now op ex cur st =
     (case increment_value S now op cur of
        Inl e \<Rightarrow> (Inl e, st)
      | Inr stored \<Rightarrow>
          (let (r, st') = write_step S sk stored ex st
           in (case r of Inl e \<Rightarrow> Inl e | Inr _ \<Rightarrow> Inr stored, st')))"

definition remove_step ::
  "'db store_env \<Rightarrow> string \<Rightarrow> bytes \<Rightarrow> 'db store \<Rightarrow> (use_case_error + unit) \<times> 'db store" where
  "remove_step S ks k st =
     (let (r, db) = fj_remove (sv_fjall S) (st_db st) ks k in (fj r, st\<lparr>st_db := db\<rparr>))"

text \<open>The sweeper's checks between reading an entry and removing it.\<close>

definition still_expired :: "'db store_env \<Rightarrow> i64 \<Rightarrow> i64 \<Rightarrow> string + bytes option \<Rightarrow> bool" where
  "still_expired S now_ts expires_unix stored =
     (case stored of
        Inr (Some v) \<Rightarrow>
          (case decode_entry_expires_unix (sv_codec S) v of
             Inr (Some actual_unix) \<Rightarrow> \<not> sint now_ts < sint actual_unix \<and> actual_unix = expires_unix
           | _ \<Rightarrow> False)
      | _ \<Rightarrow> False)"

fun micro ::
  "'db store_env \<Rightarrow> job \<Rightarrow> progress \<Rightarrow> 'db store \<Rightarrow> (progress + outcome) \<times> 'db store" where
  "micro S (JGet b k) p st = (Inr (OEntry (fjall_get S st b k)), st)"
| "micro S (JSet b k v ex) p st =
     (let (r, st') = write_step S (data_storage_key b k) v ex st in (Inr (OUnit r), st'))"
| "micro S (JDelete b k) p st =
     (case p of
        Exists \<Rightarrow>
          (let (r, st') = remove_step S DATA_KEYSPACE (data_storage_key b k) st
           in (Inr (OBool (case r of Inl e \<Rightarrow> Inl e | Inr _ \<Rightarrow> Inr True)), st'))
      | _ \<Rightarrow>
          (case fj (fj_contains_key (sv_fjall S) (st_db st) DATA_KEYSPACE (data_storage_key b k)) of
             Inl e \<Rightarrow> (Inr (OBool (Inl e)), st)
           | Inr existed \<Rightarrow> (if existed then Inl Exists else Inr (OBool (Inr existed)), st)))"
| "micro S (JIncrement now b k op ex) p st =
     (case p of
        HasRead cur \<Rightarrow>
          (let (r, st') = increment_step S (data_storage_key b k) now op ex cur st
           in (Inr (OValue r), st'))
      | _ \<Rightarrow>
          (case fj (fj_get (sv_fjall S) (st_db st) DATA_KEYSPACE (data_storage_key b k)) of
             Inl e \<Rightarrow> (Inr (OValue (Inl e)), st)
           | Inr cur \<Rightarrow> (Inl (HasRead cur), st)))"
| "micro S (JBatch b ops) p st =
     (case batch_items S b ops of
        Inl e \<Rightarrow> (Inr (OUnit (Inl e)), st)
      | Inr items \<Rightarrow>
          (let (r, db) = fj_commit (sv_fjall S) (st_db st) (concat (map item_ops items))
           in (Inr (OUnit (fj r)), st\<lparr>st_db := db\<rparr>)))"
| "micro S (JSweep now_ts guard) p st =
     (case sweep_target now_ts guard of
        Inl flow \<Rightarrow> (Inr (OSwept flow), st)
      | Inr (expiry_key, expires_unix, storage_key) \<Rightarrow>
          (case p of
             IndexGone \<Rightarrow>
               (if still_expired S now_ts expires_unix (fj_get (sv_fjall S) (st_db st) DATA_KEYSPACE storage_key)
                then Inl Doomed else Inr (OSwept Continue), st)
           | Doomed \<Rightarrow>
               (let (r, st') = remove_step S DATA_KEYSPACE storage_key st in (Inr (OSwept Continue), st'))
           | _ \<Rightarrow>
               (let (r, st') = remove_step S EXPIRY_KEYSPACE expiry_key st
                in (case r of Inl _ \<Rightarrow> Inr (OSwept Continue) | Inr _ \<Rightarrow> Inl IndexGone, st'))))"

text \<open>A job makes at most three database calls.\<close>

fun calls_left :: "job \<Rightarrow> progress \<Rightarrow> nat" where
  "calls_left (JGet _ _) _ = 1"
| "calls_left (JSet _ _ _ _) _ = 1"
| "calls_left (JDelete _ _) p = (if p = Exists then 1 else 2)"
| "calls_left (JIncrement _ _ _ _ _) p = (if \<exists>cur. p = HasRead cur then 1 else 2)"
| "calls_left (JBatch _ _) _ = 1"
| "calls_left (JSweep _ _) p = (if p = Doomed then 1 else if p = IndexGone then 2 else 3)"

lemma micro_calls_left: "micro S j p st = (Inl p', st') \<Longrightarrow> calls_left j p' < calls_left j p"
  by (cases j; cases p) (auto simp: Let_def split: prod.splits sum.splits if_splits)

lemma calls_left_pos: "0 < calls_left j p"
  by (cases j) auto

function run_micro :: "'db store_env \<Rightarrow> job \<Rightarrow> progress \<Rightarrow> 'db store \<Rightarrow> outcome \<times> 'db store" where
  "run_micro S j p st =
     (case micro S j p st of
        (Inr out, st') \<Rightarrow> (out, st')
      | (Inl p', st') \<Rightarrow> run_micro S j p' st')"
  by pat_completeness auto

termination run_micro
  by (relation "measure (\<lambda>(S, j, p, st). calls_left j p)") (auto dest: sym [THEN micro_calls_left])

declare run_micro.simps [simp del]

definition run_alone :: "'db store_env \<Rightarrow> job \<Rightarrow> 'db store \<Rightarrow> outcome \<times> 'db store" where
  "run_alone S j st =
     (case prepare S j of
        Inl out \<Rightarrow> (out, st)
      | Inr ks \<Rightarrow>
          (case uc (lock_stripes_for_keys (sv_hash S) (st_poisoned st) ks) of
             Inl e \<Rightarrow> (err_outcome j e, st)
           | Inr _ \<Rightarrow> run_micro S j Fresh st))"

text \<open>The operation a job stands for.\<close>

fun operation :: "'db store_env \<Rightarrow> job \<Rightarrow> 'db store \<Rightarrow> outcome \<times> 'db store" where
  "operation S (JGet b k) st = (OEntry (fjall_get S st b k), st)"
| "operation S (JSet b k v ex) st = apfst OUnit (fjall_set S st b k v ex)"
| "operation S (JDelete b k) st = apfst OBool (fjall_delete S st b k)"
| "operation S (JIncrement now b k op ex) st = apfst OValue (fjall_increment S st now b k op ex)"
| "operation S (JBatch b ops) st = apfst OUnit (fjall_apply_batch S st b ops)"
| "operation S (JSweep now_ts guard) st =
     (let (flow, stats, st') =
        gc_step S now_ts guard \<lparr>expiry_scanned = 0, expiry_removed = 0, keys_removed = 0\<rparr> st
      in (OSwept flow, st'))"

section \<open>Uninterrupted, the steps are the operation\<close>

lemma uc_of_Inl: "uc (Inl e) = Inl (use_case_of_fjall e)"
  by (simp add: uc_def)

lemma lock_one:
  "uc (lock_stripes_for_keys hash poisoned [sk]) =
     (case uc (lock_for hash poisoned sk) of Inl e \<Rightarrow> Inl e | Inr i \<Rightarrow> Inr [i])"
  by (simp add: lock_stripes_for_keys_eq lock_for_def stripes_of_def Let_def uc_def)

lemma alone_set: "run_alone S (JSet b k v ex) st = operation S (JSet b k v ex) st"
  by (simp add: run_alone_def lock_one fjall_set_def Let_def run_micro.simps write_step_def
      split: sum.split prod.split)

lemma alone_delete: "run_alone S (JDelete b k) st = operation S (JDelete b k) st"
  by (simp add: run_alone_def lock_one fjall_delete_def Let_def run_micro.simps remove_step_def
      split: sum.split prod.split)

lemma alone_increment: "run_alone S (JIncrement now b k op ex) st = operation S (JIncrement now b k op ex) st"
  by (simp add: run_alone_def lock_one fjall_increment_def Let_def run_micro.simps write_step_def
      increment_step_def increment_value_def split: sum.split prod.split)

lemma alone_batch: "run_alone S (JBatch b ops) st = operation S (JBatch b ops) st"
  by (simp add: run_alone_def fjall_apply_batch_def Let_def run_micro.simps
      split: sum.split prod.split)

lemma drop_entry_run:
  "snd (gc_drop_entry S now_ts ts sk stats st) =
     (if still_expired S now_ts ts (fj_get (sv_fjall S) (st_db st) DATA_KEYSPACE sk)
      then snd (remove_step S DATA_KEYSPACE sk st) else st)"
  by (auto simp: gc_drop_entry_def still_expired_def remove_step_def split: sum.split option.split prod.split)

lemma run_sweep:
  assumes "sweep_target now_ts guard = Inr (u, ts, sk)"
  shows "run_micro S (JSweep now_ts guard) Fresh st =
    (case fj_remove (sv_fjall S) (st_db st) EXPIRY_KEYSPACE u of
       (Inl e, db) \<Rightarrow> (OSwept Continue, st\<lparr>st_db := db\<rparr>)
     | (Inr _, db) \<Rightarrow> (OSwept Continue, snd (gc_drop_entry S now_ts ts sk stats (st\<lparr>st_db := db\<rparr>))))"
  using assms
  by (simp add: run_micro.simps drop_entry_run remove_step_def Let_def fj_def split: sum.split prod.split)

lemma sweep_target_step:
  "gc_step S now_ts guard stats st =
     (let stats = stats\<lparr>expiry_scanned := expiry_scanned stats + 1\<rparr> in
      case sweep_target now_ts guard of
        Inl flow \<Rightarrow> (flow, stats, st)
      | Inr (u, ts, sk) \<Rightarrow>
          (case lock_for (sv_hash S) (st_poisoned st) sk of
             Inl e \<Rightarrow> (Continue, stats, st)
           | Inr _ \<Rightarrow>
               (case fj_remove (sv_fjall S) (st_db st) EXPIRY_KEYSPACE u of
                  (Inl e, db) \<Rightarrow> (Continue, stats, st\<lparr>st_db := db\<rparr>)
                | (Inr _, db) \<Rightarrow>
                    (Continue, gc_drop_entry S now_ts ts sk
                       (stats\<lparr>expiry_removed := expiry_removed stats + 1\<rparr>) (st\<lparr>st_db := db\<rparr>)))))"
  by (auto simp: gc_step_def sweep_target_def Let_def split: sum.split option.split prod.split)

lemma alone_sweep: "run_alone S (JSweep now_ts guard) st = operation S (JSweep now_ts guard) st"
proof (cases "sweep_target now_ts guard")
  case (Inl flow)
  then show ?thesis by (simp add: run_alone_def sweep_target_step Let_def)
next
  case (Inr target)
  then obtain u ts sk where t: "sweep_target now_ts guard = Inr (u, ts, sk)" by (cases target) auto
  show ?thesis
  proof (cases "lock_for (sv_hash S) (st_poisoned st) sk")
    case (Inl e)
    then show ?thesis using t by (simp add: run_alone_def sweep_target_step lock_one uc_of_Inl Let_def)
  next
    case (Inr i)
    then show ?thesis
      using t run_sweep [OF t, of S st "\<lparr>expiry_scanned = 1, expiry_removed = 1, keys_removed = 0\<rparr>"]
      by (simp add: run_alone_def sweep_target_step lock_one Let_def split: sum.split prod.split)
  qed
qed

lemma alone_get: "run_alone S (JGet b k) st = operation S (JGet b k) st"
  by (simp add: run_alone_def lock_stripes_for_keys_eq run_micro.simps)


end
