(* ===== verification/Atomic.thy ===== *)
theory Atomic
  imports Micro
begin

text \<open>
  The specification concurrent clients rely on: each job of \<open>Micro\<close> as one atomic change of
  the map from bucket and key to entry, \<open>atomic j out E E'\<close>.  A job that ends in a storage
  error has had its effect or not, never a part of it.  The lemmas relate the single
  database calls to it: a call that does not end the job leaves the entries alone and
  records what it saw, and, if what was seen still holds, the call that ends the job is the
  atomic change.  They also say which storage keys a job can touch at all.
\<close>

section \<open>Atomic jobs\<close>

type_synonym entries = "bucket_id \<Rightarrow> key \<Rightarrow> stored_entry option"

definition put :: "bucket_id \<Rightarrow> key \<Rightarrow> stored_entry option \<Rightarrow> entries \<Rightarrow> entries" where
  "put b k en E = E(b := (E b)(k := en))"

fun atomic :: "job \<Rightarrow> outcome \<Rightarrow> entries \<Rightarrow> entries \<Rightarrow> bool" where
  "atomic (JGet b k) (OEntry r) E E' \<longleftrightarrow> E' = E \<and> (\<forall>en. r = Inr en \<longrightarrow> en = E b k)"
| "atomic (JSet b k v ex) (OUnit r) E E' \<longleftrightarrow>
     E' = put b k (Some (truncated_entry v ex)) E \<or> E' = E \<and> (\<exists>e. r = Inl e)"
| "atomic (JDelete b k) (OBool r) E E' \<longleftrightarrow>
     (E' = put b k None E \<or> E' = E \<and> (\<exists>e. r = Inl e)) \<and> (r = Inr False \<longrightarrow> E b k = None)"
| "atomic (JIncrement now b k op ex) (OValue r) E E' \<longleftrightarrow>
     (case r of
        Inr v \<Rightarrow> incremented now op (E b k) = Inr v \<and> E' = put b k (Some (truncated_entry v ex)) E
      | Inl (DomainErr d) \<Rightarrow> incremented now op (E b k) = Inl d \<and> E' = E
      | Inl _ \<Rightarrow> E' = E \<or>
          (\<exists>v. incremented now op (E b k) = Inr v \<and> E' = put b k (Some (truncated_entry v ex)) E))"
| "atomic (JBatch b ops) (OUnit r) E E' \<longleftrightarrow>
     E' = E(b := txn_effects ops (E b)) \<or> E' = E \<and> (\<exists>e. r = Inl e)"
| "atomic (JSweep now_ts guard) (OSwept flow) E E' \<longleftrightarrow>
     E' = E \<or> (\<exists>b k en ex. E b k = Some en \<and> se_expires_at en = Some ex \<and> ex \<le> sint now_ts * nanos
                  \<and> E' = put b k None E)"
| "atomic _ _ _ _ \<longleftrightarrow> False"

text \<open>What the callers of the adapter guarantee of their arguments.\<close>

fun job_ok :: "(instant \<Rightarrow> bool) \<Rightarrow> job \<Rightarrow> bool" where
  "job_ok valid (JGet b k) \<longleftrightarrow> bucket_ok b"
| "job_ok valid (JSet b k v ex) \<longleftrightarrow> bucket_ok b \<and> value_ok v \<and> pred_option valid ex"
| "job_ok valid (JDelete b k) \<longleftrightarrow> bucket_ok b"
| "job_ok valid (JIncrement now b k op ex) \<longleftrightarrow> bucket_ok b \<and> counter_op_ok op \<and> pred_option valid ex"
| "job_ok valid (JBatch b ops) \<longleftrightarrow> bucket_ok b \<and> list_all (txn_op_ok valid) ops"
| "job_ok valid (JSweep now_ts guard) \<longleftrightarrow> True"

text \<open>The entries of a database; other buckets do not exist.\<close>

definition entries_of :: "codec_ops \<Rightarrow> contents \<Rightarrow> entries" where
  "entries_of C c b k = (if bucket_ok b then abs_entry C c b k else None)"

text \<open>What a job has seen so far, as a fact about the database.\<close>

fun seen :: "codec_ops \<Rightarrow> contents \<Rightarrow> job \<Rightarrow> progress \<Rightarrow> bool" where
  "seen C c (JIncrement now b k op ex) (HasRead cur) \<longleftrightarrow> c DATA_KEYSPACE (data_storage_key b k) = cur"
| "seen C c (JDelete b k) Exists \<longleftrightarrow> c DATA_KEYSPACE (data_storage_key b k) \<noteq> None"
| "seen C c (JSweep now_ts guard) Doomed \<longleftrightarrow>
     (\<exists>u ts sk v. sweep_target now_ts guard = Inr (u, ts, sk) \<and> c DATA_KEYSPACE sk = Some v
        \<and> has_expiry C v ts \<and> sint ts \<le> sint now_ts)"
| "seen C c j p \<longleftrightarrow> True"

lemma seen_Fresh [simp]: "seen C c j Fresh"
  by (cases j) simp_all

lemma seen_local:
  assumes "seen C c j p" and "prepare S j = Inr ks"
    and "\<And>sk. sk \<in> set ks \<Longrightarrow> c' DATA_KEYSPACE sk = c DATA_KEYSPACE sk"
  shows "seen C c' j p"
  using assms by (cases "(C, c, j, p)" rule: seen.cases) auto

lemma prepare_target: "prepare S (JSweep now_ts g) = Inr ks \<Longrightarrow> \<exists>u ts sk. sweep_target now_ts g = Inr (u, ts, sk) \<and> ks = [sk]"
  by (auto split: sum.splits)

lemma still_expired_has_expiry:
  "still_expired S now_ts ts (Inr r) \<longleftrightarrow>
     (\<exists>v. r = Some v \<and> has_expiry (sv_codec S) v ts \<and> sint ts \<le> sint now_ts)"
  by (auto simp: still_expired_def has_expiry_def not_less split: option.splits sum.splits)

lemma atomic_err [simp]: "prepare S j = Inr ks \<Longrightarrow> atomic j (err_outcome j (Storage m)) E E"
  by (cases j) simp_all

section \<open>The entries under the database's writes\<close>

lemma entries_of_local:
  "(\<And>sk. c' DATA_KEYSPACE sk = c DATA_KEYSPACE sk) \<Longrightarrow> entries_of C c' = entries_of C c"
  by (simp add: entries_of_def abs_entry_def fun_eq_iff)

lemma entries_of_write:
  "bucket_ok b \<Longrightarrow> entries_of C (apply_bops (write_ops C (data_storage_key b k) raw ex) c) =
     put b k (decoded C (Some raw)) (entries_of C c)"
  by (auto simp: entries_of_def put_def abs_entry_write fun_eq_iff)

lemma entries_of_remove:
  "bucket_ok b \<Longrightarrow> entries_of C (apply_bop (BRemove DATA_KEYSPACE (data_storage_key b k)) c) =
     put b k None (entries_of C c)"
  by (auto simp: entries_of_def put_def abs_entry_remove fun_eq_iff simp del: apply_bop.simps)

text \<open>Removing a storage key drops at most one entry.\<close>

lemma entries_of_drop:
  obtains (same) "entries_of C (apply_bop (BRemove DATA_KEYSPACE sk) c) = entries_of C c"
  | (dropped) b k en where "bucket_ok b" and "sk = data_storage_key b k" and "entries_of C c b k = Some en"
      and "entries_of C (apply_bop (BRemove DATA_KEYSPACE sk) c) = put b k None (entries_of C c)"
proof (cases "\<exists>b k en. bucket_ok b \<and> sk = data_storage_key b k \<and> entries_of C c b k = Some en")
  case True
  then show thesis using dropped entries_of_remove by blast
next
  case False
  have "entries_of C (apply_bop (BRemove DATA_KEYSPACE sk) c) b k = entries_of C c b k" for b k
    using False by (fastforce simp: entries_of_def abs_entry_def decoded_def)
  then show thesis using same by blast
qed

section \<open>One call of a job\<close>

lemma write_step_poisoned [simp]: "st_poisoned (snd (write_step S sk v ex st)) = st_poisoned st"
  by (auto simp: write_step_def put_entry_def Let_def split: sum.split option.split prod.split)

lemma remove_step_poisoned [simp]: "st_poisoned (snd (remove_step S ks k st)) = st_poisoned st"
  by (simp add: remove_step_def split: prod.split)

lemma micro_poisoned: "st_poisoned (snd (micro S j p st)) = st_poisoned st"
proof -
  have "st_poisoned st' = st_poisoned st" if "write_step S sk v ex st = (r, st')" for r sk v ex st'
    using that write_step_poisoned [of S sk v ex st] by simp
  moreover have "st_poisoned st' = st_poisoned st" if "remove_step S ks k st = (r, st')" for r ks k st'
    using that remove_step_poisoned [of S ks k st] by simp
  ultimately show ?thesis
    by (cases j) (simp_all add: increment_step_def Let_def split: prod.split sum.split progress.split)
qed

context fjall_store
begin

abbreviation ents where "ents st \<equiv> entries_of C (contents_of st)"

lemma write_step_cases:
  assumes "write_step S sk v ex st = (r, st')"
  obtains (same) e where "contents_of st' = contents_of st" and "r = Inl (Storage e)"
    | (written) raw where "encode_entry C v ex = Inr raw"
        and "contents_of st' = apply_bops (write_ops C sk raw ex) (contents_of st)"
        and "r = Inr () \<or> (\<exists>e. r = Inl (Storage e))"
proof (cases "uc (encode_entry C v ex)")
  case (Inl e)
  then show thesis using assms same uc_Inl [OF Inl] by (auto simp: write_step_def)
next
  case (Inr raw)
  then have put: "put_entry S st sk raw ex = (r, st')" using assms by (simp add: write_step_def)
  have "r = Inr () \<or> (\<exists>e. r = Inl (Storage e))"
    using put by (cases r) (auto simp: put_entry_def Let_def dest: fj_Inl split: option.splits prod.splits)
  then show thesis
    using put_entry_contents(1) [OF put] Inr same written by auto
qed

lemma write_step_atomic:
  assumes "write_step S (data_storage_key b k) v ex st = (r, st')"
    and "bucket_ok b" and "value_ok v" and "pred_option valid ex"
  shows "ents st' = put b k (Some (truncated_entry v ex)) (ents st) \<or> ents st' = ents st \<and> (\<exists>e. r = Inl e)"
  using assms(1)
proof (cases rule: write_step_cases)
  case (written raw)
  then show ?thesis using decoded_write [OF written(1) assms(3,4)] entries_of_write [OF assms(2)] by simp
qed simp

lemma write_step_frame:
  assumes "write_step S sk v ex st = (r, st')" and "sk' \<noteq> sk"
  shows "contents_of st' DATA_KEYSPACE sk' = contents_of st DATA_KEYSPACE sk'"
  using assms(1) by (cases rule: write_step_cases) (simp_all add: assms(2))

lemma remove_step_cases:
  assumes "remove_step S ks k st = (r, st')"
  shows "contents_of st' = contents_of st \<and> (\<exists>e. r = Inl e)
    \<or> contents_of st' = apply_bop (BRemove ks k) (contents_of st)"
proof -
  obtain q where "fj_remove (sv_fjall S) (st_db st) ks k = (q, st_db st')" "r = fj q"
    using assms by (auto simp: remove_step_def split: prod.splits)
  then show ?thesis using db.remove_cases by (fastforce simp: fj_def)
qed

lemma remove_step_frame:
  assumes "remove_step S ks k st = (r, st')" and "ks \<noteq> DATA_KEYSPACE \<or> sk \<noteq> k"
  shows "contents_of st' DATA_KEYSPACE sk = contents_of st DATA_KEYSPACE sk"
  using remove_step_cases [OF assms(1)] assms(2) by auto

lemma increment_value_spec:
  "increment_value S now op cur = Inr v \<Longrightarrow> incremented now op (decoded C cur) = Inr v"
  "increment_value S now op cur = Inl (DomainErr d) \<Longrightarrow> incremented now op (decoded C cur) = Inl d"
  using current_value_base [of S now cur] current_value_domain [of S now cur]
  by (auto simp: increment_value_def incremented_def split: sum.splits)

lemma batch_commit_frame:
  assumes "batch_items S b ops = Inr its" and "sk \<notin> set (map item_key its)"
  shows "apply_bops (concat (map item_ops its)) c DATA_KEYSPACE sk = c DATA_KEYSPACE sk"
  using assms
proof (induction its arbitrary: ops c)
  case (Cons it its)
  then obtain op ops' where "batch_items S b ops' = Inr its"
    by (cases ops) (auto split: sum.splits)
  moreover have "apply_bops (item_ops it) c DATA_KEYSPACE sk = c DATA_KEYSPACE sk"
    using Cons.prems(2) by (cases it) (auto split: option.splits)
  ultimately show ?case using Cons by (simp add: apply_bops_append)
qed simp

text \<open>A call writes data only under the storage keys the job has locked.\<close>

lemma micro_frame:
  assumes "micro S j p st = (q, st')" and "prepare S j = Inr ks" and "sk \<notin> set ks"
  shows "contents_of st' DATA_KEYSPACE sk = contents_of st DATA_KEYSPACE sk"
proof (cases j)
  case (JSet b k v ex)
  then show ?thesis using assms write_step_frame by (auto split: prod.splits)
next
  case (JDelete b k)
  then show ?thesis using assms remove_step_frame [of DATA_KEYSPACE] 
    by (auto simp: Let_def split: prod.splits progress.splits sum.splits)
next
  case (JIncrement now b k op ex)
  then show ?thesis using assms write_step_frame
    by (auto simp: increment_step_def Let_def split: prod.splits progress.splits sum.splits)
next
  case (JBatch b ops)
  then obtain its where its: "batch_items S b ops = Inr its" "ks = map item_key its"
    using assms(2) by (auto split: if_splits sum.splits)
  then obtain r where "fj_commit (sv_fjall S) (st_db st) (concat (map item_ops its)) = (r, st_db st')"
    using assms(1) JBatch by (auto simp: Let_def split: prod.splits)
  from db.commit_cases [OF this] show ?thesis
    using batch_commit_frame [OF its(1)] its(2) assms(3) by auto
next
  case (JSweep now_ts g)
  then obtain u ts sk0 where "sweep_target now_ts g = Inr (u, ts, sk0)" and "ks = [sk0]"
    using prepare_target assms(2) by blast
  then show ?thesis
    using JSweep assms(1,3) remove_step_frame [of EXPIRY_KEYSPACE] remove_step_frame [of DATA_KEYSPACE]
    by (cases p) (auto simp: Let_def split: prod.splits if_splits)
qed (use assms in auto)

text \<open>A call that does not end the job leaves the entries alone and records what it saw.\<close>

lemma micro_continues:
  assumes "micro S j p st = (Inl p', st')" and "prepare S j = Inr ks"
  shows "seen C (contents_of st') j p'" and "ents st' = ents st"
proof -
  have "seen C (contents_of st') j p' \<and> (\<forall>sk. contents_of st' DATA_KEYSPACE sk = contents_of st DATA_KEYSPACE sk)"
  proof (cases j)
    case (JDelete b k)
    then show ?thesis using assms(1) db.contains_Inr
      by (auto simp: Let_def split: prod.splits progress.splits sum.splits if_splits)
  next
    case (JIncrement now b k op ex)
    then show ?thesis using assms(1) db.get_Inr
      by (auto simp: Let_def split: prod.splits progress.splits sum.splits)
  next
    case (JBatch b ops)
    then show ?thesis using assms(1) by (simp add: Let_def split: sum.splits prod.splits)
  next
    case (JSweep now_ts g)
    then obtain u ts sk where t: "sweep_target now_ts g = Inr (u, ts, sk)"
      using prepare_target assms(2) by blast
    show ?thesis
    proof (cases "p = IndexGone")
      case True
      then have "still_expired S now_ts ts (fj_get (sv_fjall S) (st_db st) DATA_KEYSPACE sk)"
        and "p' = Doomed" and "st' = st"
        using assms(1) JSweep t by (auto split: if_splits)
      moreover from this obtain r where "fj_get (sv_fjall S) (st_db st) DATA_KEYSPACE sk = Inr r"
        by (auto simp: still_expired_def split: sum.splits)
      ultimately show ?thesis
        using db.get_Inr JSweep t by (auto simp: still_expired_has_expiry)
    next
      case False
      then obtain r where "remove_step S EXPIRY_KEYSPACE u st = (r, st')" and "p' = IndexGone"
        using assms(1) JSweep t by (cases p) (auto simp: Let_def split: prod.splits sum.splits)
      then show ?thesis using remove_step_frame [of EXPIRY_KEYSPACE] JSweep by simp
    qed
  qed (use assms(1) in \<open>auto split: prod.splits\<close>)
  then show "seen C (contents_of st') j p'" and "ents st' = ents st"
    using entries_of_local [of "contents_of st'" "contents_of st" C] by blast+
qed

lemma expired_entry:
  assumes "c DATA_KEYSPACE (data_storage_key b k) = Some v" and "has_expiry C v ts"
    and "entries_of C c b k = Some en"
  shows "se_expires_at en = Some (sint ts * nanos)"
  using assms tm.from_unix_Inr
  by (auto simp: entries_of_def abs_entry_def decoded_def has_expiry_def decode_entry_def
      decode_entry_expires_unix_def expires_at_from_unix_def split: if_splits sum.splits option.splits)

text \<open>The call that ends a job is its atomic change, if what the job saw still holds.\<close>

lemma ends_set:
  assumes "micro S (JSet b k v ex) p st = (Inr out, st')" and "job_ok valid (JSet b k v ex)"
  shows "atomic (JSet b k v ex) out (ents st) (ents st')"
  using assms write_step_atomic by (auto simp: Let_def split: prod.splits)

lemma ends_delete:
  assumes "micro S (JDelete b k) p st = (Inr out, st')" and "job_ok valid (JDelete b k)"
    and "seen C (contents_of st) (JDelete b k) p"
  shows "atomic (JDelete b k) out (ents st) (ents st')"
proof (cases "p = Exists")
  case True
  then obtain r where rm: "remove_step S DATA_KEYSPACE (data_storage_key b k) st = (r, st')"
    and out: "out = OBool (case r of Inl e \<Rightarrow> Inl e | Inr _ \<Rightarrow> Inr True)"
    using assms(1) by (auto simp: Let_def split: prod.splits)
  from remove_step_cases [OF rm] show ?thesis
    using entries_of_remove [of b] assms(2) out
    by (auto simp del: apply_bop.simps split: sum.splits)
next
  case False
  then consider e where "out = OBool (Inl e)" "st' = st"
    | "out = OBool (Inr False)" "st' = st" "contents_of st DATA_KEYSPACE (data_storage_key b k) = None"
    using assms(1) by (cases p) (auto dest: db.contains_Inr split: sum.splits if_splits)
  then show ?thesis
  proof cases
    case 2
    then have "ents st b k = None" by (simp add: entries_of_def abs_entry_def decoded_def)
    then show ?thesis using 2 by (auto simp: put_def fun_eq_iff)
  qed simp
qed

lemma ends_increment:
  assumes "micro S (JIncrement now b k op ex) p st = (Inr out, st')"
    and "job_ok valid (JIncrement now b k op ex)"
    and "seen C (contents_of st) (JIncrement now b k op ex) p"
  shows "atomic (JIncrement now b k op ex) out (ents st) (ents st')"
proof (cases "\<exists>cur. p = HasRead cur")
  case True
  then obtain cur r where p: "p = HasRead cur" and out: "out = OValue r"
    and step: "increment_step S (data_storage_key b k) now op ex cur st = (r, st')"
    using assms(1) by (auto simp: Let_def split: prod.splits)
  have en: "ents st b k = decoded C cur"
    using assms(2,3) p by (auto simp: entries_of_def abs_entry_def)
  show ?thesis
  proof (cases "increment_value S now op cur")
    case (Inl e)
    then have "r = Inl e" and "st' = st" using step by (simp_all add: increment_step_def)
    then show ?thesis
      using out en increment_value_spec(2) [of now op cur] Inl by (auto split: use_case_error.splits)
  next
    case (Inr v)
    then have inc: "incremented now op (ents st b k) = Inr v" using increment_value_spec(1) en by simp
    obtain q where w: "write_step S (data_storage_key b k) v ex st = (q, st')"
      and r: "r = (case q of Inl e \<Rightarrow> Inl e | Inr _ \<Rightarrow> Inr v)"
      using step Inr by (auto simp: increment_step_def Let_def split: prod.splits)
    have ok: "bucket_ok b" "value_ok v" "pred_option valid ex"
      using assms(2) incremented_ok [OF inc] by auto
    have "q = Inr () \<or> (\<exists>e. q = Inl (Storage e))" using w by (cases rule: write_step_cases) auto
    then show ?thesis using write_step_atomic [OF w ok] inc r out by auto
  qed
next
  case False
  then obtain e where "out = OValue (Inl (Storage e))" and "st' = st"
    using assms(1) fj_Inl by (cases p) (auto split: sum.splits)
  then show ?thesis by simp
qed

lemma ends_batch:
  assumes "micro S (JBatch b ops) p st = (Inr out, st')" and "job_ok valid (JBatch b ops)"
  shows "atomic (JBatch b ops) out (ents st) (ents st')"
proof (cases "batch_items S b ops")
  case (Inl e)
  then show ?thesis using assms(1) by auto
next
  case (Inr its)
  then obtain r where r: "fj_commit (sv_fjall S) (st_db st) (concat (map item_ops its)) = (r, st_db st')"
    and out: "out = OUnit (fj r)"
    using assms(1) by (auto simp: Let_def split: prod.splits)
  have ok: "bucket_ok b" "list_all (txn_op_ok valid) ops" using assms(2) by auto
  have "entries_of C (apply_bops (concat (map item_ops its)) c) = (entries_of C c)(b := txn_effects ops (entries_of C c b))" for c
  proof (rule ext)
    fix b'
    have b: "entries_of C c b = abs_entry C c b" by (simp add: entries_of_def ok(1) fun_eq_iff)
    show "entries_of C (apply_bops (concat (map item_ops its)) c) b' =
        ((entries_of C c)(b := txn_effects ops (entries_of C c b))) b'"
      using batch_items_contents [OF Inr ok(2,1), of b' c] ok(1) unfolding b
      by (cases "bucket_ok b'") (auto simp: entries_of_def fun_eq_iff)
  qed
  then show ?thesis using db.commit_cases [OF r] out by (auto simp: fj_def)
qed

lemma ends_sweep:
  assumes "micro S (JSweep now_ts g) p st = (Inr out, st')" and "seen C (contents_of st) (JSweep now_ts g) p"
  shows "atomic (JSweep now_ts g) out (ents st) (ents st')"
proof (cases "sweep_target now_ts g")
  case (Inl flow)
  then show ?thesis using assms(1) by auto
next
  case (Inr target)
  then obtain u ts sk where t: "sweep_target now_ts g = Inr (u, ts, sk)" by (cases target) auto
  show ?thesis
  proof (cases "p = Doomed")
    case True
    then obtain v where v: "contents_of st DATA_KEYSPACE sk = Some v" "has_expiry C v ts" "sint ts \<le> sint now_ts"
      using assms(2) t by auto
    obtain r where rm: "remove_step S DATA_KEYSPACE sk st = (r, st')" and out: "out = OSwept Continue"
      using assms(1) t True by (auto simp: Let_def split: prod.splits)
    show ?thesis
    proof (cases rule: entries_of_drop [of C sk "contents_of st"])
      case same
      then show ?thesis using remove_step_cases [OF rm] out by auto
    next
      case (dropped b k en)
      have "se_expires_at en = Some (sint ts * nanos)"
        using expired_entry [of "contents_of st" b k v ts en] v dropped(2,3) by simp
      moreover have "sint ts * nanos \<le> sint now_ts * nanos" using v(3) by (simp add: mult_right_mono)
      moreover have "ents st' = ents st \<or> ents st' = put b k None (ents st)"
        using remove_step_cases [OF rm] dropped(4) by metis
      ultimately show ?thesis unfolding out atomic.simps using dropped(3) by blast
    qed
  next
    case False
    have frame: "ents st'' = ents st" if "remove_step S EXPIRY_KEYSPACE u st = (r, st'')" for r st''
      by (rule entries_of_local) (simp add: remove_step_frame [OF that])
    then show ?thesis
      using assms(1) t False
      by (cases p) (auto simp: Let_def split: prod.splits sum.splits if_splits)
  qed
qed

lemma micro_ends:
  assumes "micro S j p st = (Inr out, st')" and "job_ok valid j" and "seen C (contents_of st) j p"
  shows "atomic j out (ents st) (ents st')"
proof (cases j)
  case (JGet b k)
  then show ?thesis using assms(1,2) get_entry by (auto simp: entries_of_def)
next
  case JSet
  then show ?thesis using assms(1,2) ends_set by simp
next
  case JDelete
  then show ?thesis using assms ends_delete by simp
next
  case JIncrement
  then show ?thesis using assms ends_increment by simp
next
  case JBatch
  then show ?thesis using assms(1,2) ends_batch by simp
next
  case JSweep
  then show ?thesis using assms(1,3) ends_sweep by simp
qed

text \<open>A job that ends before its locks has no effect.\<close>

lemma prepare_ends:
  assumes "prepare S j = Inl out"
  shows "atomic j out E E"
proof (cases j)
  case (JBatch b ops)
  then show ?thesis using assms by (auto split: if_splits sum.splits)
next
  case (JSweep now_ts g)
  then show ?thesis using assms by (auto split: sum.splits)
qed (use assms in auto)

end

end
