(* ===== verification/Concurrent.thy ===== *)
theory Concurrent
  imports Atomic
begin

text \<open>
  Many threads on one \<open>FjallStore\<close>: request handlers and the sweeper run their jobs at the
  same time, interleaved at every lock acquisition and every database call.  A state has
  the stripe locks of \<open>Locks\<close>, each thread's phase and the shared store; \<open>invoke\<close> starts a
  job, \<open>advance\<close> is the next step of a thread, undefined while another thread holds the
  stripe it needs.  The runs emit an event when a job is called, when it takes effect and when
  it returns.  Shown here: every run is linearisable with respect to the atomic jobs of
  \<open>Atomic\<close>, concurrent increments add up, and once no new job is called the running ones all
  return.
\<close>

section \<open>The system\<close>

datatype phase = Idle | Busy job progress | Ended job outcome

datatype 't event = Call 't job | Effect 't job outcome | Return 't job outcome

record ('t, 'db) conc =
  locks :: "'t lock_state"
  phases :: "'t \<Rightarrow> phase"
  cstore :: "'db store"

definition conc_init :: "'db store \<Rightarrow> ('t, 'db) conc" where
  "conc_init st = \<lparr>locks = lock_init, phases = (\<lambda>_. Idle), cstore = st\<rparr>"

definition set_phase :: "'t \<Rightarrow> phase \<Rightarrow> ('t, 'db) conc \<Rightarrow> ('t, 'db) conc" where
  "set_phase t ph c = c\<lparr>phases := (phases c)(t := ph)\<rparr>"

definition set_want :: "'t \<Rightarrow> nat list \<Rightarrow> 't lock_state \<Rightarrow> 't lock_state" where
  "set_want t ws L = L\<lparr>want := (want L)(t := ws)\<rparr>"

definition set_held :: "'t \<Rightarrow> nat set \<Rightarrow> 't lock_state \<Rightarrow> 't lock_state" where
  "set_held t hs L = L\<lparr>held := (held L)(t := hs)\<rparr>"

text \<open>The start of a job: up to the list of its stripes, or to its end when it needs none.\<close>

definition invoke ::
  "'db store_env \<Rightarrow> 't \<Rightarrow> job \<Rightarrow> ('t, 'db) conc \<Rightarrow> 't event list \<times> ('t, 'db) conc" where
  "invoke S t j c =
     (case prepare S j of
        Inl out \<Rightarrow> ([Call t j, Effect t j out], set_phase t (Ended j out) c)
      | Inr ks \<Rightarrow>
          ([Call t j],
           set_phase t (Busy j Fresh) (c\<lparr>locks := set_want t (stripes_of (sv_hash S) ks) (locks c)\<rparr>)))"

text \<open>
  The next step of a thread: take the next stripe (a poisoned one ends the job), make the next
  database call, or return, which drops all guards.
\<close>

definition advance ::
  "'db store_env \<Rightarrow> 't \<Rightarrow> ('t, 'db) conc \<Rightarrow> ('t event list \<times> ('t, 'db) conc) option" where
  "advance S t c =
     (case phases c t of
        Idle \<Rightarrow> None
      | Busy j p \<Rightarrow>
          (case want (locks c) t of
             i # rest \<Rightarrow>
               if \<exists>u. i \<in> held (locks c) u then None
               else if st_poisoned (cstore c) i then
                 (let out = err_outcome j (use_case_of_fjall (AdapterE ''write lock poisoned'')) in
                  Some ([Effect t j out],
                    set_phase t (Ended j out) (c\<lparr>locks := set_want t [] (locks c)\<rparr>)))
               else
                 Some ([], c\<lparr>locks := set_want t rest (set_held t (insert i (held (locks c) t)) (locks c))\<rparr>)
           | [] \<Rightarrow>
               (case micro S j p (cstore c) of
                  (Inl p', st') \<Rightarrow> Some ([], set_phase t (Busy j p') (c\<lparr>cstore := st'\<rparr>))
                | (Inr out, st') \<Rightarrow>
                    Some ([Effect t j out], set_phase t (Ended j out) (c\<lparr>cstore := st'\<rparr>))))
      | Ended j out \<Rightarrow>
          Some ([Return t j out], set_phase t Idle (c\<lparr>locks := set_held t {} (locks c)\<rparr>)))"

inductive cstep ::
  "'db store_env \<Rightarrow> (instant \<Rightarrow> bool) \<Rightarrow> ('t, 'db) conc \<Rightarrow> 't event list \<Rightarrow> ('t, 'db) conc \<Rightarrow> bool"
  for S valid where
  call: "phases c t = Idle \<Longrightarrow> job_ok valid j \<Longrightarrow> invoke S t j c = (evs, c') \<Longrightarrow> cstep S valid c evs c'"
| move: "advance S t c = Some (evs, c') \<Longrightarrow> cstep S valid c evs c'"

inductive cruns ::
  "'db store_env \<Rightarrow> (instant \<Rightarrow> bool) \<Rightarrow> ('t, 'db) conc \<Rightarrow> 't event list \<Rightarrow> ('t, 'db) conc \<Rightarrow> bool"
  for S valid c0 where
  start: "cruns S valid c0 [] c0"
| next_step: "cruns S valid c0 tr c \<Longrightarrow> cstep S valid c evs c' \<Longrightarrow> cruns S valid c0 (tr @ evs) c'"

section \<open>Histories\<close>

text \<open>The jobs of a history in the order in which they take effect.\<close>

fun effects :: "'t event list \<Rightarrow> (job \<times> outcome) list" where
  "effects [] = []"
| "effects (Effect t j out # tr) = (j, out) # effects tr"
| "effects (_ # tr) = effects tr"

fun atomics :: "(job \<times> outcome) list \<Rightarrow> entries \<Rightarrow> entries \<Rightarrow> bool" where
  "atomics [] E E' \<longleftrightarrow> E' = E"
| "atomics ((j, out) # xs) E E' \<longleftrightarrow> (\<exists>F. atomic j out E F \<and> atomics xs F E')"

text \<open>
  A thread's part of a history: calls, effects and returns of one job after another, each
  return with the outcome of the effect.
\<close>

datatype status = Out | Called job | Effected job outcome

fun track :: "'t \<Rightarrow> 't event \<Rightarrow> status option \<Rightarrow> status option" where
  "track t (Call u j) s = (if u \<noteq> t then s else if s = Some Out then Some (Called j) else None)"
| "track t (Effect u j out) s =
     (if u \<noteq> t then s else if s = Some (Called j) then Some (Effected j out) else None)"
| "track t (Return u j out) s =
     (if u \<noteq> t then s else if s = Some (Effected j out) then Some Out else None)"

definition history_ok :: "'t \<Rightarrow> 't event list \<Rightarrow> bool" where
  "history_ok t tr \<longleftrightarrow> fold (track t) tr (Some Out) \<noteq> None"

fun status_of :: "phase \<Rightarrow> status" where
  "status_of Idle = Out"
| "status_of (Busy j p) = Called j"
| "status_of (Ended j out) = Effected j out"

lemma effects_append [simp]: "effects (a @ b) = effects a @ effects b"
  by (induction a rule: effects.induct) simp_all

lemma atomics_append: "atomics (a @ b) E E' \<longleftrightarrow> (\<exists>F. atomics a E F \<and> atomics b F E')"
  by (induction a arbitrary: E) (auto, blast+)

section \<open>The invariant\<close>

definition thread_inv ::
  "'db store_env \<Rightarrow> (instant \<Rightarrow> bool) \<Rightarrow> contents \<Rightarrow> 't lock_state \<Rightarrow> 't \<Rightarrow> phase \<Rightarrow> bool" where
  "thread_inv S valid c L t ph \<longleftrightarrow>
     (case ph of
        Idle \<Rightarrow> held L t = {} \<and> want L t = []
      | Busy j p \<Rightarrow> job_ok valid j \<and> seen (sv_codec S) c j p \<and> (want L t \<noteq> [] \<longrightarrow> p = Fresh)
          \<and> (\<exists>ks. prepare S j = Inr ks \<and> held L t \<union> set (want L t) = stripe_index (sv_hash S) ` set ks)
      | Ended j out \<Rightarrow> want L t = [])"

definition conc_inv ::
  "'db store_env \<Rightarrow> ('db \<Rightarrow> contents) \<Rightarrow> (instant \<Rightarrow> bool) \<Rightarrow> ('t, 'db) conc \<Rightarrow> bool" where
  "conc_inv S view valid c \<longleftrightarrow>
     lock_inv (locks c)
     \<and> (\<forall>t. thread_inv S valid (view (st_db (cstore c))) (locks c) t (phases c t))"

lemma conc_simps [simp]:
  "phases (set_phase t ph c) = (phases c)(t := ph)" "locks (set_phase t ph c) = locks c"
  "cstore (set_phase t ph c) = cstore c"
  "held (set_want t ws L) = held L" "want (set_want t ws L) = (want L)(t := ws)"
  "held (set_held t hs L) = (held L)(t := hs)" "want (set_held t hs L) = want L"
  by (simp_all add: set_phase_def set_want_def set_held_def)

lemma conc_inv_init: "conc_inv S view valid (conc_init st)"
  by (simp add: conc_inv_def conc_init_def thread_inv_def lock_inv_init) (simp add: lock_init_def)

lemma conc_inv_idle:
  assumes "conc_inv S view valid c" and "phases c t = Idle"
  shows "held (locks c) t = {} \<and> want (locks c) t = []"
proof -
  have "thread_inv S valid (view (st_db (cstore c))) (locks c) t Idle"
    using assms unfolding conc_inv_def by metis
  then show ?thesis by (simp add: thread_inv_def)
qed

text \<open>The steps of the system are steps of the locks.\<close>

lemma lock_inv_begin:
  "lock_inv L \<Longrightarrow> held L t = {} \<Longrightarrow> want L t = [] \<Longrightarrow> lock_inv (set_want t (stripes_of h ks) L)"
  unfolding set_want_def by (rule lock_step_inv [OF lock_step.begin_op])

lemma lock_inv_acquire:
  assumes "lock_inv L" and "want L t = i # rest" and "\<not> (\<exists>u. i \<in> held L u)"
  shows "lock_inv (set_want t rest (set_held t (insert i (held L t)) L))"
  using lock_step_inv [OF lock_step.acquire [of L t i rest] assms(1)] assms(2,3)
  by (simp add: set_held_def set_want_def)

lemma lock_inv_release: "lock_inv L \<Longrightarrow> lock_inv (set_held t {} L)"
  by (auto simp: lock_inv_def)

lemma lock_inv_abandon: "lock_inv L \<Longrightarrow> lock_inv (set_want t [] L)"
  by (auto simp: lock_inv_def)

lemma lock_inv_disjoint: "lock_inv L \<Longrightarrow> t \<noteq> u \<Longrightarrow> held L t \<inter> held L u = {}"
  by (auto simp: lock_inv_def)

lemma thread_inv_locks:
  "held L' u = held L u \<Longrightarrow> want L' u = want L u \<Longrightarrow> thread_inv S valid c L' u ph = thread_inv S valid c L u ph"
  by (simp add: thread_inv_def cong: phase.case_cong)

lemma conc_inv_update:
  assumes "conc_inv S view valid c" and "lock_inv (locks c')"
    and "thread_inv S valid (view (st_db (cstore c'))) (locks c') t (phases c' t)"
    and "\<And>u. u \<noteq> t \<Longrightarrow> phases c' u = phases c u \<and> held (locks c') u = held (locks c) u
           \<and> want (locks c') u = want (locks c) u"
    and "cstore c' = cstore c"
  shows "conc_inv S view valid c'"
  unfolding conc_inv_def
proof (intro conjI allI)
  fix u
  show "thread_inv S valid (view (st_db (cstore c'))) (locks c') u (phases c' u)"
    using assms(1,3-) thread_inv_locks [of "locks c'" u "locks c"] unfolding conc_inv_def by metis
qed (rule assms(2))

lemma invoke_inv:
  assumes "conc_inv S view valid c" and "phases c t = Idle" and "job_ok valid j"
    and "invoke S t j c = (evs, c')"
  shows "conc_inv S view valid c'"
proof -
  have idle: "held (locks c) t = {}" "want (locks c) t = []" and "lock_inv (locks c)"
    using conc_inv_idle [OF assms(1,2)] assms(1) by (simp_all add: conc_inv_def)
  then show ?thesis
  proof (cases "prepare S j")
    case (Inl out)
    then show ?thesis
      using conc_inv_update [OF assms(1), of c' t] assms(4) idle \<open>lock_inv _\<close>
      by (auto simp: invoke_def thread_inv_def)
  next
    case (Inr ks)
    then show ?thesis
      using conc_inv_update [OF assms(1), of c' t] assms(3,4) idle lock_inv_begin [OF \<open>lock_inv _\<close> idle]
      by (auto simp: invoke_def thread_inv_def set_stripes_of)
  qed
qed

lemma advance_cases:
  assumes "advance S t c = Some (evs, c')"
  obtains (acquired) j p i rest where "phases c t = Busy j p" and "want (locks c) t = i # rest"
      and "\<not> (\<exists>u. i \<in> held (locks c) u)" and "evs = []"
      and "c' = c\<lparr>locks := set_want t rest (set_held t (insert i (held (locks c) t)) (locks c))\<rparr>"
    | (refused) j p i rest out where "phases c t = Busy j p" and "want (locks c) t = i # rest"
      and "out = err_outcome j (use_case_of_fjall (AdapterE ''write lock poisoned''))"
      and "evs = [Effect t j out]"
      and "c' = set_phase t (Ended j out) (c\<lparr>locks := set_want t [] (locks c)\<rparr>)"
    | (called) j p p' st' where "phases c t = Busy j p" and "want (locks c) t = []"
      and "micro S j p (cstore c) = (Inl p', st')" and "evs = []"
      and "c' = set_phase t (Busy j p') (c\<lparr>cstore := st'\<rparr>)"
    | (ended) j p out st' where "phases c t = Busy j p" and "want (locks c) t = []"
      and "micro S j p (cstore c) = (Inr out, st')" and "evs = [Effect t j out]"
      and "c' = set_phase t (Ended j out) (c\<lparr>cstore := st'\<rparr>)"
    | (returned) j out where "phases c t = Ended j out" and "evs = [Return t j out]"
      and "c' = set_phase t Idle (c\<lparr>locks := set_held t {} (locks c)\<rparr>)"
  using assms
  by (auto simp: advance_def Let_def split: phase.splits list.splits if_splits prod.splits sum.splits)

context fjall_store
begin

text \<open>
  A call of one thread cannot invalidate what another has seen: their stripes are disjoint.
\<close>

lemma call_spares_others:
  assumes "conc_inv S view valid c" and "phases c t = Busy j p" and "want (locks c) t = []"
    and "micro S j p (cstore c) = (q, st')" and "u \<noteq> t"
  shows "thread_inv S valid (contents_of st') (locks c) u (phases c u)"
proof (cases "phases c u")
  case (Busy i r)
  have tu: "thread_inv S valid (contents_of (cstore c)) (locks c) t (Busy j p)"
    "thread_inv S valid (contents_of (cstore c)) (locks c) u (Busy i r)"
    using assms(1,2) Busy unfolding conc_inv_def by metis+
  then obtain ks ls where ks: "prepare S j = Inr ks" "held (locks c) t = stripe_index (sv_hash S) ` set ks"
    and ls: "prepare S i = Inr ls" "held (locks c) u \<union> set (want (locks c) u) = stripe_index (sv_hash S) ` set ls"
    using assms(3) by (auto simp: thread_inv_def)
  have "seen C (contents_of st') i r"
  proof (cases "want (locks c) u = []")
    case True
    have "sk \<notin> set ks" if "sk \<in> set ls" for sk
    proof
      assume "sk \<in> set ks"
      then have "stripe_index (sv_hash S) sk \<in> held (locks c) t \<inter> held (locks c) u"
        using that ks(2) ls(2) True by auto
      then show False using lock_inv_disjoint [of "locks c" t u] assms(1,5) unfolding conc_inv_def by blast
    qed
    then show ?thesis
      using seen_local [OF _ ls(1)] micro_frame [OF assms(4) ks(1)] tu(2) by (fastforce simp: thread_inv_def)
  next
    case False
    then show ?thesis using tu(2) by (simp add: thread_inv_def)
  qed
  then show ?thesis using tu(2) Busy by (simp add: thread_inv_def)
qed (use assms(1) in \<open>auto simp: conc_inv_def thread_inv_def split: phase.splits\<close>)

lemma advance_inv:
  assumes "conc_inv S view valid c" and "advance S t c = Some (evs, c')"
  shows "conc_inv S view valid c'"
  using assms(2)
proof (cases rule: advance_cases)
  case (acquired j p i rest)
  have "thread_inv S valid (contents_of (cstore c)) (locks c) t (Busy j p)" and "lock_inv (locks c)"
    using assms(1) acquired(1) unfolding conc_inv_def by metis+
  then show ?thesis
    using conc_inv_update [OF assms(1), of c' t] acquired lock_inv_acquire [of "locks c" t i rest]
    by (auto simp: thread_inv_def)
next
  case (refused j p i rest out)
  have "lock_inv (locks c)" using assms(1) by (simp add: conc_inv_def)
  then show ?thesis
    using conc_inv_update [OF assms(1), of c' t] refused lock_inv_abandon [of "locks c" t]
    by (auto simp: thread_inv_def)
next
  case (called j p p' st')
  have t: "thread_inv S valid (contents_of (cstore c)) (locks c) t (Busy j p)" and "lock_inv (locks c)"
    using assms(1) called(1) unfolding conc_inv_def by metis+
  have "seen C (contents_of st') j p'"
    using micro_continues(1) [OF called(3)] t by (auto simp: thread_inv_def)
  then have "thread_inv S valid (contents_of st') (locks c) t (Busy j p')"
    using t called(2) by (simp add: thread_inv_def)
  then show ?thesis
    using call_spares_others [OF assms(1) called(1-3)] called(5) \<open>lock_inv _\<close> by (simp add: conc_inv_def)
next
  case (ended j p out st')
  have "lock_inv (locks c)" using assms(1) by (simp add: conc_inv_def)
  moreover have "thread_inv S valid (contents_of st') (locks c) t (Ended j out)"
    using ended(2) by (simp add: thread_inv_def)
  ultimately show ?thesis
    using call_spares_others [OF assms(1) ended(1-3)] ended(5) by (simp add: conc_inv_def)
next
  case (returned j out)
  have "thread_inv S valid (contents_of (cstore c)) (locks c) t (Ended j out)" and "lock_inv (locks c)"
    using assms(1) returned(1) unfolding conc_inv_def by metis+
  then show ?thesis
    using conc_inv_update [OF assms(1), of c' t] returned lock_inv_release [of "locks c" t]
    by (auto simp: thread_inv_def)
qed

text \<open>Each step is one atomic job or leaves the entries alone.\<close>

lemma advance_atomics:
  assumes "conc_inv S view valid c" and "advance S t c = Some (evs, c')"
  shows "atomics (effects evs) (ents (cstore c)) (ents (cstore c'))"
  using assms(2)
proof (cases rule: advance_cases)
  case (refused j p i rest out)
  have "thread_inv S valid (contents_of (cstore c)) (locks c) t (Busy j p)"
    using assms(1) refused(1) unfolding conc_inv_def by metis
  then show ?thesis using refused by (auto simp: thread_inv_def use_case_of_fjall_def)
next
  case (called j p p' st')
  have "thread_inv S valid (contents_of (cstore c)) (locks c) t (Busy j p)"
    using assms(1) called(1) unfolding conc_inv_def by metis
  then show ?thesis using called micro_continues(2) [OF called(3)] by (auto simp: thread_inv_def)
next
  case (ended j p out st')
  have "thread_inv S valid (contents_of (cstore c)) (locks c) t (Busy j p)"
    using assms(1) ended(1) unfolding conc_inv_def by metis
  then show ?thesis using ended micro_ends [OF ended(3)] by (auto simp: thread_inv_def)
qed simp_all

lemma cstep_inv: "cstep S valid c evs c' \<Longrightarrow> conc_inv S view valid c \<Longrightarrow> conc_inv S view valid c'"
  by (induction rule: cstep.induct) (auto intro: invoke_inv advance_inv)

lemma cstep_atomics:
  assumes "cstep S valid c evs c'" and "conc_inv S view valid c"
  shows "atomics (effects evs) (ents (cstore c)) (ents (cstore c'))"
  using assms
proof (induction rule: cstep.induct)
  case (call c t j evs c')
  then show ?case using prepare_ends [of j] by (auto simp: invoke_def split: sum.splits)
qed (rule advance_atomics)

lemma cruns_inv: "cruns S valid (conc_init st) tr c \<Longrightarrow> conc_inv S view valid c"
  by (induction rule: cruns.induct) (auto intro: conc_inv_init cstep_inv)

lemma cruns_atomics:
  assumes "cruns S valid (conc_init st) tr c"
  shows "atomics (effects tr) (ents st) (ents (cstore c))"
  using assms
proof (induction rule: cruns.induct)
  case start
  then show ?case by (simp add: conc_init_def)
next
  case (next_step tr c evs c')
  then show ?case unfolding effects_append atomics_append using cstep_atomics cruns_inv by blast
qed

end

section \<open>Histories are well formed\<close>

lemma step_tracks:
  assumes "cstep S valid c evs c'"
  shows "fold (track t) evs (Some (status_of (phases c t))) = Some (status_of (phases c' t))"
  using assms
proof (induction rule: cstep.induct)
  case (call c u j evs c')
  then show ?case by (auto simp: invoke_def split: sum.splits)
next
  case (move u c evs c')
  then show ?case by (cases rule: advance_cases) auto
qed

lemma cruns_track:
  "cruns S valid (conc_init st) tr c \<Longrightarrow> fold (track t) tr (Some Out) = Some (status_of (phases c t))"
  by (induction rule: cruns.induct) (simp_all add: conc_init_def step_tracks)

section \<open>Progress\<close>

text \<open>The steps a thread still has to make.\<close>

fun work_left :: "nat list \<Rightarrow> phase \<Rightarrow> nat" where
  "work_left ws Idle = 0"
| "work_left ws (Busy j p) = 1 + length ws + calls_left j p"
| "work_left ws (Ended j out) = 1"

inductive moves ::
  "'db store_env \<Rightarrow> ('t, 'db) conc \<Rightarrow> 't event list \<Rightarrow> ('t, 'db) conc \<Rightarrow> bool" for S where
  no_moves: "moves S c [] c"
| more_moves: "advance S t c = Some (evs, c') \<Longrightarrow> moves S c' tr c'' \<Longrightarrow> moves S c (evs @ tr) c''"

lemma advance_others:
  "advance S t c = Some (evs, c') \<Longrightarrow> u \<noteq> t \<Longrightarrow>
     phases c' u = phases c u \<and> want (locks c') u = want (locks c) u"
  by (erule advance_cases) simp_all

lemma advance_work:
  "advance S t c = Some (evs, c') \<Longrightarrow>
     work_left (want (locks c') t) (phases c' t) < work_left (want (locks c) t) (phases c t)"
  by (erule advance_cases) (auto simp: calls_left_pos dest: micro_calls_left)

text \<open>
  Some running thread can always move: if one waits, so does the one that wants the highest
  stripe of all that wait, and whoever holds that stripe is not waiting.
\<close>

lemma some_advance:
  assumes "lock_inv (locks c)" and "\<And>t. phases c t = Idle \<Longrightarrow> held (locks c) t = {} \<and> want (locks c) t = []"
    and "phases c t \<noteq> Idle" 
  shows "\<exists>u evs c'. advance S u c = Some (evs, c')"
proof -
  have go: "\<exists>evs c'. advance S u c = Some (evs, c')" if "phases c u \<noteq> Idle" "want (locks c) u = []" for u
    using that by (auto simp: advance_def split: phase.split prod.split sum.split)
  show ?thesis
  proof (cases "want (locks c) t = []")
    case True
    then show ?thesis using go assms(3) by blast
  next
    case False
    obtain u where u: "want (locks c) u \<noteq> []"
      "\<And>v. want (locks c) v \<noteq> [] \<Longrightarrow> hd (want (locks c) v) \<le> hd (want (locks c) u)"
      using max_waiting [OF assms(1) False] by blast
    then obtain i rest where ir: "want (locks c) u = i # rest" by (cases "want (locks c) u") auto
    have busy: "phases c u \<noteq> Idle" using assms(2) u(1) by blast
    show ?thesis
    proof (cases "\<exists>v. i \<in> held (locks c) v")
      case True
      then obtain v where v: "i \<in> held (locks c) v" by blast
      have "want (locks c) v = []"
      proof (rule ccontr)
        assume n: "want (locks c) v \<noteq> []"
        then have "i < hd (want (locks c) v)" using assms(1) v hd_in_set unfolding lock_inv_def by blast
        then show False using u(2) [OF n] ir by simp
      qed
      moreover have "phases c v \<noteq> Idle" using assms(2) v by blast
      ultimately show ?thesis using go by blast
    next
      case False
      then have "\<exists>evs c'. advance S u c = Some (evs, c')"
        using ir busy by (auto simp: advance_def Let_def split: phase.split)
      then show ?thesis by blast
    qed
  qed
qed

lemma cruns_finite: "cruns S valid (conc_init st) tr c \<Longrightarrow> finite {t. phases c t \<noteq> Idle}"
proof (induction rule: cruns.induct)
  case start
  then show ?case by (simp add: conc_init_def)
next
  case (next_step tr c evs c')
  obtain t where "\<And>u. u \<noteq> t \<Longrightarrow> phases c' u = phases c u"
    using next_step.hyps(2)
  proof (cases rule: cstep.cases)
    case (call t j)
    then show thesis using that [of t] by (auto simp: invoke_def split: sum.splits)
  next
    case (move t)
    then show thesis using that [of t] advance_others by metis
  qed
  then have "{t. phases c' t \<noteq> Idle} \<subseteq> insert t {t. phases c t \<noteq> Idle}" by auto
  then show ?case using next_step.IH finite_subset by blast
qed

lemma advance_busy: "advance S t c = Some (evs, c') \<Longrightarrow> phases c t \<noteq> Idle"
  by (auto simp: advance_def)

lemma advance_decreases:
  assumes "finite A" and "advance S t c = Some (evs, c')" and "t \<in> A"
  shows "(\<Sum>u\<in>A. work_left (want (locks c') u) (phases c' u)) < (\<Sum>u\<in>A. work_left (want (locks c) u) (phases c u))"
proof (rule sum_strict_mono_ex1 [OF assms(1)])
  show "\<forall>u\<in>A. work_left (want (locks c') u) (phases c' u) \<le> work_left (want (locks c) u) (phases c u)"
    using advance_others [OF assms(2)] advance_work [OF assms(2)] by (metis order.order_iff_strict)
  show "\<exists>u\<in>A. work_left (want (locks c') u) (phases c' u) < work_left (want (locks c) u) (phases c u)"
    using assms(3) advance_work [OF assms(2)] by blast
qed

lemma drain:
  assumes "fjall_store S view valid" and "conc_inv S view valid c" and "finite A"
    and "{t. phases c t \<noteq> Idle} \<subseteq> A"
  shows "\<exists>tr c'. moves S c tr c' \<and> (\<forall>t. phases c' t = Idle)"
  using assms(2,4)
proof (induction "\<Sum>t\<in>A. work_left (want (locks c) t) (phases c t)" arbitrary: c rule: less_induct)
  case less
  show ?case
  proof (cases "\<forall>t. phases c t = Idle")
    case True
    then show ?thesis using no_moves by blast
  next
    case False
    then obtain u evs c1 where adv: "advance S u c = Some (evs, c1)"
      using some_advance conc_inv_idle [OF less.prems(1)] less.prems(1) unfolding conc_inv_def by metis
    have u: "u \<in> A" using less.prems(2) advance_busy [OF adv] by blast
    note advance_decreases [OF assms(3) adv u]
    moreover have "conc_inv S view valid c1" by (rule fjall_store.advance_inv [OF assms(1) less.prems(1) adv])
    moreover have "{t. phases c1 t \<noteq> Idle} \<subseteq> A" using advance_others [OF adv] u less.prems(2) by fastforce
    ultimately obtain tr c' where "moves S c1 tr c'" "\<forall>t. phases c' t = Idle" using less.hyps by blast
    then show ?thesis using more_moves [OF adv] by blast
  qed
qed

section \<open>Schedules\<close>

text \<open>
  A run, step by step: each element names the thread that moves, with the job it calls if it
  calls one.
\<close>

fun schedule ::
  "'db store_env \<Rightarrow> ('t \<times> job option) list \<Rightarrow> ('t, 'db) conc \<Rightarrow> ('t event list \<times> ('t, 'db) conc) option" where
  "schedule S [] c = Some ([], c)"
| "schedule S ((t, Some j) # xs) c =
     (if phases c t = Idle
      then (let (evs, c') = invoke S t j c in map_option (apfst ((@) evs)) (schedule S xs c'))
      else None)"
| "schedule S ((t, None) # xs) c =
     (case advance S t c of
        None \<Rightarrow> None
      | Some (evs, c') \<Rightarrow> map_option (apfst ((@) evs)) (schedule S xs c'))"

lemma schedule_cruns:
  assumes "schedule S xs c = Some (evs, c')" and "list_all (\<lambda>x. pred_option (job_ok valid) (snd x)) xs"
    and "cruns S valid c0 tr c"
  shows "cruns S valid c0 (tr @ evs) c'"
  using assms
proof (induction xs arbitrary: c evs tr)
  case (Cons x xs)
  obtain t jo where x: "x = (t, jo)" by (cases x)
  obtain e1 c1 e2 where step: "cstep S valid c e1 c1" and rest: "schedule S xs c1 = Some (e2, c')"
    and evs: "evs = e1 @ e2"
    using Cons.prems(1,2) x
    by (cases jo) (auto intro: call move split: option.splits if_splits prod.splits)
  have "cruns S valid c0 ((tr @ e1) @ e2) c'"
    using Cons.IH [OF rest _ next_step [OF Cons.prems(3) step]] Cons.prems(2) by simp
  then show ?case using evs by simp
qed simp

section \<open>Counting\<close>

text \<open>A counter without expiry: absent is zero.\<close>

definition counter_at :: "stored_entry option \<Rightarrow> int \<Rightarrow> bool" where
  "counter_at en n \<longleftrightarrow>
     (case en of
        None \<Rightarrow> n = 0
      | Some e \<Rightarrow> se_expires_at e = None
          \<and> (\<exists>i. CounterValue_from_stored (se_value e) = Inr (ValInt i) \<and> sint i = n))"

text \<open>The jobs that can change the entry of a bucket and key; the sweeper only drops expired ones.\<close>

fun touches :: "bucket_id \<Rightarrow> key \<Rightarrow> job \<Rightarrow> bool" where
  "touches b k (JGet b' k') \<longleftrightarrow> False"
| "touches b k (JSet b' k' v ex) \<longleftrightarrow> b' = b \<and> k' = k"
| "touches b k (JDelete b' k') \<longleftrightarrow> b' = b \<and> k' = k"
| "touches b k (JIncrement now b' k' op ex) \<longleftrightarrow> b' = b \<and> k' = k"
| "touches b k (JBatch b' ops) \<longleftrightarrow> b' = b \<and> k \<in> txn_key ` set ops"
| "touches b k (JSweep now_ts guard) \<longleftrightarrow> False"

text \<open>An integer increment without expiry that was carried out or refused.\<close>

fun plain_increment :: "job \<times> outcome \<Rightarrow> bool" where
  "plain_increment (JIncrement now b k (OpInt d) None, OValue (Inr v)) \<longleftrightarrow> True"
| "plain_increment (JIncrement now b k (OpInt d) None, OValue (Inl (DomainErr e))) \<longleftrightarrow> True"
| "plain_increment _ \<longleftrightarrow> False"

fun added :: "bucket_id \<Rightarrow> key \<Rightarrow> job \<times> outcome \<Rightarrow> int" where
  "added b k (JIncrement now b' k' (OpInt d) ex, OValue (Inr v)) = (if b' = b \<and> k' = k then sint d else 0)"
| "added b k _ = 0"

lemma counter_at_base: "counter_at en n \<Longrightarrow> \<exists>i. counter_base now en = Inr (ValInt i) \<and> sint i = n"
  by (auto simp: counter_at_def counter_base_def split: option.splits)

lemma counter_at_incremented:
  assumes "counter_at en n" and "incremented now (OpInt d) en = Inr v"
  shows "counter_at (Some (truncated_entry v None)) (n + sint d)"
proof -
  obtain i where i: "counter_base now en = Inr (ValInt i)" "sint i = n"
    using counter_at_base [OF assms(1)] by blast
  then obtain s where s: "checked_add_i64 i d = Some s" and v: "CounterValue_into_stored (ValInt s) = Inr v"
    using assms(2) by (auto simp: incremented_def split: option.splits sum.splits)
  have "sint s = sint i + sint d"
    using s by (auto simp: checked_add_i64_def Let_def sint_of_int_i64 simp del: of_int_add split: if_splits)
  then show ?thesis
    using stored_reads_back [OF _ v] i(2) by (simp add: counter_at_def truncated_entry_def)
qed

lemma txn_effects_other: "k \<notin> txn_key ` set ops \<Longrightarrow> txn_effects ops m k = m k"
proof (induction ops arbitrary: m)
  case (Cons op ops)
  then show ?case by (cases op) auto
qed simp

lemma atomic_counts:
  assumes "atomic j out E E'" and "counter_at (E b k) n" and "touches b k j \<longrightarrow> plain_increment (j, out)"
  shows "counter_at (E' b k) (n + added b k (j, out))"
proof (cases "touches b k j")
  case True
  then have "plain_increment (j, out)" using assms(3) by blast
  then show ?thesis
    using assms(1,2) True counter_at_incremented [OF assms(2)]
    by (cases "(j, out)" rule: plain_increment.cases) (auto simp: put_def)
next
  case False
  then have a: "added b k (j, out) = 0" by (cases "(b, k, j, out)" rule: added.cases) auto
  have "E' b k = E b k \<or> (\<exists>en ex. E b k = Some en \<and> se_expires_at en = Some ex)"
    using assms(1) False txn_effects_other [of k]
    by (cases "(j, out, E, E')" rule: atomic.cases)
      (auto simp: put_def split: sum.splits use_case_error.splits)
  then show ?thesis using assms(2) a by (auto simp: counter_at_def)
qed

lemma atomics_count:
  assumes "atomics xs E E'" and "counter_at (E b k) n"
    and "list_all (\<lambda>x. touches b k (fst x) \<longrightarrow> plain_increment x) xs"
  shows "counter_at (E' b k) (n + sum_list (map (added b k) xs))"
  using assms
proof (induction xs E E' arbitrary: n rule: atomics.induct)
  case (2 j out xs E E')
  then obtain F where "atomic j out E F" and "atomics xs F E'" by auto
  then show ?case
    using 2(1) [of F "n + added b k (j, out)"] atomic_counts [of j out E F b k n] 2(3,4)
    by (simp add: add.assoc)
qed simp

section \<open>Properties\<close>

text \<open>Two threads increment one counter; the second calls while the first is in the middle.\<close>

definition demo_increment :: job where
  "demo_increment = JIncrement 0 demo_bucket demo_key (OpInt 5) None"

definition demo_schedule :: "(bool \<times> job option) list" where
  "demo_schedule =
     [(False, Some demo_increment), (False, None), (True, Some demo_increment), (False, None),
      (False, None), (False, None), (True, None), (True, None), (True, None), (True, None)]"

definition demo_history :: "bool event list" where
  "demo_history =
     (let five = OValue (Inr \<lparr>payload = bs ''5'', kind = Int64\<rparr>);
          ten = OValue (Inr \<lparr>payload = bs ''10'', kind = Int64\<rparr>)
      in [Call False demo_increment, Call True demo_increment, Effect False demo_increment five,
          Return False demo_increment five, Effect True demo_increment ten, Return True demo_increment ten])"

text \<open>All keys share one stripe, so the threads really compete.\<close>

definition one_stripe :: "mem_db store_env" where
  "one_stripe = mem_env\<lparr>sv_hash := (\<lambda>_. 5)\<rparr>"

lemma one_stripe_store: "fjall_store one_stripe mem_view time_valid"
  using mem_store.fjall_store_axioms by (simp add: fjall_store_def one_stripe_def)

lemma demo_schedule_runs:
  "map_option fst (schedule one_stripe demo_schedule (conc_init mem_store)) = Some demo_history"
  by code_simp

lemma demo_run:
  obtains c :: "(bool, mem_db) conc" where "cruns one_stripe time_valid (conc_init mem_store) demo_history c"
proof -
  obtain c where "schedule one_stripe demo_schedule (conc_init mem_store) = Some (demo_history, c)"
    using demo_schedule_runs by auto
  moreover have "list_all (\<lambda>x. pred_option (job_ok time_valid) (snd x)) demo_schedule"
    using demo_ok(1) by (simp add: demo_schedule_def demo_increment_def)
  ultimately have "cruns one_stripe time_valid (conc_init mem_store) ([] @ demo_history) c"
    using schedule_cruns cruns.start by blast
  then show thesis using that by simp
qed

text \<open>
  C1. The store is linearisable.  Any number of threads call \<open>get\<close>, \<open>set\<close>, \<open>delete\<close>,
  \<open>increment\<close>, \<open>apply_batch\<close> and the sweeper's visit of an index key, interleaved at every lock
  and every database call, with backend failures and poisoned locks.  Each job takes effect
  exactly once, between its call and its return and with the outcome it returns, and the
  entries are those of the atomic jobs carried out one after another in that order.
\<close>

theorem concurrent_ops_linearizable:
  assumes "fjall_store S view valid" and "cruns S valid (conc_init st) tr c"
  shows "atomics (effects tr) (entries_of (sv_codec S) (view (st_db st)))
      (entries_of (sv_codec S) (view (st_db (cstore c))))
    \<and> (\<forall>t. history_ok t tr)"
  using fjall_store.cruns_atomics [OF assms] cruns_track [OF assms(2)] by (simp add: history_ok_def)

theorem concurrent_ops_linearizable_witness:
  "\<exists>c. cruns one_stripe time_valid (conc_init mem_store) demo_history c
     \<and> atomics (effects demo_history) (entries_of wire_codec (mem_view (st_db mem_store)))
         (entries_of wire_codec (mem_view (st_db (cstore c))))"
proof -
  obtain c where c: "cruns one_stripe time_valid (conc_init mem_store) demo_history c" by (rule demo_run)
  from concurrent_ops_linearizable [OF one_stripe_store c] c show ?thesis
    by (auto simp: one_stripe_def)
qed

text \<open>
  C7. Concurrent increments are never lost: if a key starts as an integer counter without expiry
  (or absent) and the only jobs on it are integer increments that succeed or are refused, then
  however they interleave with each other, with jobs on other keys and with the sweeper, the
  counter is the initial value plus the sum of the deltas of all successful increments.
\<close>

theorem no_lost_increments:
  assumes "fjall_store S view valid" and "cruns S valid (conc_init st) tr c" and "bucket_ok b"
    and "counter_at (abs_entry (sv_codec S) (view (st_db st)) b k) n"
    and "list_all (\<lambda>x. touches b k (fst x) \<longrightarrow> plain_increment x) (effects tr)"
  shows "counter_at (abs_entry (sv_codec S) (view (st_db (cstore c))) b k)
    (n + sum_list (map (added b k) (effects tr)))"
  using atomics_count [OF fjall_store.cruns_atomics [OF assms(1,2)] _ assms(5)] assms(3,4)
  by (simp add: entries_of_def)

theorem no_lost_increments_witness:
  "\<exists>c. cruns one_stripe time_valid (conc_init mem_store) demo_history c
     \<and> counter_at (abs_entry wire_codec (mem_view (st_db (cstore c))) demo_bucket demo_key) 10"
proof -
  obtain c where c: "cruns one_stripe time_valid (conc_init mem_store) demo_history c" by (rule demo_run)
  have "counter_at (abs_entry wire_codec (mem_view (st_db mem_store)) demo_bucket demo_key) 0"
    by (simp add: counter_at_def abs_entry_def decoded_def mem_view_def mem_store_def)
  moreover have "list_all (\<lambda>x. touches demo_bucket demo_key (fst x) \<longrightarrow> plain_increment x) (effects demo_history)"
    by (simp add: demo_history_def demo_increment_def Let_def)
  moreover have "sum_list (map (added demo_bucket demo_key) (effects demo_history)) = 10"
    by (simp add: demo_history_def demo_increment_def Let_def)
  ultimately show ?thesis
    using no_lost_increments [OF one_stripe_store c demo_ok(1), of demo_key 0] c
    by (auto simp: one_stripe_def)
qed

text \<open>
  C10. Every running operation returns: in any state the threads can reach, if no new job is
  called the running ones finish one by one (in any order the scheduler likes) until every
  thread is idle again; no deadlock, no waiting for ever, whatever fails in the backend.
\<close>

theorem running_operations_return:
  assumes "fjall_store S view valid" and "cruns S valid (conc_init st) tr c"
  shows "(\<exists>tr' c'. moves S c tr' c' \<and> (\<forall>t. phases c' t = Idle))
    \<and> (\<forall>t evs c'. advance S t c = Some (evs, c') \<longrightarrow>
         (\<Sum>u | phases c u \<noteq> Idle. work_left (want (locks c') u) (phases c' u))
         < (\<Sum>u | phases c u \<noteq> Idle. work_left (want (locks c) u) (phases c u)))"
proof
  show "\<exists>tr' c'. moves S c tr' c' \<and> (\<forall>t. phases c' t = Idle)"
    by (rule drain [OF assms(1) fjall_store.cruns_inv [OF assms] cruns_finite [OF assms(2)] subset_refl])
qed (use advance_decreases [OF cruns_finite [OF assms(2)]] advance_busy in fastforce)

theorem running_operations_return_witness:
  "\<exists>c. cruns one_stripe time_valid (conc_init mem_store) demo_history c
     \<and> (\<exists>tr' c'. moves one_stripe c tr' c' \<and> (\<forall>t. phases c' t = Idle))"
proof -
  obtain c where c: "cruns one_stripe time_valid (conc_init mem_store) demo_history c" by (rule demo_run)
  from running_operations_return [OF one_stripe_store c] c show ?thesis by blast
qed

end
