(* ===== verification/Openapi.thy ===== *)
theory Openapi
  imports Server
begin

text \<open>
  The API description: the \<open>utoipa::path\<close> annotations of the handlers with their methods, paths
  and response statuses, the list of \<open>ApiDoc\<close>, and \<open>openapi()\<close>, which moves the API's paths under
  its prefix (\<open>keydock-http/src/openapi.rs\<close>).  Shown here: the description lists exactly the
  routes the router mounts (but for the metrics and the alias of the API root), and which
  statuses each handler answers, documented or not.
\<close>

section \<open>Annotations\<close>

record operation_doc =
  od_methods :: "http_method list"
  od_path :: str
  od_statuses :: "nat list"
  od_handler :: handler

definition doc_health_check :: operation_doc where
  "doc_health_check = \<lparr>od_methods = [GET], od_path = bs ''/health'', od_statuses = [200], od_handler = HealthCheck\<rparr>"

definition doc_readiness_check :: operation_doc where
  "doc_readiness_check =
     \<lparr>od_methods = [GET], od_path = bs ''/ready'', od_statuses = [200, 503], od_handler = ReadinessCheck\<rparr>"

definition doc_create_bucket :: operation_doc where
  "doc_create_bucket =
     \<lparr>od_methods = [POST], od_path = bs ''/'', od_statuses = [200, 400, 500], od_handler = CreateBucket\<rparr>"

definition doc_list_bucket :: operation_doc where
  "doc_list_bucket =
     \<lparr>od_methods = [GET], od_path = bs ''/{bucket}/'', od_statuses = [200, 400, 401, 403, 404, 406, 500],
      od_handler = ListBucket\<rparr>"

definition doc_get_bucket_policy :: operation_doc where
  "doc_get_bucket_policy =
     \<lparr>od_methods = [GET], od_path = bs ''/{bucket}'', od_statuses = [200, 401, 403, 404, 500],
      od_handler = GetBucketPolicy\<rparr>"

definition doc_head_bucket :: operation_doc where
  "doc_head_bucket =
     \<lparr>od_methods = [HEAD], od_path = bs ''/{bucket}'', od_statuses = [200, 401, 403, 404, 500],
      od_handler = HeadBucket\<rparr>"

definition doc_update_policy :: operation_doc where
  "doc_update_policy =
     \<lparr>od_methods = [PATCH], od_path = bs ''/{bucket}'', od_statuses = [204, 400, 403, 404, 500],
      od_handler = UpdatePolicy\<rparr>"

definition doc_delete_bucket :: operation_doc where
  "doc_delete_bucket =
     \<lparr>od_methods = [DELETE], od_path = bs ''/{bucket}'', od_statuses = [204, 403, 404, 500],
      od_handler = DeleteBucket\<rparr>"

definition doc_delete_bucket_slash :: operation_doc where
  "doc_delete_bucket_slash =
     \<lparr>od_methods = [DELETE], od_path = bs ''/{bucket}/'', od_statuses = [204, 403, 404, 500],
      od_handler = DeleteBucket\<rparr>"

definition doc_create_token :: operation_doc where
  "doc_create_token =
     \<lparr>od_methods = [POST], od_path = bs ''/{bucket}/tokens/'', od_statuses = [200, 400, 403, 404, 503, 500],
      od_handler = CreateToken\<rparr>"

definition doc_get_key :: operation_doc where
  "doc_get_key =
     \<lparr>od_methods = [GET], od_path = bs ''/{bucket}/{key}'', od_statuses = [200, 400, 401, 403, 404, 500],
      od_handler = GetKey\<rparr>"

definition doc_head_key :: operation_doc where
  "doc_head_key =
     \<lparr>od_methods = [HEAD], od_path = bs ''/{bucket}/{key}'', od_statuses = [200, 400, 401, 403, 404, 500],
      od_handler = HeadKey\<rparr>"

definition doc_put_key :: operation_doc where
  "doc_put_key =
     \<lparr>od_methods = [PUT, POST], od_path = bs ''/{bucket}/{key}'', od_statuses = [200, 400, 401, 403, 500],
      od_handler = PutKey\<rparr>"

definition doc_delete_key :: operation_doc where
  "doc_delete_key =
     \<lparr>od_methods = [DELETE], od_path = bs ''/{bucket}/{key}'', od_statuses = [204, 400, 401, 403, 404, 500],
      od_handler = DeleteKey\<rparr>"

definition doc_patch_key :: operation_doc where
  "doc_patch_key =
     \<lparr>od_methods = [PATCH], od_path = bs ''/{bucket}/{key}'', od_statuses = [200, 400, 401, 403, 500],
      od_handler = PatchKey\<rparr>"

definition doc_execute_txn :: operation_doc where
  "doc_execute_txn =
     \<lparr>od_methods = [POST], od_path = bs ''/{bucket}'', od_statuses = [204, 400, 401, 403, 500],
      od_handler = ExecuteTxn\<rparr>"

definition ApiDoc :: "operation_doc list" where
  "ApiDoc =
     [doc_health_check, doc_readiness_check, doc_create_bucket, doc_list_bucket, doc_get_bucket_policy,
      doc_head_bucket, doc_update_policy, doc_delete_bucket, doc_delete_bucket_slash, doc_create_token,
      doc_get_key, doc_head_key, doc_put_key, doc_delete_key, doc_patch_key, doc_execute_txn]"

definition OPS_PATHS :: "str list" where
  "OPS_PATHS = [bs ''/health'', bs ''/ready'']"

definition openapi_path :: "str \<Rightarrow> str" where
  "openapi_path path =
     (if path \<in> set OPS_PATHS then path
      else if path = bs ''/'' then API_PREFIX
      else API_PREFIX @ path)"

definition openapi :: "operation_doc list" where
  "openapi = map (\<lambda>d. d\<lparr>od_path := openapi_path (od_path d)\<rparr>) ApiDoc"

lemmas doc_defs =
  doc_health_check_def doc_readiness_check_def doc_create_bucket_def doc_list_bucket_def
  doc_get_bucket_policy_def doc_head_bucket_def doc_update_policy_def doc_delete_bucket_def
  doc_delete_bucket_slash_def doc_create_token_def doc_get_key_def doc_head_key_def doc_put_key_def
  doc_delete_key_def doc_patch_key_def doc_execute_txn_def

section \<open>Routes\<close>

definition documented_routes :: "(http_method \<times> str \<times> handler) list" where
  "documented_routes = concat (map (\<lambda>d. map (\<lambda>m. (m, od_path d, od_handler d)) (od_methods d)) openapi)"

text \<open>\<open>join\<close> is the path at which the framework serves a route nested under a prefix.\<close>

definition served_routes :: "(str \<Rightarrow> str \<Rightarrow> str) \<Rightarrow> router_options \<Rightarrow> (http_method \<times> str \<times> handler) list" where
  "served_routes join opts =
     concat (map (\<lambda>r. map (\<lambda>(m, h). (m, join (mt_prefix r) (mt_path r), h)) (mt_methods r)) (build_router opts))"

lemma documented_routes_eq:
  "documented_routes =
     [(GET, bs ''/health'', HealthCheck), (GET, bs ''/ready'', ReadinessCheck),
      (POST, API_PREFIX, CreateBucket),
      (GET, API_PREFIX @ bs ''/{bucket}/'', ListBucket),
      (GET, API_PREFIX @ bs ''/{bucket}'', GetBucketPolicy),
      (HEAD, API_PREFIX @ bs ''/{bucket}'', HeadBucket),
      (PATCH, API_PREFIX @ bs ''/{bucket}'', UpdatePolicy),
      (DELETE, API_PREFIX @ bs ''/{bucket}'', DeleteBucket),
      (DELETE, API_PREFIX @ bs ''/{bucket}/'', DeleteBucket),
      (POST, API_PREFIX @ bs ''/{bucket}/tokens/'', CreateToken),
      (GET, API_PREFIX @ bs ''/{bucket}/{key}'', GetKey),
      (HEAD, API_PREFIX @ bs ''/{bucket}/{key}'', HeadKey),
      (PUT, API_PREFIX @ bs ''/{bucket}/{key}'', PutKey),
      (POST, API_PREFIX @ bs ''/{bucket}/{key}'', PutKey),
      (DELETE, API_PREFIX @ bs ''/{bucket}/{key}'', DeleteKey),
      (PATCH, API_PREFIX @ bs ''/{bucket}/{key}'', PatchKey),
      (POST, API_PREFIX @ bs ''/{bucket}'', ExecuteTxn)]"
  by code_simp



section \<open>Statuses\<close>

definition documented :: "handler \<Rightarrow> nat set" where
  "documented h = set (concat (map od_statuses (filter (\<lambda>d. od_handler d = h) openapi)))"

lemma documented_simps [simp]:
  "documented HealthCheck = {200}" "documented ReadinessCheck = {200, 503}"
  "documented CreateBucket = {200, 400, 500}" "documented ListBucket = {200, 400, 401, 403, 404, 406, 500}"
  "documented GetBucketPolicy = {200, 401, 403, 404, 500}" "documented HeadBucket = {200, 401, 403, 404, 500}"
  "documented UpdatePolicy = {204, 400, 403, 404, 500}" "documented DeleteBucket = {204, 403, 404, 500}"
  "documented CreateToken = {200, 400, 403, 404, 503, 500}"
  "documented GetKey = {200, 400, 401, 403, 404, 500}" "documented HeadKey = {200, 400, 401, 403, 404, 500}"
  "documented PutKey = {200, 400, 401, 403, 500}" "documented DeleteKey = {204, 400, 401, 403, 404, 500}"
  "documented PatchKey = {200, 400, 401, 403, 500}" "documented ExecuteTxn = {204, 400, 401, 403, 500}"
  "documented Metrics = {}"
  by (auto simp: documented_def openapi_def ApiDoc_def doc_defs)

text \<open>What the shared extractor of the bucket routes adds without an annotation.\<close>

fun undocumented :: "handler \<Rightarrow> nat set" where
  "undocumented PutKey = {404}"
| "undocumented PatchKey = {404}"
| "undocumented ExecuteTxn = {404}"
| "undocumented CreateToken = {401}"
| "undocumented UpdatePolicy = {401}"
| "undocumented DeleteBucket = {400, 401}"
| "undocumented GetBucketPolicy = {400}"
| "undocumented HeadBucket = {400}"
| "undocumented _ = {}"

text \<open>The answers of the framework's own extractors, when they reject the request.\<close>

definition framework_rejects :: "axum_ops \<Rightarrow> request \<Rightarrow> str list \<Rightarrow> response \<Rightarrow> bool" where
  "framework_rejects X req params r \<longleftrightarrow>
     ax_bucket_form X req = Inl r \<or> ax_token_form X req = Inl r \<or> ax_path_pair X params = Inl r
     \<or> ax_ttl_query X (rq_query req) = Inl r \<or> ax_list_query X (rq_query req) = Inl r \<or> ax_body X req = Inl r"

lemma response_status [simp]:
  "rs_status (status_response c) = c" "rs_status (json_response c j) = c" "rs_status (bytes_response c ct b) = c"
  by (simp_all add: status_response_def json_response_def bytes_response_def)

text \<open>The store never answers \<open>NotImplemented\<close>.\<close>

lemma repo_err_status: "e \<noteq> NotImplemented \<Longrightarrow> rs_status (map_use_case_repo_err e) \<in> {400, 404, 500}"
  by (cases e) simp_all

lemma fjall_get_err: "fjall_get S st b k = Inl e \<Longrightarrow> \<exists>m. e = Storage m"
  by (auto simp: fjall_get_def Let_def dest: uc_Inl fj_Inl split: sum.splits option.splits)

lemma fjall_set_err: "fjall_set S st b k v ex = (Inl e, st') \<Longrightarrow> \<exists>m. e = Storage m"
  by (auto simp: fjall_set_def put_entry_def Let_def dest: uc_Inl fj_Inl split: sum.splits option.splits prod.splits)

lemma fjall_delete_err: "fjall_delete S st b k = (Inl e, st') \<Longrightarrow> \<exists>m. e = Storage m"
  by (auto simp: fjall_delete_def Let_def dest: uc_Inl fj_Inl split: sum.splits prod.splits if_splits)

lemma codec_err [simp]: "\<exists>m. use_case_of_codec e = Storage m"
  by (cases e) simp

lemma spawn_usecase_Inl: "spawn_usecase (Done r) = Inl x \<longleftrightarrow> (\<exists>e. r = Inl e \<and> x = map_use_case_repo_err e)"
  by (auto simp: spawn_usecase_def split: sum.splits)

lemma fjall_policy_err:
  "fjall_get_policy S J st b = Inl e \<Longrightarrow> \<exists>m. e = Storage m"
  "fjall_create_bucket S J st b p = (Inl e, st') \<Longrightarrow> \<exists>m. e = Storage m"
  "fjall_delete_bucket S st b = (Inl e, st') \<Longrightarrow> \<exists>m. e = Storage m"
  by (auto simp: fjall_get_policy_def fjall_create_bucket_def fjall_delete_bucket_def Let_def
      dest: fj_Inl split: sum.splits option.splits prod.splits)

lemma fjall_list_err: "fjall_list S st b opts = Done (Inl e) \<Longrightarrow> \<exists>m. e = Storage m"
proof -
  have row: "\<exists>m. e = Storage m" if "list_row S b opts g = Inl e" for g
    using that by (auto simp: list_row_def dest: uc_Inl fj_Inl split: sum.splits option.splits if_splits)
  have "\<exists>m. e = Storage m" if "list_forward S b opts n t out gs = Inl e" for n t out gs
    using that by (induction gs arbitrary: n t out) (auto dest: row split: if_splits sum.splits option.splits)
  moreover have "\<exists>m. e = Storage m" if "list_reverse S b opts w d gs = Inl e" for w d gs
    using that by (induction gs arbitrary: d) (auto dest: row split: sum.splits option.splits)
  ultimately show "fjall_list S st b opts = Done (Inl e) \<Longrightarrow> \<exists>m. e = Storage m"
    by (auto simp: fjall_list_def Let_def split: if_splits)
qed

text \<open>The pieces the handlers are made of.\<close>

lemma gate_status:
  "require_admin a = Inl r \<Longrightarrow> rs_status r = 403"
  "require_enumerate a = Inl r \<Longrightarrow> rs_status r \<in> {401, 403}"
  "require_read_on a k = Inl r \<Longrightarrow> rs_status r \<in> {401, 403}"
  "require_write_on a k = Inl r \<Longrightarrow> rs_status r \<in> {401, 403}"
  "require_delete_on a k = Inl r \<Longrightarrow> rs_status r \<in> {401, 403}"
  by (auto simp: require_admin_def require_enumerate_def require_read_on_def require_write_on_def
      require_delete_on_def split: resolved_identity.splits if_splits)

lemma key_status: "parse_percent_encoded_key L raw = Inl r \<Longrightarrow> rs_status r = 400"
  by (auto simp: parse_percent_encoded_key_def split: sum.splits)

lemma ttl_value_err:
  "resolve_ttl T now o_ttl d = Inl e \<Longrightarrow> \<exists>x. e = DomainErr x"
  "infer_stored_value json_ok body ct = Inl e \<Longrightarrow> \<exists>x. e = DomainErr x"
  by (auto simp: resolve_ttl_def infer_stored_value_def Let_def split: option.splits if_splits sum.splits)

lemma extractor_status:
  assumes "st_buckets A = fjall_buckets S J" and "from_request_parts L A now st path q au = Inl r"
  shows "rs_status r \<in> {400, 401, 404, 500}"
  using assms
  by (auto simp: from_request_parts_def spawn_usecase_Inl dest!: fjall_policy_err(1) split: sum.splits option.splits)

lemma read_policy_status:
  assumes "st_buckets A = fjall_buckets S J" and "read_policy A st b = Inl r"
  shows "rs_status r \<in> {404, 500}"
  using assms
  by (auto simp: read_policy_def spawn_usecase_Inl dest!: fjall_policy_err(1) split: sum.splits option.splits)

lemma get_key_status:
  assumes "st_keys A = fjall_repo S"
  shows "rs_status (into_response (get_key L A now st auth key)) \<in> {200, 400, 401, 403, 404, 500}"
  using assms
  by (auto simp: get_key_def KeyService_get_def stored_value_response_def
      dest!: gate_status key_status fjall_get_err split: sum.split sum.splits option.splits if_splits)

lemma head_key_status:
  assumes "st_keys A = fjall_repo S"
  shows "rs_status (into_response (head_key L A now st auth key)) \<in> {200, 400, 401, 403, 404, 500}"
  using assms
  by (auto simp: head_key_def KeyService_get_def
      dest!: gate_status key_status fjall_get_err split: sum.split sum.splits option.splits if_splits)

lemma put_key_status:
  assumes "st_keys A = fjall_repo S"
  shows "rs_status (into_response (fst (put_key L A now st auth key ttl cth body))) \<in> {200, 400, 401, 403, 500}"
  using assms
  by (auto simp: put_key_def KeyService_set_def stored_value_response_def Let_def
      dest!: gate_status key_status fjall_set_err ttl_value_err split: sum.split sum.splits prod.split prod.splits)

lemma delete_key_status:
  assumes "st_keys A = fjall_repo S"
  shows "rs_status (into_response (fst (delete_key L A st auth key))) \<in> {204, 400, 401, 403, 404, 500}"
  using assms
  by (auto simp: delete_key_def KeyService_delete_def Let_def
      dest!: gate_status key_status fjall_delete_err split: sum.split sum.splits prod.split prod.splits if_splits)

lemma patch_key_status:
  assumes "st_keys A = fjall_repo S"
  shows "rs_status (into_response (fst (patch_key L A now store_now st auth key ttl body))) \<in> {200, 400, 401, 403, 500}"
proof -
  have inc: "rs_status (map_use_case_repo_err e) \<in> {400, 500}" if "fjall_increment S st store_now b k op ex = (Inl e, st')" for b k op ex e st'
    using increment_error [OF that] by auto
  show ?thesis
    using assms
    by (auto simp: patch_key_def KeyService_increment_def stored_value_response_def Let_def spawn_usecase_Inl
        dest!: gate_status key_status ttl_value_err(1) inc split: sum.split sum.splits prod.split prod.splits)
qed

lemma txn_ops_status: "txn_ops_of L clk auth n items = Inl r \<Longrightarrow> rs_status r \<in> {400, 401, 403}"
proof (induction L clk auth n items rule: txn_ops_of.induct)
  case (2 L clk auth n s rest)
  have j: "json_value_to_body L v = Inl r \<Longrightarrow> rs_status r = 400" for v
    by (cases v) (auto split: option.splits)
  show ?case
    using 2
    by (auto dest!: gate_status key_status j ttl_value_err split: sum.splits prod.splits)
next
  case (3 L clk auth n d rest)
  then show ?case by (auto dest!: gate_status key_status split: sum.splits)
qed simp

lemma execute_txn_status:
  assumes "st_keys A = fjall_repo S"
  shows "rs_status (into_response (fst (execute_txn L A clk st auth body))) \<in> {204, 400, 401, 403, 500}"
  using assms
  by (auto simp: execute_txn_def TxnService_execute_def Let_def spawn_usecase_Inl
      dest!: txn_ops_status apply_batch_error split: option.split sum.split sum.splits prod.split prod.splits)

lemma list_body_status: "render_list_body L fmt rows vals = Inl r \<Longrightarrow> rs_status r = 500"
proof -
  have *: "map_results f xs = Inl r \<Longrightarrow> \<exists>x. f x = Inl r" for f :: "'a \<Rightarrow> response + 'b" and xs
    by (induction xs) (auto split: sum.splits)
  have rj: "row_json L vals row = Inl r \<Longrightarrow> rs_status r = 500" for row
    by (auto simp: row_json_def stored_value_to_json_def Let_def
        split: if_splits option.splits sum.splits value_kind.splits)
  have ts: "text_segment vals row = Inl r \<Longrightarrow> rs_status r = 500" for row
    by (auto simp: text_segment_def Let_def split: if_splits option.splits)
  have jc: "jsonl_chunk L vals row = Inl r \<Longrightarrow> rs_status r = 500" for row
    using rj by (auto simp: jsonl_chunk_def split: sum.splits option.splits)
  show "render_list_body L fmt rows vals = Inl r \<Longrightarrow> rs_status r = 500"
    using rj ts jc
    by (cases fmt) (auto simp: render_list_text_def render_list_json_def render_list_jsonl_def dest!: *
        split: sum.splits option.splits)
qed

lemma list_bucket_status:
  assumes "st_keys A = fjall_repo S"
  shows "rs_status (into_response (list_bucket L A now st auth ps acc)) \<in> {200, 401, 403, 406, 500}"
proof -
  have f: "resolve_list_format L ps acc = Inl r \<Longrightarrow> rs_status r = 406" for r
    by (auto simp: resolve_list_format_def Let_def split: option.splits if_splits)
  have s: "spawn_usecase (fjall_list S st b opts) = Inl r \<Longrightarrow> rs_status r = 500" for b opts r
    by (cases "fjall_list S st b opts") (auto simp: spawn_usecase_def dest!: fjall_list_err split: sum.splits)
  show ?thesis
    using assms
    by (auto simp: list_bucket_def KeyService_list_def Let_def
        dest!: gate_status(2) f s list_body_status split: sum.split option.split)
qed

lemma hash_status: "hash_api_key_or_fail L rk s = Inl r \<Longrightarrow> rs_status r = 500"
  by (auto simp: hash_api_key_or_fail_def split: sum.splits)

lemma create_bucket_status:
  assumes "st_buckets A = fjall_buckets S J" and "create_bucket L A uuid st form = (Done r, st')"
  shows "rs_status (into_response r) \<in> {200, 400, 500}"
proof -
  have h: "hash_opt L rk k = Inl x \<Longrightarrow> rs_status x = 500" for rk k x
    by (auto simp: hash_opt_def dest: hash_status split: option.splits sum.splits)
  show ?thesis
    using assms
    by (auto simp: create_bucket_def Let_def spawn_usecase_Inl dest!: h fjall_policy_err(2)
        split: if_splits sum.splits prod.splits)
qed

lemma patch_status: "apply_policy_patch L p patch rk = Inl r \<Longrightarrow> rs_status r \<in> {400, 500}"
proof -
  have "apply_nullable_hash L v rk = Inl r \<Longrightarrow> rs_status r \<in> {400, 500}" for v r
    by (auto simp: apply_nullable_hash_def dest: hash_status split: option.splits if_splits sum.splits)
  then show "apply_policy_patch L p patch rk = Inl r \<Longrightarrow> rs_status r \<in> {400, 500}"
    by (auto simp: apply_policy_patch_def patch_secret_def patch_read_def patch_write_def patch_signing_def Let_def
        dest: hash_status split: sum.splits option.splits if_splits)
qed

lemma update_policy_status:
  assumes "st_buckets A = fjall_buckets S J"
  shows "rs_status (into_response (fst (update_policy L A st auth body))) \<in> {204, 400, 403, 404, 500}"
proof (cases "fst (update_policy L A st auth body)")
  case (Inl r)
  then consider "require_admin auth = Inl r" | "r = bad_request" | "read_policy A st (ba_bucket_id auth) = Inl r"
    | p patch where "apply_policy_patch L p patch (st_root_key A) = Inl r"
    | e p st' where "fjall_create_bucket S J st (ba_bucket_id auth) p = (Inl e, st')" "r = map_use_case_repo_err e"
    using assms
    by (auto simp: update_policy_def Let_def spawn_usecase_Inl split: sum.splits option.splits prod.splits if_splits)
  then show ?thesis
    using Inl by cases (auto dest: gate_status(1) read_policy_status [OF assms] patch_status dest!: fjall_policy_err(2))
next
  case (Inr r)
  then show ?thesis
    by (auto simp: update_policy_def Let_def split: sum.splits option.splits prod.splits if_splits)
qed

lemma bucket_admin_status:
  assumes "st_buckets A = fjall_buckets S J"
  shows "rs_status (into_response (fst (delete_bucket A st auth))) \<in> {204, 403, 500}"
    and "rs_status (into_response (get_bucket_policy A st auth)) \<in> {200, 403, 404, 500}"
    and "rs_status (into_response (head_bucket auth)) \<in> {200, 403}"
  using assms read_policy_status [OF assms]
  by (auto simp: delete_bucket_def get_bucket_policy_def head_bucket_def Let_def spawn_usecase_Inl
      dest!: gate_status(1) fjall_policy_err(3) split: sum.split sum.splits prod.split prod.splits)

lemma create_token_status:
  assumes "st_buckets A = fjall_buckets S J"
  shows "rs_status (case create_token L A now st auth form of Inl r \<Rightarrow> r | Inr t \<Rightarrow> token_response t)
    \<in> {200, 400, 403, 404, 500, 503}"
proof -
  have "add_permissions p xs = Inl r \<Longrightarrow> rs_status r = 400" for p xs r
    by (induction p xs rule: add_permissions.induct) (auto simp: Let_def split: if_splits)
  then have "parse_permissions raw = Inl r \<Longrightarrow> rs_status r = 400" for raw r
    by (auto simp: parse_permissions_def split: sum.splits if_splits)
  then show ?thesis
    by (auto simp: create_token_def token_response_def dest: gate_status(1) dest!: read_policy_status [OF assms]
        split: sum.splits option.splits if_splits)
qed

lemma with_auth_status:
  assumes "st_buckets A = fjall_buckets S J" and "apfst Done (with_auth L A rd st path req f) = (Done r, st')"
    and "\<And>auth. rs_status (fst (f auth)) \<in> R \<or> framework_rejects X req params (fst (f auth))"
    and "{400, 401, 404, 500} \<subseteq> R"
  shows "rs_status r \<in> R \<or> framework_rejects X req params r"
proof (cases "from_request_parts L A (rd_auth_now rd) st path (rq_query req) (rq_authorization req)")
  case (Inl x)
  then show ?thesis
    using assms(2,4) extractor_status [OF assms(1) Inl] by (auto simp: with_auth_def)
next
  case (Inr auth)
  then have "f auth = (r, st')" using assms(2) by (cases "f auth") (simp add: with_auth_def)
  then show ?thesis using assms(3) [of auth] by simp
qed

lemma with_part_status:
  assumes "\<And>r. part = Inl r \<Longrightarrow> framework_rejects X req params r"
    and "\<And>x. rs_status (fst (f x)) \<in> R \<or> framework_rejects X req params (fst (f x))"
  shows "rs_status (fst (with_part st part f)) \<in> R \<or> framework_rejects X req params (fst (with_part st part f))"
  using assms by (cases part) (simp_all add: with_part_def)

lemma fst_wrote [simp]: "fst (wrote m) = into_response (fst m)"
  by (simp add: wrote_def)

lemma status_in: "(x :: nat) \<in> B \<Longrightarrow> B \<subseteq> R \<Longrightarrow> x \<in> R \<or> Q"
  by blast

lemma key_answers:
  assumes b: "st_buckets A = fjall_buckets S J" and k: "st_keys A = fjall_repo S"
    and ans: "run_handler L X A rd st path req params h = (Done r, st')" and "h \<in> {GetKey, HeadKey, PutKey, DeleteKey, PatchKey, ExecuteTxn, ListBucket}"
  shows "rs_status r \<in> documented h \<union> undocumented h \<or> framework_rejects X req params r"
proof -
  note rej = framework_rejects_def and step = with_auth_status [OF b]
  show ?thesis
  proof (cases h)
    case GetKey
    show ?thesis
      by (rule step [OF ans [unfolded GetKey run_handler.simps]])
        (rule with_part_status, simp add: rej, simp only: split_beta, simp only: fst_wrote fst_conv,
         rule status_in [OF get_key_status [OF k]], simp_all add: GetKey)
  next
    case HeadKey
    show ?thesis
      by (rule step [OF ans [unfolded HeadKey run_handler.simps]])
        (rule with_part_status, simp add: rej, simp only: split_beta, simp only: fst_wrote fst_conv,
         rule status_in [OF head_key_status [OF k]], simp_all add: HeadKey)
  next
    case PutKey
    show ?thesis
      by (rule step [OF ans [unfolded PutKey run_handler.simps]])
        (rule with_part_status, simp add: rej, simp only: split_beta, rule with_part_status, simp add: rej, rule with_part_status, simp add: rej, simp only: fst_wrote fst_conv,
         rule status_in [OF put_key_status [OF k]], simp_all add: PutKey)
  next
    case DeleteKey
    show ?thesis
      by (rule step [OF ans [unfolded DeleteKey run_handler.simps]])
        (rule with_part_status, simp add: rej, simp only: split_beta, simp only: fst_wrote fst_conv,
         rule status_in [OF delete_key_status [OF k]], simp_all add: DeleteKey)
  next
    case PatchKey
    show ?thesis
      by (rule step [OF ans [unfolded PatchKey run_handler.simps]])
        (rule with_part_status, simp add: rej, simp only: split_beta, rule with_part_status, simp add: rej, rule with_part_status, simp add: rej, simp only: fst_wrote fst_conv,
         rule status_in [OF patch_key_status [OF k]], simp_all add: PatchKey)
  next
    case ExecuteTxn
    show ?thesis
      by (rule step [OF ans [unfolded ExecuteTxn run_handler.simps]])
        (rule with_part_status, simp add: rej, simp only: fst_wrote fst_conv,
         rule status_in [OF execute_txn_status [OF k]], simp_all add: ExecuteTxn)
  next
    case ListBucket
    show ?thesis
      by (rule step [OF ans [unfolded ListBucket run_handler.simps]])
        (rule with_part_status, simp add: rej, simp only: fst_wrote fst_conv,
         rule status_in [OF list_bucket_status [OF k]], simp_all add: ListBucket)
  qed (use assms(4) in simp_all)
qed

lemma bucket_answers:
  assumes b: "st_buckets A = fjall_buckets S J" and k: "st_keys A = fjall_repo S"
    and ans: "run_handler L X A rd st path req params h = (Done r, st')" and "h \<in> {CreateToken, DeleteBucket, GetBucketPolicy, HeadBucket, UpdatePolicy, CreateBucket, HealthCheck, ReadinessCheck}"
  shows "rs_status r \<in> documented h \<union> undocumented h \<or> framework_rejects X req params r"
proof -
  note rej = framework_rejects_def and step = with_auth_status [OF b]
  show ?thesis
  proof (cases h)
    case CreateToken
    show ?thesis
      by (rule step [OF ans [unfolded CreateToken run_handler.simps]])
        (rule with_part_status, simp add: rej, simp only: fst_wrote fst_conv,
         rule status_in [OF create_token_status [OF b]], simp_all add: CreateToken)
  next
    case DeleteBucket
    show ?thesis
      by (rule step [OF ans [unfolded DeleteBucket run_handler.simps]])
        (simp only: fst_wrote fst_conv,
         rule status_in [OF bucket_admin_status(1) [OF b]], simp_all add: DeleteBucket)
  next
    case GetBucketPolicy
    show ?thesis
      by (rule step [OF ans [unfolded GetBucketPolicy run_handler.simps]])
        (simp only: fst_wrote fst_conv,
         rule status_in [OF bucket_admin_status(2) [OF b]], simp_all add: GetBucketPolicy)
  next
    case HeadBucket
    show ?thesis
      by (rule step [OF ans [unfolded HeadBucket run_handler.simps]])
        (simp only: fst_wrote fst_conv,
         rule status_in [OF bucket_admin_status(3) [OF b]], simp_all add: HeadBucket)
  next
    case UpdatePolicy
    show ?thesis
      by (rule step [OF ans [unfolded UpdatePolicy run_handler.simps]])
        (rule with_part_status, simp add: rej, simp only: fst_wrote fst_conv,
         rule status_in [OF update_policy_status [OF b]], simp_all add: UpdatePolicy)
  next
    case CreateBucket
    then show ?thesis
      using ans by (auto simp: rej dest: create_bucket_status [OF b] split: sum.splits prod.splits run.splits)
  next
    case HealthCheck
    then show ?thesis using ans by (auto simp: health_check_def)
  next
    case ReadinessCheck
    then show ?thesis using ans by (auto simp: readiness_check_def split: sum.splits)
  qed (use assms(4) in simp_all)
qed

lemma demo_no_policy: "fjall_get_policy mem_env wire_policy mem_store b = Inr None"
  by (simp add: fjall_get_policy_def mem_store_def)

lemma demo_no_bucket: "from_request_parts demo_lib demo_app now mem_store (bs ''/b1'') q au = Inl not_found"
proof -
  have "bucket_id_from_path (bs ''/b1'') = Inr (BucketId (bs ''b1''))" by code_simp
  then show ?thesis by (simp add: from_request_parts_def demo_no_policy)
qed

text \<open>
  C31. A handler answers only statuses its annotation lists, plus the ones in \<open>undocumented\<close>: over
  the fjall store every answer of every handler has a status that is documented, or one of those
  that the shared extractor contributes, or is the framework's own rejection of a form, query,
  path or body.
\<close>

theorem answers_are_documented:
  assumes "wired S J L A" and "run_handler L X A rd st path req params h = (Done r, st')" and "h \<noteq> Metrics"
  shows "rs_status r \<in> documented h \<union> undocumented h \<or> framework_rejects X req params r"
  using key_answers [OF _ _ assms(2), of S J] bucket_answers [OF _ _ assms(2), of S J] assms(1,3)
  by (cases h) (simp_all add: wired_def)

theorem answers_are_documented_witness:
  "\<exists>r. run_handler demo_lib demo_axum demo_app demo_readings mem_store (bs ''/b1'') (demo_request GET ''/b1'' []) []
       GetBucketPolicy = (Done r, mem_store)
     \<and> (rs_status r \<in> documented GetBucketPolicy \<union> undocumented GetBucketPolicy
        \<or> framework_rejects demo_axum (demo_request GET ''/b1'' []) [] r)"
proof -
  have "from_request_parts demo_lib demo_app (rd_auth_now demo_readings) mem_store (bs ''/b1'')
      (rq_query (demo_request GET ''/b1'' [])) (rq_authorization (demo_request GET ''/b1'' [])) = Inl not_found"
    by (simp add: demo_no_bucket)
  then have h: "run_handler demo_lib demo_axum demo_app demo_readings mem_store (bs ''/b1'')
      (demo_request GET ''/b1'' []) [] GetBucketPolicy = (Done not_found, mem_store)"
    by (simp add: with_auth_def)
  have "wired mem_env wire_policy demo_lib demo_app" by (simp add: wired_def wire_codec_def)
  from answers_are_documented [OF this h] h show ?thesis by blast
qed

text \<open>
  Writes to a bucket that does not exist are answered with a status the description does not
  have: the extractor answers 404 before \<open>PUT\<close>, \<open>POST\<close> and \<open>PATCH\<close> of a key or a transaction is
  looked at, and the annotations of these operations list no 404.
\<close>

lemma unknown_bucket_undocumented:
  assumes "st_buckets A = fjall_buckets S J" and "bucket_id_from_path path = Inr b"
    and "fjall_get_policy S J st b = Inr None" and "h \<in> {PutKey, PatchKey, ExecuteTxn}"
  shows "run_handler L X A rd st path req params h = (Done not_found, st)
    \<and> rs_status not_found \<notin> documented h"
proof -
  have "from_request_parts L A now st path q au = Inl not_found" for now q au
    using assms(1-3) by (simp add: from_request_parts_def)
  then show ?thesis using assms(4) by (auto simp: with_auth_def)
qed

lemma unknown_bucket_undocumented_example:
  "run_handler demo_lib demo_axum demo_app demo_readings mem_store (bs ''/b1/n'') (demo_request PUT ''/b1/n'' ''hi'')
     [bs ''b1'', bs ''n''] PutKey = (Done not_found, mem_store) \<and> rs_status not_found \<notin> documented PutKey"
proof -
  have "bucket_id_from_path (bs ''/b1/n'') = Inr (BucketId (bs ''b1''))" by code_simp
  from unknown_bucket_undocumented [OF _ this demo_no_policy, of demo_app PutKey] show ?thesis
    by (simp del: run_handler.simps)
qed

end
