(* ===== verification/Http_Metrics.thy ===== *)
theory Http_Metrics
  imports Server "HOL-Library.Multiset"
begin

text \<open>
  The metrics of the HTTP layer: the catalog of \<open>keydock-http/src/metrics.rs\<close> and the middleware
  \<open>track_http_metrics\<close> (\<open>middleware/metrics.rs\<close>) at its place in the router, inside the CORS layer
  and around everything else.  The recorder is a multiset of series: a counter's value is its
  multiplicity, and so is the number of observations of a histogram.  Shown here: the counters
  count every answered request exactly once under its route, method and status; and how many
  series there can be.
\<close>

section \<open>The catalog\<close>

datatype metric_kind = CounterMetric | HistogramMetric

datatype metric_unit = CountUnit | SecondsUnit

definition describe_all :: "(string \<times> metric_kind \<times> metric_unit \<times> string) list" where
  "describe_all =
     [(''http_requests_total'', CounterMetric, CountUnit,
       ''Total HTTP requests handled, labeled by matched route, method and status code.''),
      (''http_request_duration_seconds'', HistogramMetric, SecondsUnit,
       ''HTTP request duration in seconds, labeled by matched route and method.''),
      (''storage_ops_total'', CounterMetric, CountUnit,
       ''Total storage operations executed against the persistence layer, labeled by op and result (ok|err).''),
      (''storage_errors_total'', CounterMetric, CountUnit,
       ''Total storage errors surfaced to use cases, labeled by kind (backend|adapter|codec_policy|codec_entry).''),
      (''gc_keys_expired_total'', CounterMetric, CountUnit,
       ''Total expired keys removed by the background GC sweeper.'')]"

section \<open>The middleware\<close>

type_synonym series = "string \<times> (string \<times> str) list"

record recorder =
  rc_counters :: "series multiset"
  rc_observed :: "series multiset"

fun method_name :: "http_method \<Rightarrow> str" where
  "method_name GET = bs ''GET''"
| "method_name HEAD = bs ''HEAD''"
| "method_name POST = bs ''POST''"
| "method_name PUT = bs ''PUT''"
| "method_name PATCH = bs ''PATCH''"
| "method_name DELETE = bs ''DELETE''"
| "method_name OPTIONS = bs ''OPTIONS''"
| "method_name (OtherMethod m) = m"

definition route_label :: "str option \<Rightarrow> request \<Rightarrow> str" where
  "route_label matched req = (case matched of Some p \<Rightarrow> p | None \<Rightarrow> rq_path req)"

definition request_series :: "str option \<Rightarrow> request \<Rightarrow> response \<Rightarrow> series" where
  "request_series matched req r =
     (''http_requests_total'',
      [(''route'', route_label matched req), (''method'', method_name (rq_method req)),
       (''status'', show_nat (rs_status r))])"

definition duration_series :: "str option \<Rightarrow> request \<Rightarrow> series" where
  "duration_series matched req =
     (''http_request_duration_seconds'',
      [(''route'', route_label matched req), (''method'', method_name (rq_method req))])"

text \<open>A panic of the inner service unwinds through the middleware before it records anything.\<close>

fun track_http_metrics :: "str option \<Rightarrow> request \<Rightarrow> response run \<Rightarrow> recorder \<Rightarrow> recorder" where
  "track_http_metrics matched req (Done r) M =
     M\<lparr>rc_counters := add_mset (request_series matched req r) (rc_counters M),
       rc_observed := add_mset (duration_series matched req) (rc_observed M)\<rparr>"
| "track_http_metrics matched req Panicked M = M"

text \<open>
  The path of the route a request matched, as the framework records it.  \<open>join\<close> is the path of a
  nested route and \<open>docs\<close> the route of the API documentation that answers a request.
\<close>

definition matched_path ::
  "(str \<Rightarrow> str \<Rightarrow> str) \<Rightarrow> (request \<Rightarrow> str option) \<Rightarrow> axum_ops \<Rightarrow> router_options \<Rightarrow> request \<Rightarrow> str option" where
  "matched_path join docs X opts req =
     (case ax_swagger X req of
        Some r \<Rightarrow> docs req
      | None \<Rightarrow> map_option (\<lambda>(m, _, _). join (mt_prefix m) (mt_path m)) (routed X opts req))"

definition serve_request ::
  "(str \<Rightarrow> str \<Rightarrow> str) \<Rightarrow> (request \<Rightarrow> str option) \<Rightarrow> http_lib \<Rightarrow> axum_ops \<Rightarrow> 'st app_state \<Rightarrow> router_options \<Rightarrow>
     readings \<Rightarrow> request \<Rightarrow> 'st \<times> recorder \<Rightarrow> response run \<times> 'st \<times> recorder" where
  "serve_request join docs L X A opts rd req s =
     (let (st, M) = s; (r, st') = handle_request L X A opts rd st req
      in (r, st', if ax_preflight X req \<noteq> None then M
                  else track_http_metrics (matched_path join docs X opts req) req r M))"

text \<open>A sequence of requests, with what came back.\<close>

fun serve_all ::
  "(str \<Rightarrow> str \<Rightarrow> str) \<Rightarrow> (request \<Rightarrow> str option) \<Rightarrow> http_lib \<Rightarrow> axum_ops \<Rightarrow> 'st app_state \<Rightarrow> router_options \<Rightarrow>
     (readings \<times> request) list \<Rightarrow> 'st \<times> recorder \<Rightarrow> (request \<times> response run) list \<times> 'st \<times> recorder" where
  "serve_all join docs L X A opts [] s = ([], s)"
| "serve_all join docs L X A opts ((rd, req) # rest) s =
     (let (r, s') = serve_request join docs L X A opts rd req s;
          (rs, s'') = serve_all join docs L X A opts rest s'
      in ((req, r) # rs, s''))"

text \<open>The requests the middleware sees answered.\<close>

definition counted :: "axum_ops \<Rightarrow> request \<times> response run \<Rightarrow> bool" where
  "counted X x \<longleftrightarrow> ax_preflight X (fst x) = None \<and> snd x \<noteq> Panicked"

fun series_of :: "(request \<Rightarrow> str option) \<Rightarrow> request \<times> response run \<Rightarrow> series" where
  "series_of matched (req, Done r) = request_series (matched req) req r"
| "series_of matched (req, Panicked) = ('''', [])"

lemma serve_request_recorder:
  "serve_request join docs L X A opts rd req (st, M) = (r, st', M') \<Longrightarrow>
     rc_counters M' = rc_counters M +
       (if counted X (req, r) then {#series_of (matched_path join docs X opts) (req, r)#} else {#})
     \<and> size (rc_observed M') = size (rc_observed M) + (if counted X (req, r) then 1 else 0)"
  by (cases r) (auto simp: serve_request_def counted_def Let_def split: prod.splits if_splits)

text \<open>What the middleware records is in the catalog, with its kind.\<close>

definition described :: "metric_kind \<Rightarrow> series \<Rightarrow> bool" where
  "described kd s \<longleftrightarrow> (\<exists>u h. (fst s, kd, u, h) \<in> set describe_all)"

lemma tracked_described:
  assumes "\<forall>s \<in># rc_counters M. described CounterMetric s" and "\<forall>s \<in># rc_observed M. described HistogramMetric s"
  shows "(\<forall>s \<in># rc_counters (track_http_metrics matched req r M). described CounterMetric s)
    \<and> (\<forall>s \<in># rc_observed (track_http_metrics matched req r M). described HistogramMetric s)"
proof -
  have "described CounterMetric (request_series matched req a)" and "described HistogramMetric (duration_series matched req)" for a
    by (auto simp: described_def describe_all_def request_series_def duration_series_def)
  then show ?thesis using assms by (cases r) auto
qed

lemma serve_all_recorder:
  "serve_all join docs L X A opts reqs (st, M) = (rs, st', M') \<Longrightarrow>
     map fst rs = map snd reqs
     \<and> rc_counters M' = rc_counters M +
         image_mset (series_of (matched_path join docs X opts)) (mset (filter (counted X) rs))
     \<and> size (rc_observed M') = size (rc_observed M) + length (filter (counted X) rs)"
proof (induction reqs arbitrary: st M rs)
  case (Cons x reqs)
  obtain rd req where x: "x = (rd, req)" by (cases x)
  obtain r st1 M1 where one: "serve_request join docs L X A opts rd req (st, M) = (r, st1, M1)" by (metis prod_cases3)
  obtain rs1 where rest: "serve_all join docs L X A opts reqs (st1, M1) = (rs1, st', M')" and rs: "rs = (req, r) # rs1"
    using Cons.prems x one by (auto simp: Let_def split: prod.splits)
  show ?case using Cons.IH [OF rest] serve_request_recorder [OF one] rs x by simp
qed simp

text \<open>The series a routed request can add: its route label is one of finitely many.\<close>

lemma routed_label:
  assumes "ax_swagger X req = None" and "routed X opts req = Some (m, params, path)"
  shows "route_label (matched_path join docs X opts req) req \<in> (\<lambda>m. join (mt_prefix m) (mt_path m)) ` set (build_router opts)"
proof -
  have "m \<in> set (build_router opts)"
    using assms(2) by (auto simp: routed_def find_Some_iff split: option.splits)
  then show ?thesis using assms by (simp add: route_label_def matched_path_def)
qed

section \<open>Properties\<close>

text \<open>
  The request counter tells the truth: after any sequence of requests, the counter of a route,
  method and status has grown by exactly the number of requests answered so, and the duration
  histogram has one observation for each of them.  Preflight requests, which the CORS layer
  answers outside the middleware, and requests whose handler panicked are not in it.
\<close>

lemma requests_counted_exactly:
  assumes "serve_all join docs L X A opts reqs (st, M) = (rs, st', M')"
  shows "count (rc_counters M') s = count (rc_counters M) s
      + length (filter (\<lambda>x. counted X x \<and> series_of (matched_path join docs X opts) x = s) rs)
    \<and> size (rc_observed M') = size (rc_observed M) + length (filter (counted X) rs)
    \<and> map fst rs = map snd reqs"
proof -
  have "count (image_mset f (mset xs)) s = length (filter (\<lambda>x. f x = s) xs)" for f :: "request \<times> response run \<Rightarrow> series" and xs
    by (induction xs) auto
  from this [of "series_of (matched_path join docs X opts)" "filter (counted X) rs"]
  show ?thesis using serve_all_recorder [OF assms] by (simp add: conj_commute)
qed

text \<open>Two requests for the health probe.\<close>

definition demo_probe :: "readings \<times> request" where
  "demo_probe = (demo_readings, demo_request GET ''/health'' [])"

lemma demo_probe_served:
  "\<exists>M'. serve_all (\<lambda>p q. full_path (p, q)) (\<lambda>_. None) demo_lib demo_axum demo_app default_router_options
      [demo_probe, demo_probe] (mem_store, \<lparr>rc_counters = {#}, rc_observed = {#}\<rparr>)
    = ([(snd demo_probe, Done (health_check demo_app)), (snd demo_probe, Done (health_check demo_app))], mem_store, M')"
proof -
  have "routed demo_axum default_router_options (demo_request GET ''/health'' [])
      = Some (\<lparr>mt_prefix = [], mt_path = bs ''/health'', mt_methods = [(GET, HealthCheck)], mt_limited = False\<rparr>,
          [], bs ''/health'')"
    by code_simp
  moreover have "method_handler demo_axum [(GET, HealthCheck)] GET = Some HealthCheck"
    by (simp add: method_handler_def demo_axum_def)
  ultimately have "handle_request demo_lib demo_axum demo_app default_router_options demo_readings mem_store
      (demo_request GET ''/health'' []) = (Done (health_check demo_app), mem_store)"
    by (simp add: handle_request_def limited_response_def demo_request_def)
  then show ?thesis by (simp add: demo_probe_def serve_request_def)
qed

lemma requests_counted_exactly_example:
  "\<exists>rs M'. serve_all (\<lambda>p q. full_path (p, q)) (\<lambda>_. None) demo_lib demo_axum demo_app default_router_options
      [demo_probe, demo_probe] (mem_store, \<lparr>rc_counters = {#}, rc_observed = {#}\<rparr>) = (rs, mem_store, M')
    \<and> size (rc_observed M') = 2"
proof -
  let ?rs = "[(snd demo_probe, Done (health_check demo_app)), (snd demo_probe, Done (health_check demo_app))]"
  obtain M' where s: "serve_all (\<lambda>p q. full_path (p, q)) (\<lambda>_. None) demo_lib demo_axum demo_app default_router_options
      [demo_probe, demo_probe] (mem_store, \<lparr>rc_counters = {#}, rc_observed = {#}\<rparr>) = (?rs, mem_store, M')"
    using demo_probe_served by blast
  have "counted demo_axum (snd demo_probe, Done (health_check demo_app))"
    by (simp add: counted_def demo_probe_def demo_request_def)
  then have "size (rc_observed M') = 2" using requests_counted_exactly [OF s] by simp
  then show ?thesis using s by blast
qed

text \<open>
  The number of series is not bounded: a request that matches no route is counted under its
  own path, so a client that asks for \<open>n\<close> different unknown paths leaves at least \<open>n\<close> series
  behind, although it is always answered the same.
\<close>

lemma unmatched_paths_make_series:
  assumes "serve_all join docs L X A opts reqs (st, M) = (rs, st', M')"
    and "distinct (map (rq_path \<circ> snd) reqs)"
    and "\<And>x. x \<in> set reqs \<Longrightarrow> ax_preflight X (snd x) = None \<and> ax_swagger X (snd x) = None \<and> routed X opts (snd x) = None"
  shows "length reqs \<le> card (set_mset (rc_counters M'))"
proof -
  let ?req = "\<lambda>x. (snd x, Done (ax_not_found X)) :: request \<times> response run"
  have rs: "rs = map ?req reqs" using assms(1,3)
  proof (induction reqs arbitrary: st M rs)
    case (Cons x reqs)
    then have "handle_request L X A opts rd st (snd x) = (Done (ax_not_found X), st)" for rd st
      by (simp add: handle_request_def)
    then show ?case
      using Cons by (cases x) (auto simp: serve_request_def Let_def split: prod.splits)
  qed simp
  let ?f = "\<lambda>x. request_series None (snd x) (ax_not_found X)"
  have "inj_on ?f (set reqs)"
    using assms(2) by (auto simp: inj_on_def request_series_def route_label_def distinct_map)
  then have "card (?f ` set reqs) = length reqs"
    using assms(2) by (simp add: card_image distinct_card distinct_map)
  moreover have "?f ` set reqs \<subseteq> set_mset (rc_counters M')"
  proof
    fix s
    assume "s \<in> ?f ` set reqs"
    then obtain x where x: "x \<in> set reqs" "s = ?f x" by blast
    then have "s = series_of (matched_path join docs X opts) (?req x)" and "counted X (?req x)"
      using assms(3) [OF x(1)] by (simp_all add: matched_path_def counted_def)
    moreover have "?req x \<in> set (filter (counted X) rs)" using x(1) calculation(2) rs by simp
    ultimately have "s \<in> series_of (matched_path join docs X opts) ` set (filter (counted X) rs)" by (metis imageI)
    then show "s \<in> set_mset (rc_counters M')" using serve_all_recorder [OF assms(1)] by simp
  qed
  ultimately show ?thesis by (metis card_mono finite_set_mset)
qed

lemma unmatched_paths_make_series_example:
  "\<exists>rs st' M'. serve_all (\<lambda>p q. full_path (p, q)) (\<lambda>_. None) demo_lib demo_axum demo_app default_router_options
      [(demo_readings, demo_request GET ''/x1'' []), (demo_readings, demo_request GET ''/x2'' [])]
      (mem_store, \<lparr>rc_counters = {#}, rc_observed = {#}\<rparr>) = (rs, st', M')
    \<and> 2 \<le> card (set_mset (rc_counters M'))"
proof -
  let ?reqs = "[(demo_readings, demo_request GET ''/x1'' []), (demo_readings, demo_request GET ''/x2'' [])]"
  obtain rs st' M' where s: "serve_all (\<lambda>p q. full_path (p, q)) (\<lambda>_. None) demo_lib demo_axum demo_app default_router_options
      ?reqs (mem_store, \<lparr>rc_counters = {#}, rc_observed = {#}\<rparr>) = (rs, st', M')"
    by (metis prod_cases3)
  have "routed demo_axum default_router_options (demo_request GET ''/x1'' []) = None"
    and "routed demo_axum default_router_options (demo_request GET ''/x2'' []) = None" by code_simp+
  then have "length ?reqs \<le> card (set_mset (rc_counters M'))"
    by (intro unmatched_paths_make_series [OF s]) (auto simp: demo_request_def bs_def)
  then show ?thesis using s by auto
qed

end
