(* ===== verification/Storage_Metrics.thy ===== *)
theory Storage_Metrics
  imports Http_Metrics
begin

text \<open>
  The metrics of the storage layer: \<open>record_storage_error\<close> (\<open>keydock-fjall/src/error.rs\<close>) where an error of the
  adapter becomes one of the use cases, \<open>record_storage_op\<close> (\<open>store.rs\<close>) at the end of an operation, and the
  counter of the sweep (\<open>gc.rs\<close>).  The operations of \<open>FjallStore\<close> are written once more, as the code has
  them with its \<open>?\<close>, with the series they record.  Shown here: without the series they are the
  operations of the other theories; the error counter counts every storage error that an
  operation returns, once and nothing else; and the sweep counts the entries it removes.
\<close>

section \<open>Recording\<close>

definition error_series :: "string \<Rightarrow> series" where
  "error_series kd = (''storage_errors_total'', [(''kind'', bs kd)])"

definition op_series :: "string \<Rightarrow> string \<Rightarrow> series" where
  "op_series opname label = (''storage_ops_total'', [(''op'', bs opname), (''result'', bs label)])"

type_synonym ('st, 'a) metered = "'st \<Rightarrow> (use_case_error + 'a) \<times> 'st \<times> series list"

definition done_with :: "'a \<Rightarrow> ('st, 'a) metered" where
  "done_with a st = (Inr a, st, [])"

text \<open>\<open>?\<close>: go on with the value, or return the error.\<close>

definition try_then :: "('st, 'a) metered \<Rightarrow> ('a \<Rightarrow> ('st, 'b) metered) \<Rightarrow> ('st, 'b) metered" where
  "try_then m f st =
     (case m st of
        (Inl e, st', l) \<Rightarrow> (Inl e, st', l)
      | (Inr a, st', l) \<Rightarrow> (let (r, st'', l') = f a st' in (r, st'', l @ l')))"

text \<open>The conversions into \<open>UseCaseError\<close>: two of them record, the one from domain errors does not.\<close>

fun from_fjall :: "fjall_error + 'a \<Rightarrow> ('st, 'a) metered" where
  "from_fjall (Inl e) st = (Inl (use_case_of_fjall e), st, [error_series (kind_label e)])"
| "from_fjall (Inr a) st = (Inr a, st, [])"

fun from_codec :: "codec_error + 'a \<Rightarrow> ('st, 'a) metered" where
  "from_codec (Inl e) st = (Inl (use_case_of_codec e), st, [error_series ''codec_policy''])"
| "from_codec (Inr a) st = (Inr a, st, [])"

fun from_domain :: "domain_error + 'a \<Rightarrow> ('st, 'a) metered" where
  "from_domain (Inl e) st = (Inl (DomainErr e), st, [])"
| "from_domain (Inr a) st = (Inr a, st, [])"

fun backend :: "string + 'a \<Rightarrow> fjall_error + 'a" where
  "backend (Inl e) = Inl (FjallE e)"
| "backend (Inr a) = Inr a"

definition reads :: "('db \<Rightarrow> string + 'a) \<Rightarrow> ('db store, 'a) metered" where
  "reads f st = from_fjall (backend (f (st_db st))) st"

definition writes :: "('db \<Rightarrow> (string + 'a) \<times> 'db) \<Rightarrow> ('db store, 'a) metered" where
  "writes f st = (let (r, db) = f (st_db st) in from_fjall (backend r) (st\<lparr>st_db := db\<rparr>))"

definition guarded :: "((nat \<Rightarrow> bool) \<Rightarrow> fjall_error + 'a) \<Rightarrow> ('db store, 'a) metered" where
  "guarded lock st = from_fjall (lock (st_poisoned st)) st"

definition record_storage_op :: "string \<Rightarrow> ('st, 'a) metered \<Rightarrow> ('st, 'a) metered" where
  "record_storage_op opname m st =
     (let (r, st', l) = m st in (r, st', l @ [op_series opname (storage_op_label r)]))"

section \<open>The operations of the store\<close>

definition m_get :: "'db store_env \<Rightarrow> bucket_id \<Rightarrow> key \<Rightarrow> ('db store, stored_entry option) metered" where
  "m_get S b k =
     record_storage_op ''get''
       (try_then (reads (\<lambda>db. fj_get (sv_fjall S) db DATA_KEYSPACE (data_storage_key b k))) (\<lambda>v.
          case v of
            None \<Rightarrow> done_with None
          | Some v \<Rightarrow> try_then (from_fjall (decode_entry (sv_codec S) v)) (\<lambda>entry. done_with (Some entry))))"

definition m_put_entry :: "'db store_env \<Rightarrow> bytes \<Rightarrow> bytes \<Rightarrow> instant option \<Rightarrow> ('db store, unit) metered" where
  "m_put_entry S sk raw expires_at =
     (case expires_at of
        Some ex \<Rightarrow>
          writes (\<lambda>db. fj_commit (sv_fjall S) db
            [BInsert DATA_KEYSPACE sk raw,
             BInsert EXPIRY_KEYSPACE (expiry_index_key (unix_timestamp (cd_time (sv_codec S)) ex) sk) []])
      | None \<Rightarrow> writes (\<lambda>db. fj_insert (sv_fjall S) db DATA_KEYSPACE sk raw))"

definition m_set ::
  "'db store_env \<Rightarrow> bucket_id \<Rightarrow> key \<Rightarrow> stored_value \<Rightarrow> instant option \<Rightarrow> ('db store, unit) metered" where
  "m_set S b k v expires_at =
     record_storage_op ''set''
       (let sk = data_storage_key b k in
        try_then (guarded (\<lambda>poisoned. lock_for (sv_hash S) poisoned sk)) (\<lambda>_.
        try_then (from_fjall (encode_entry (sv_codec S) v expires_at)) (\<lambda>raw.
          m_put_entry S sk raw expires_at)))"

definition m_delete :: "'db store_env \<Rightarrow> bucket_id \<Rightarrow> key \<Rightarrow> ('db store, bool) metered" where
  "m_delete S b k =
     record_storage_op ''delete''
       (let sk = data_storage_key b k in
        try_then (guarded (\<lambda>poisoned. lock_for (sv_hash S) poisoned sk)) (\<lambda>_.
        try_then (reads (\<lambda>db. fj_contains_key (sv_fjall S) db DATA_KEYSPACE sk)) (\<lambda>existed.
          if existed
          then try_then (writes (\<lambda>db. fj_remove (sv_fjall S) db DATA_KEYSPACE sk)) (\<lambda>_. done_with existed)
          else done_with existed)))"

definition m_current ::
  "'db store_env \<Rightarrow> instant \<Rightarrow> bytes option \<Rightarrow> ('db store, counter_value) metered" where
  "m_current S now stored =
     (case stored of
        None \<Rightarrow> done_with (ValInt 0)
      | Some v \<Rightarrow>
          try_then (from_fjall (decode_entry (sv_codec S) v)) (\<lambda>entry.
            if (case se_expires_at entry of Some ex \<Rightarrow> ex \<le> now | None \<Rightarrow> False) then done_with (ValInt 0)
            else from_domain (CounterValue_from_stored (se_value entry))))"

definition m_increment ::
  "'db store_env \<Rightarrow> instant \<Rightarrow> bucket_id \<Rightarrow> key \<Rightarrow> counter_op \<Rightarrow> instant option \<Rightarrow> ('db store, stored_value) metered" where
  "m_increment S now b k op expires_at =
     record_storage_op ''increment''
       (let sk = data_storage_key b k in
        try_then (guarded (\<lambda>poisoned. lock_for (sv_hash S) poisoned sk)) (\<lambda>_.
        try_then (reads (\<lambda>db. fj_get (sv_fjall S) db DATA_KEYSPACE sk)) (\<lambda>cur.
        try_then (m_current S now cur) (\<lambda>current.
        try_then (from_domain (CounterOp_apply op current)) (\<lambda>merged.
        try_then (from_domain (CounterValue_into_stored merged)) (\<lambda>stored.
        try_then (from_fjall (encode_entry (sv_codec S) stored expires_at)) (\<lambda>raw.
        try_then (m_put_entry S sk raw expires_at) (\<lambda>_. done_with stored))))))))"

fun m_batch_item :: "'db store_env \<Rightarrow> bucket_id \<Rightarrow> txn_op \<Rightarrow> ('db store, batch_item) metered" where
  "m_batch_item S b (TxnSet k v expires_at) =
     (let sk = data_storage_key b k;
          idx = map_option (\<lambda>ex. expiry_index_key (unix_timestamp (cd_time (sv_codec S)) ex) sk) expires_at
      in try_then (from_fjall (encode_entry (sv_codec S) v expires_at)) (\<lambda>raw. done_with (ItemSet sk raw idx)))"
| "m_batch_item S b (TxnDelete k) = done_with (ItemDelete (data_storage_key b k))"

fun m_batch_items :: "'db store_env \<Rightarrow> bucket_id \<Rightarrow> txn_op list \<Rightarrow> ('db store, batch_item list) metered" where
  "m_batch_items S b [] = done_with []"
| "m_batch_items S b (op # ops) =
     try_then (m_batch_item S b op) (\<lambda>it. try_then (m_batch_items S b ops) (\<lambda>its. done_with (it # its)))"

definition m_apply_batch :: "'db store_env \<Rightarrow> bucket_id \<Rightarrow> txn_op list \<Rightarrow> ('db store, unit) metered" where
  "m_apply_batch S b ops =
     record_storage_op ''apply_batch''
       (if ops = [] then done_with ()
        else
          try_then (m_batch_items S b ops) (\<lambda>items.
          try_then (guarded (\<lambda>poisoned. lock_stripes_for_keys (sv_hash S) poisoned (map item_key items))) (\<lambda>_.
            writes (\<lambda>db. fj_commit (sv_fjall S) db (concat (map item_ops items))))))"

definition m_list_row ::
  "'db store_env \<Rightarrow> bucket_id \<Rightarrow> list_opts \<Rightarrow> (string + bytes \<times> bytes) \<Rightarrow> ('db store, list_entry option) metered" where
  "m_list_row S b opts guard =
     try_then (from_fjall (backend guard)) (\<lambda>(uk, uv).
       case user_key_from_storage_key uk b of
         None \<Rightarrow> done_with None
       | Some user_key \<Rightarrow>
           if lo_include_values opts then
             try_then (from_fjall (decode_entry (sv_codec S) uv)) (\<lambda>entry.
               done_with
                 (if (case (lo_expires_before opts, se_expires_at entry) of
                        (Some cutoff, Some ex) \<Rightarrow> ex \<le> cutoff | _ \<Rightarrow> False)
                  then None else Some \<lparr>le_key = user_key, le_value = Some (se_value entry)\<rparr>))
           else
             try_then (from_fjall (decode_entry_expires_unix (sv_codec S) uv)) (\<lambda>expires_unix.
               done_with
                 (if (case (map_option (unix_timestamp (cd_time (sv_codec S))) (lo_expires_before opts), expires_unix) of
                        (Some cutoff, Some ex) \<Rightarrow> sint ex \<le> sint cutoff | _ \<Rightarrow> False)
                  then None else Some \<lparr>le_key = user_key, le_value = None\<rparr>)))"

fun m_list_forward ::
  "'db store_env \<Rightarrow> bucket_id \<Rightarrow> list_opts \<Rightarrow> nat \<Rightarrow> nat \<Rightarrow> list_entry list \<Rightarrow>
     (string + bytes \<times> bytes) list \<Rightarrow> ('db store, list_entry list) metered" where
  "m_list_forward S b opts skip_remaining taken out [] = done_with out"
| "m_list_forward S b opts skip_remaining taken out (guard # guards) =
     (if lo_limit opts \<le> taken then done_with out
      else try_then (m_list_row S b opts guard) (\<lambda>row.
        case row of
          None \<Rightarrow> m_list_forward S b opts skip_remaining taken out guards
        | Some row \<Rightarrow>
            if 0 < skip_remaining then m_list_forward S b opts (skip_remaining - 1) taken out guards
            else m_list_forward S b opts skip_remaining (taken + 1) (out @ [row]) guards))"

fun m_list_reverse ::
  "'db store_env \<Rightarrow> bucket_id \<Rightarrow> list_opts \<Rightarrow> nat \<Rightarrow> list_entry list \<Rightarrow>
     (string + bytes \<times> bytes) list \<Rightarrow> ('db store, list_entry list) metered" where
  "m_list_reverse S b opts window deque [] =
     done_with (take (lo_limit opts) (drop (lo_skip opts) (rev deque)))"
| "m_list_reverse S b opts window deque (guard # guards) =
     try_then (m_list_row S b opts guard) (\<lambda>row.
       case row of
         None \<Rightarrow> m_list_reverse S b opts window deque guards
       | Some row \<Rightarrow> m_list_reverse S b opts window (trim_front window (deque @ [row])) guards)"

text \<open>A panic of the listing leaves before anything is recorded.\<close>

definition m_list ::
  "'db store_env \<Rightarrow> bucket_id \<Rightarrow> list_opts \<Rightarrow> 'db store \<Rightarrow>
     ((use_case_error + list_entry list) \<times> 'db store \<times> series list) run" where
  "m_list S b opts st =
     (let guards = fj_prefix (sv_fjall S) (st_db st) DATA_KEYSPACE (data_key_prefix b (lo_prefix opts));
          window = saturating_add (lo_skip opts) (lo_limit opts)
      in if lo_limit opts = 0 then Done (record_storage_op ''list'' (done_with []) st)
         else if lo_reverse opts then
           (if window = 0 then Done (record_storage_op ''list'' (done_with []) st)
            else if ISIZE_MAX < window * sv_entry_size S then Panicked
            else Done (record_storage_op ''list'' (m_list_reverse S b opts window [] guards) st))
         else Done (record_storage_op ''list'' (m_list_forward S b opts (lo_skip opts) 0 [] guards) st))"

definition m_ping_metadata :: "'db store_env \<Rightarrow> ('db store, unit) metered" where
  "m_ping_metadata S =
     record_storage_op ''ping_metadata''
       (try_then (reads (\<lambda>db. fj_get (sv_fjall S) db META_KEYSPACE PING_KEY)) (\<lambda>_. done_with ()))"

text \<open>The operations on policies have no \<open>record_storage_op\<close>.\<close>

definition m_get_policy ::
  "'db store_env \<Rightarrow> policy_json \<Rightarrow> bucket_id \<Rightarrow> ('db store, bucket_policy option) metered" where
  "m_get_policy S J b =
     try_then (reads (\<lambda>db. fj_get (sv_fjall S) db META_KEYSPACE (as_str b))) (\<lambda>v.
       case v of
         Some v \<Rightarrow> try_then (from_codec (decode_policy J v)) (\<lambda>p. done_with (Some p))
       | None \<Rightarrow> done_with None)"

definition m_create_bucket ::
  "'db store_env \<Rightarrow> policy_json \<Rightarrow> bucket_id \<Rightarrow> bucket_policy \<Rightarrow> ('db store, unit) metered" where
  "m_create_bucket S J b policy =
     try_then (from_codec (encode_policy J policy)) (\<lambda>v.
       writes (\<lambda>db. fj_insert (sv_fjall S) db META_KEYSPACE (as_str b) v))"

definition m_delete_bucket :: "'db store_env \<Rightarrow> bucket_id \<Rightarrow> ('db store, unit) metered" where
  "m_delete_bucket S b = writes (\<lambda>db. fj_remove (sv_fjall S) db META_KEYSPACE (as_str b))"

section \<open>Without the series they are the operations\<close>

definition erased :: "('st, 'a) metered \<Rightarrow> 'st \<Rightarrow> (use_case_error + 'a) \<times> 'st" where
  "erased m st = (let (r, st', _) = m st in (r, st'))"

lemma erased_done [simp]: "erased (done_with a) st = (Inr a, st)"
  by (simp add: erased_def done_with_def)

lemma erased_try [simp]:
  "erased (try_then m f) st =
     (case erased m st of (Inl e, st') \<Rightarrow> (Inl e, st') | (Inr a, st') \<Rightarrow> erased (f a) st')"
  by (simp add: erased_def try_then_def Let_def split: prod.split sum.split)

lemma erased_from_fjall [simp]: "erased (from_fjall r) st = (uc r, st)"
  by (cases r) (simp_all add: erased_def uc_def)

lemma uc_backend [simp]: "uc (backend r) = fj r"
  by (cases r) (simp_all add: uc_def fj_def)

lemma erased_reads [simp]: "erased (reads f) st = (fj (f (st_db st)), st)"
  using erased_from_fjall [of "backend (f (st_db st))" st] by (simp add: erased_def reads_def)

lemma erased_writes [simp]: "erased (writes f) st = (let (r, db) = f (st_db st) in (fj r, st\<lparr>st_db := db\<rparr>))"
proof -
  obtain r db where f: "f (st_db st) = (r, db)" by fastforce
  then show ?thesis using erased_from_fjall [of "backend r" "st\<lparr>st_db := db\<rparr>"] by (simp add: erased_def writes_def)
qed

lemma erased_guarded [simp]: "erased (guarded lock) st = (uc (lock (st_poisoned st)), st)"
  using erased_from_fjall [of "lock (st_poisoned st)" st] by (simp add: erased_def guarded_def)

lemma erased_from_codec [simp]:
  "erased (from_codec r) st = (case r of Inl e \<Rightarrow> Inl (use_case_of_codec e) | Inr a \<Rightarrow> Inr a, st)"
  by (cases r) (simp_all add: erased_def)

lemma erased_from_domain [simp]:
  "erased (from_domain r) st = (case r of Inl e \<Rightarrow> Inl (DomainErr e) | Inr a \<Rightarrow> Inr a, st)"
  by (cases r) (simp_all add: erased_def)

lemma erased_record [simp]: "erased (record_storage_op n m) = erased m"
  by (rule ext) (simp add: erased_def record_storage_op_def Let_def split: prod.split)

lemma erased_if [simp]: "erased (if c then m else m') = (if c then erased m else erased m')"
  by simp

lemma erased_case_option [simp]:
  "erased (case x of None \<Rightarrow> m | Some v \<Rightarrow> f v) = (case x of None \<Rightarrow> erased m | Some v \<Rightarrow> erased (f v))"
  by (cases x) simp_all

lemma erased_get: "erased (m_get S b k) st = (fjall_get S st b k, st)"
  by (simp add: m_get_def fjall_get_def Let_def split: sum.split option.split)

lemma erased_put_entry: "erased (m_put_entry S sk raw ex) st = put_entry S st sk raw ex"
  by (cases ex) (simp_all add: m_put_entry_def put_entry_def Let_def)

lemma erased_set: "erased (m_set S b k v ex) st = fjall_set S st b k v ex"
  by (simp add: m_set_def fjall_set_def Let_def erased_put_entry split: sum.split)

lemma erased_delete: "erased (m_delete S b k) st = fjall_delete S st b k"
  by (simp add: m_delete_def fjall_delete_def Let_def split: sum.split prod.split)

lemma erased_current: "erased (m_current S now cur) st = (current_value S now cur, st)"
  by (auto simp: m_current_def current_value_def split: sum.split option.split)

lemma erased_increment: "erased (m_increment S now b k op ex) st = fjall_increment S st now b k op ex"
  by (simp add: m_increment_def fjall_increment_def Let_def erased_current erased_put_entry split: sum.split prod.split)

lemma erased_batch_item: "erased (m_batch_item S b op) st = (batch_item_of S b op, st)"
  by (cases op) (simp_all add: Let_def split: sum.split)

lemma erased_batch_items: "erased (m_batch_items S b ops) st = (batch_items S b ops, st)"
  by (induction ops arbitrary: st) (simp_all add: erased_batch_item split: sum.split)

lemma erased_apply_batch: "erased (m_apply_batch S b ops) st = fjall_apply_batch S st b ops"
  by (simp add: m_apply_batch_def fjall_apply_batch_def erased_batch_items Let_def split: sum.split prod.split)

lemma erased_list_row: "erased (m_list_row S b opts g) st = (list_row S b opts g, st)"
  by (auto simp: m_list_row_def list_row_def split: sum.split option.split prod.split)

lemma erased_list_forward:
  "erased (m_list_forward S b opts skip taken out gs) st = (list_forward S b opts skip taken out gs, st)"
  by (induction gs arbitrary: skip taken out) (simp_all add: erased_list_row split: sum.split option.split)

lemma erased_list_reverse:
  "erased (m_list_reverse S b opts window dq gs) st = (list_reverse S b opts window dq gs, st)"
  by (induction gs arbitrary: dq) (simp_all add: erased_list_row split: sum.split option.split)

lemma erased_ping: "erased (m_ping_metadata S) st = (fjall_ping_metadata S False st, st)"
  by (simp add: m_ping_metadata_def fjall_ping_metadata_def split: sum.split)

lemma erased_get_policy: "erased (m_get_policy S J b) st = (fjall_get_policy S J st b, st)"
  by (simp add: m_get_policy_def fjall_get_policy_def split: sum.split option.split)

lemma erased_create_bucket: "erased (m_create_bucket S J b p) st = fjall_create_bucket S J st b p"
  by (simp add: m_create_bucket_def fjall_create_bucket_def split: sum.split)

lemma erased_delete_bucket: "erased (m_delete_bucket S b) st = fjall_delete_bucket S st b"
  by (simp add: m_delete_bucket_def fjall_delete_bucket_def)

section \<open>Each storage error is recorded once\<close>

definition ERROR_KINDS :: "string set" where
  "ERROR_KINDS = {''backend'', ''adapter'', ''codec_policy'', ''codec_entry''}"

text \<open>The series of one result: one of the error series for a storage error, none otherwise.\<close>

fun error_log :: "(use_case_error + 'a) \<Rightarrow> series list \<Rightarrow> bool" where
  "error_log (Inl (Storage m)) l = (\<exists>kd \<in> ERROR_KINDS. l = [error_series kd])"
| "error_log _ l = (l = [])"

definition counts_errors :: "('st, 'a) metered \<Rightarrow> bool" where
  "counts_errors m \<longleftrightarrow> (\<forall>st. let (r, _, l) = m st in error_log r l)"

named_theorems counting

lemma error_log_Inr [simp]: "error_log (Inr a) l \<longleftrightarrow> l = []"
  by simp

lemma error_log_cong: "error_log (Inl e :: use_case_error + 'a) l \<Longrightarrow> error_log (Inl e :: use_case_error + 'b) l"
  by (cases e) auto

lemma counts_done [counting]: "counts_errors (done_with a)"
  by (simp add: counts_errors_def done_with_def)

lemma counts_try [counting]:
  assumes "counts_errors m" and "\<And>a. counts_errors (f a)"
  shows "counts_errors (try_then m f)"
  unfolding counts_errors_def
proof
  fix st
  obtain r st' l where m: "m st = (r, st', l)" by (metis prod_cases3)
  then have l: "error_log r l" using assms(1) by (auto simp: counts_errors_def dest: spec [of _ st])
  show "let (r, _, l) = try_then m f st in error_log r l"
  proof (cases r)
    case (Inl e)
    then show ?thesis using m l error_log_cong by (simp add: try_then_def)
  next
    case (Inr a)
    obtain r' st'' l' where "f a st' = (r', st'', l')" by (metis prod_cases3)
    moreover have "error_log r' l'" using assms(2) [of a] calculation by (auto simp: counts_errors_def dest: spec [of _ st'])
    ultimately show ?thesis using Inr m l by (simp add: try_then_def)
  qed
qed

lemma kind_label_kinds: "kind_label e \<in> ERROR_KINDS"
  by (cases e) (simp_all add: ERROR_KINDS_def)

lemma from_fjall_log: "case from_fjall r st of (q, _, l) \<Rightarrow> error_log q l"
  by (cases r) (auto simp: use_case_of_fjall_def intro: kind_label_kinds)

lemma counts_from_fjall [counting]: "counts_errors (from_fjall r)"
  by (simp add: counts_errors_def from_fjall_log)

lemma counts_from_codec [counting]: "counts_errors (from_codec r)"
proof (cases r)
  case (Inl e)
  then show ?thesis by (cases e) (auto simp: counts_errors_def ERROR_KINDS_def)
qed (simp add: counts_errors_def)

lemma counts_from_domain [counting]: "counts_errors (from_domain r)"
  by (cases r) (simp_all add: counts_errors_def)

lemma counts_reads [counting]: "counts_errors (reads f)"
  and counts_writes [counting]: "counts_errors (writes f')"
  and counts_guarded [counting]: "counts_errors (guarded lock)"
  by (simp_all add: counts_errors_def reads_def writes_def guarded_def Let_def from_fjall_log split: prod.split)
    (metis from_fjall_log case_prod_conv)+

lemma counts_put_entry [counting]: "counts_errors (m_put_entry S sk raw ex)"
  by (cases ex) (simp_all add: m_put_entry_def counting)

lemma counts_current [counting]: "counts_errors (m_current S now cur)"
  by (cases cur) (auto simp: m_current_def intro!: counting)

lemma counts_batch_item [counting]: "counts_errors (m_batch_item S b op)"
  by (cases op) (auto simp: Let_def intro!: counting)

lemma counts_batch_items [counting]: "counts_errors (m_batch_items S b ops)"
  by (induction ops) (auto intro!: counting)

lemma counts_list_row [counting]: "counts_errors (m_list_row S b opts g)"
  by (auto simp: m_list_row_def intro!: counting split: option.split)

lemma counts_list_forward [counting]: "counts_errors (m_list_forward S b opts skip taken out gs)"
  by (induction gs arbitrary: skip taken out) (auto intro!: counting split: option.split)

lemma counts_list_reverse [counting]: "counts_errors (m_list_reverse S b opts window dq gs)"
  by (induction gs arbitrary: dq) (auto intro!: counting split: option.split)

section \<open>Calls and their counters\<close>

datatype store_call =
    CallPing
  | CallGetPolicy bucket_id
  | CallCreateBucket bucket_id bucket_policy
  | CallDeleteBucket bucket_id
  | CallGet bucket_id key
  | CallSet bucket_id key stored_value "instant option"
  | CallDelete bucket_id key
  | CallList bucket_id list_opts
  | CallIncrement instant bucket_id key counter_op "instant option"
  | CallBatch bucket_id "txn_op list"

text \<open>The name an operation is recorded under, if it is.\<close>

fun op_name :: "store_call \<Rightarrow> string option" where
  "op_name CallPing = Some ''ping_metadata''"
| "op_name (CallGet _ _) = Some ''get''"
| "op_name (CallSet _ _ _ _) = Some ''set''"
| "op_name (CallDelete _ _) = Some ''delete''"
| "op_name (CallList _ _) = Some ''list''"
| "op_name (CallIncrement _ _ _ _ _) = Some ''increment''"
| "op_name (CallBatch _ _) = Some ''apply_batch''"
| "op_name _ = None"

text \<open>What is left of a result: whether it panicked, and the error.\<close>

fun error_of :: "(use_case_error + 'a) \<Rightarrow> use_case_error option" where
  "error_of (Inl e) = Some e"
| "error_of (Inr _) = None"

type_synonym outcome = "use_case_error option run"

definition plain :: "(use_case_error + 'a) \<times> 'st \<Rightarrow> outcome \<times> 'st" where
  "plain c = (Done (error_of (fst c)), snd c)"

fun plain_call :: "'db store_env \<Rightarrow> policy_json \<Rightarrow> store_call \<Rightarrow> 'db store \<Rightarrow> outcome \<times> 'db store" where
  "plain_call S J CallPing st = plain (fjall_ping_metadata S False st, st)"
| "plain_call S J (CallGetPolicy b) st = plain (fjall_get_policy S J st b, st)"
| "plain_call S J (CallCreateBucket b p) st = plain (fjall_create_bucket S J st b p)"
| "plain_call S J (CallDeleteBucket b) st = plain (fjall_delete_bucket S st b)"
| "plain_call S J (CallGet b k) st = plain (fjall_get S st b k, st)"
| "plain_call S J (CallSet b k v ex) st = plain (fjall_set S st b k v ex)"
| "plain_call S J (CallDelete b k) st = plain (fjall_delete S st b k)"
| "plain_call S J (CallList b opts) st =
     (case fjall_list S st b opts of Done r \<Rightarrow> plain (r, st) | Panicked \<Rightarrow> (Panicked, st))"
| "plain_call S J (CallIncrement now b k op ex) st = plain (fjall_increment S st now b k op ex)"
| "plain_call S J (CallBatch b ops) st = plain (fjall_apply_batch S st b ops)"

definition metered :: "(use_case_error + 'a) \<times> 'st \<times> series list \<Rightarrow> outcome \<times> 'st \<times> series list" where
  "metered c = (Done (error_of (fst c)), snd c)"

fun metered_call :: "'db store_env \<Rightarrow> policy_json \<Rightarrow> store_call \<Rightarrow> 'db store \<Rightarrow> outcome \<times> 'db store \<times> series list" where
  "metered_call S J CallPing st = metered (m_ping_metadata S st)"
| "metered_call S J (CallGetPolicy b) st = metered (m_get_policy S J b st)"
| "metered_call S J (CallCreateBucket b p) st = metered (m_create_bucket S J b p st)"
| "metered_call S J (CallDeleteBucket b) st = metered (m_delete_bucket S b st)"
| "metered_call S J (CallGet b k) st = metered (m_get S b k st)"
| "metered_call S J (CallSet b k v ex) st = metered (m_set S b k v ex st)"
| "metered_call S J (CallDelete b k) st = metered (m_delete S b k st)"
| "metered_call S J (CallList b opts) st =
     (case m_list S b opts st of Done c \<Rightarrow> metered c | Panicked \<Rightarrow> (Panicked, st, []))"
| "metered_call S J (CallIncrement now b k op ex) st = metered (m_increment S now b k op ex st)"
| "metered_call S J (CallBatch b ops) st = metered (m_apply_batch S b ops st)"

fun storage_failure :: "outcome \<Rightarrow> bool" where
  "storage_failure (Done (Some (Storage _))) = True"
| "storage_failure _ = False"

text \<open>The series of \<open>record_storage_op\<close> that a call with this outcome leaves.\<close>

fun op_log :: "store_call \<Rightarrow> outcome \<Rightarrow> series list" where
  "op_log c Panicked = []"
| "op_log c (Done err) =
     (case op_name c of
        None \<Rightarrow> []
      | Some n \<Rightarrow> [op_series n (if err = None then ''ok'' else ''err'')])"

definition call_log :: "store_call \<Rightarrow> outcome \<Rightarrow> series list \<Rightarrow> bool" where
  "call_log c out l \<longleftrightarrow>
     (\<exists>kinds. l = map error_series kinds @ op_log c out \<and> set kinds \<subseteq> ERROR_KINDS
        \<and> length kinds = (if storage_failure out then 1 else 0))"

lemma error_log_kinds:
  "error_log r l \<Longrightarrow> \<exists>kinds. l = map error_series kinds \<and> set kinds \<subseteq> ERROR_KINDS
     \<and> length kinds = (if storage_failure (Done (error_of r)) then 1 else 0)"
proof (induction r l rule: error_log.induct)
  case (1 m l)
  then obtain kd where "kd \<in> ERROR_KINDS" "l = [error_series kd]" by auto
  then show ?case by (intro exI [of _ "[kd]"]) simp
qed auto

lemma metered_recorded:
  assumes "counts_errors m" and "op_name c = Some n" and "metered (record_storage_op n m st) = (out, st', l)"
  shows "call_log c out l"
proof -
  obtain r st1 l1 where m: "m st = (r, st1, l1)" by (metis prod_cases3)
  then have "error_log r l1" using assms(1) by (auto simp: counts_errors_def dest: spec [of _ st])
  moreover have "op_log c (Done (error_of r)) = [op_series n (storage_op_label r)]"
    using assms(2) by (cases r) (simp_all add: storage_op_label_def)
  ultimately show ?thesis
    using error_log_kinds [of r l1] assms(3) m
    by (auto simp: metered_def record_storage_op_def call_log_def)
qed

lemma metered_unrecorded:
  assumes "counts_errors m" and "op_name c = None" and "metered (m st) = (out, st', l)"
  shows "call_log c out l"
proof -
  obtain r st1 l1 where m: "m st = (r, st1, l1)" by (metis prod_cases3)
  then have "error_log r l1" using assms(1) by (auto simp: counts_errors_def dest: spec [of _ st])
  then show ?thesis
    using error_log_kinds [of r l1] assms(2,3) m by (auto simp: metered_def call_log_def)
qed

lemma metered_list_log:
  assumes "metered_call S J (CallList b opts) st = (out, st', l)"
  shows "call_log (CallList b opts) out l"
proof (cases "m_list S b opts st")
  case (Done c)
  then obtain m where "counts_errors m" and "c = record_storage_op ''list'' m st"
    by (auto simp: m_list_def Let_def intro: counting split: if_splits)
  then show ?thesis using metered_recorded [of m "CallList b opts" "''list''" st out st' l] assms Done by simp
qed (use assms in \<open>simp add: call_log_def\<close>)

lemma metered_call_log:
  assumes "metered_call S J c st = (out, st', l)"
  shows "call_log c out l"
  using assms
proof (cases c)
  case (CallList b opts)
  then show ?thesis using metered_list_log assms by blast
next
  case (CallGetPolicy b)
  have "counts_errors (m_get_policy S J b)" by (auto simp: m_get_policy_def intro!: counting split: option.split)
  then show ?thesis using CallGetPolicy assms metered_unrecorded by fastforce
next
  case (CallCreateBucket b p)
  have "counts_errors (m_create_bucket S J b p)" by (auto simp: m_create_bucket_def intro!: counting)
  then show ?thesis using CallCreateBucket assms metered_unrecorded by fastforce
next
  case (CallDeleteBucket b)
  have "counts_errors (m_delete_bucket S b)" by (auto simp: m_delete_bucket_def intro!: counting)
  then show ?thesis using CallDeleteBucket assms metered_unrecorded by fastforce
qed (auto simp: m_ping_metadata_def m_get_def m_set_def m_delete_def m_increment_def m_apply_batch_def Let_def
    intro!: counting elim!: metered_recorded [rotated 2] split: option.split)

section \<open>A run of calls\<close>

fun metered_run ::
  "'db store_env \<Rightarrow> policy_json \<Rightarrow> store_call list \<Rightarrow> 'db store \<Rightarrow> outcome list \<times> 'db store \<times> series list" where
  "metered_run S J [] st = ([], st, [])"
| "metered_run S J (c # cs) st =
     (let (out, st', l) = metered_call S J c st; (outs, st'', l') = metered_run S J cs st' in (out # outs, st'', l @ l'))"

fun plain_run :: "'db store_env \<Rightarrow> policy_json \<Rightarrow> store_call list \<Rightarrow> 'db store \<Rightarrow> outcome list \<times> 'db store" where
  "plain_run S J [] st = ([], st)"
| "plain_run S J (c # cs) st =
     (let (out, st') = plain_call S J c st; (outs, st'') = plain_run S J cs st' in (out # outs, st''))"

lemma metered_plain:
  "metered (m st) = (out, st', l) \<Longrightarrow> plain (erased m st) = (out, st')"
  by (auto simp: metered_def plain_def erased_def Let_def split: prod.splits)

lemma metered_record_plain:
  "metered (record_storage_op n m st) = (out, st', l) \<Longrightarrow> plain (erased m st) = (out, st')"
  using metered_plain [of "record_storage_op n m" st out st' l] by simp

lemma metered_call_plain:
  assumes "metered_call S J c st = (out, st', l)"
  shows "plain_call S J c st = (out, st')"
proof (cases c)
  case (CallList b opts)
  then show ?thesis
    using assms
    by (auto simp: m_list_def fjall_list_def Let_def erased_list_forward erased_list_reverse
        dest!: metered_record_plain split: if_splits)
qed (use assms in \<open>auto simp: erased_ping erased_get_policy erased_create_bucket erased_delete_bucket erased_get
    erased_set erased_delete erased_increment erased_apply_batch dest!: metered_plain\<close>)

text \<open>The number of times a series with this property was recorded.\<close>

definition recorded :: "(series \<Rightarrow> bool) \<Rightarrow> series list \<Rightarrow> nat" where
  "recorded P l = length (filter P l)"

definition is_error :: "series \<Rightarrow> bool" where
  "is_error s \<longleftrightarrow> fst s = ''storage_errors_total''"

text \<open>A call that is counted under this name and label.\<close>

definition counts_as :: "string \<Rightarrow> string \<Rightarrow> store_call \<times> outcome \<Rightarrow> bool" where
  "counts_as n label x \<longleftrightarrow>
     op_name (fst x) = Some n \<and> (\<exists>err. snd x = Done err \<and> label = (if err = None then ''ok'' else ''err''))"

lemma bs_inj [simp]: "bs s = bs t \<longleftrightarrow> s = t"
proof -
  have "unat (of_char c :: 8 word) = of_char c" for c
  proof -
    have "unat (of_nat (of_char c) :: 8 word) = of_char c" by (simp add: unat_of_nat)
    then show ?thesis by (simp only: of_nat_of_char)
  qed
  then have "inj (of_char :: char \<Rightarrow> 8 word)" by (metis injI of_char_eq_iff)
  then show ?thesis by (auto simp: bs_def inj_map_eq_map)
qed

lemma op_series_eq: "op_series n lb = op_series n' lb' \<longleftrightarrow> n = n' \<and> lb = lb'"
  by (simp add: op_series_def)

lemma op_series_not_error [simp]: "\<not> is_error (op_series n lb)" "error_series kd \<noteq> op_series n lb"
  by (simp_all add: is_error_def op_series_def error_series_def)

lemma error_series_is_error [simp]: "is_error (error_series kd)"
  by (simp add: is_error_def error_series_def)

lemma call_log_counts:
  assumes "call_log c out l"
  shows "recorded is_error l = (if storage_failure out then 1 else 0)"
    and "recorded (\<lambda>s. s = op_series n label) l = (if counts_as n label (c, out) then 1 else 0)"
    and "list_all (\<lambda>s. s \<in> error_series ` ERROR_KINDS) (filter is_error l)"
    and "list_all (described CounterMetric) l"
proof -
  obtain kinds where l: "l = map error_series kinds @ op_log c out" and k: "set kinds \<subseteq> ERROR_KINDS"
    and len: "length kinds = (if storage_failure out then 1 else 0)"
    using assms by (auto simp: call_log_def)
  have errors: "filter is_error (map error_series kinds) = map error_series kinds"
    "filter (\<lambda>s. s = op_series n label) (map error_series kinds) = []" by (induction kinds) simp_all
  have op: "filter is_error (op_log c out) = []"
    "recorded (\<lambda>s. s = op_series n label) (op_log c out) = (if counts_as n label (c, out) then 1 else 0)"
    by (cases out; auto simp: recorded_def counts_as_def op_series_eq split: option.split)+
  show "recorded is_error l = (if storage_failure out then 1 else 0)"
    using l errors op len by (simp add: recorded_def)
  show "recorded (\<lambda>s. s = op_series n label) l = (if counts_as n label (c, out) then 1 else 0)"
    using l errors op by (simp add: recorded_def)
  show "list_all (\<lambda>s. s \<in> error_series ` ERROR_KINDS) (filter is_error l)"
    using l errors op k by (auto simp: list_all_iff)
  have "described CounterMetric (error_series kd)" "described CounterMetric (op_series m lb)" for kd m lb
    by (auto simp: described_def describe_all_def error_series_def op_series_def)
  then show "list_all (described CounterMetric) l"
    using l by (cases out) (auto simp: list_all_iff split: option.splits)
qed

lemma metered_run_counts:
  "metered_run S J cs st = (outs, st', l) \<Longrightarrow>
     plain_run S J cs st = (outs, st')
     \<and> recorded is_error l = length (filter storage_failure outs)
     \<and> recorded (\<lambda>s. s = op_series n label) l = length (filter (counts_as n label) (zip cs outs))
     \<and> list_all (\<lambda>s. s \<in> error_series ` ERROR_KINDS) (filter is_error l)
     \<and> list_all (described CounterMetric) l"
proof (induction cs arbitrary: st outs l)
  case (Cons c cs)
  obtain out st1 l1 where one: "metered_call S J c st = (out, st1, l1)" by (metis prod_cases3)
  obtain outs2 l2 where rest: "metered_run S J cs st1 = (outs2, st', l2)" and outs: "outs = out # outs2" and l: "l = l1 @ l2"
    using Cons.prems one by (auto simp: Let_def split: prod.splits)
  note first = call_log_counts [OF metered_call_log [OF one]]
  have "recorded P l = recorded P l1 + recorded P l2" for P using l by (simp add: recorded_def)
  then show ?case
    using Cons.IH [OF rest] first metered_call_plain [OF one] outs l by simp
qed (simp add: recorded_def)

section \<open>The sweep\<close>

definition gc_series :: series where "gc_series = (''gc_keys_expired_total'', [])"

definition sweep_log :: "gc_stats \<Rightarrow> series list" where
  "sweep_log stats = (if 0 < keys_removed stats then replicate (keys_removed stats) gc_series else [])"

definition metered_sweep :: "'db store_env \<Rightarrow> instant \<Rightarrow> 'db store \<Rightarrow> 'db store \<times> series list" where
  "metered_sweep S now st = (let (stats, st') = sweep_keyspace S now st in (st', sweep_log stats))"

lemma sweep_log_length [simp]: "length (sweep_log stats) = keys_removed stats"
  by (simp add: sweep_log_def)

lemma drop_entry_outcome:
  assumes "gc_drop_entry S now_ts ts sk stats st = (stats', st')"
    and "fj_remove (sv_fjall S) (st_db st) DATA_KEYSPACE sk = (q, db')"
  shows "st' = st \<and> stats' = stats \<or>
    (\<exists>v. fj_get (sv_fjall S) (st_db st) DATA_KEYSPACE sk = Inr (Some v)) \<and> st' = st\<lparr>st_db := db'\<rparr>
      \<and> keys_removed stats' = keys_removed stats + (if isl q then 0 else 1)"
proof (cases "\<exists>v t. fj_get (sv_fjall S) (st_db st) DATA_KEYSPACE sk = Inr (Some v)
    \<and> decode_entry_expires_unix (sv_codec S) v = Inr (Some t)")
  case True
  then show ?thesis using assms by (cases q) (auto simp: gc_drop_entry_def split: if_splits)
next
  case False
  then show ?thesis using assms(1) by (simp add: gc_drop_entry_def split: sum.splits option.splits)
qed

context fjall_store
begin

abbreviation stored_keys where "stored_keys st \<equiv> dom (contents_of st DATA_KEYSPACE)"

text \<open>A step counts at most the entries it removes, and exactly those when no removal fails.\<close>

lemma drop_entry_counted:
  assumes "gc_drop_entry S now_ts ts sk stats st = (stats', st')" and "finite (stored_keys st)"
  shows "keys_removed stats' + card (stored_keys st') \<le> keys_removed stats + card (stored_keys st)
    \<and> (reliable (sv_fjall S) \<longrightarrow>
         keys_removed stats' + card (stored_keys st') = keys_removed stats + card (stored_keys st))
    \<and> finite (stored_keys st')"
proof -
  obtain q db' where rm: "fj_remove (sv_fjall S) (st_db st) DATA_KEYSPACE sk = (q, db')" by fastforce
  consider (same) "st' = st" "stats' = stats"
    | (removed) v where "fj_get (sv_fjall S) (st_db st) DATA_KEYSPACE sk = Inr (Some v)" "q = Inr ()"
        "st' = st\<lparr>st_db := db'\<rparr>" "keys_removed stats' = keys_removed stats + 1"
    | (failed) e where "q = Inl e" "st' = st\<lparr>st_db := db'\<rparr>" "keys_removed stats' = keys_removed stats"
    using drop_entry_outcome [OF assms(1) rm] by (cases q) auto
  then show ?thesis
  proof cases
    case removed
    have sk: "sk \<in> stored_keys st" using db.get_Inr [OF removed(1), symmetric] by auto
    have st': "stored_keys st' = stored_keys st - {sk}" using db.remove_Inr [OF rm [unfolded removed(2)]] removed(3) by auto
    have "Suc (card (stored_keys st')) = card (stored_keys st)" unfolding st' by (rule card_Suc_Diff1 [OF assms(2) sk])
    moreover have "finite (stored_keys st')" unfolding st' using assms(2) by (rule finite_Diff)
    ultimately show ?thesis using removed(4) by linarith
  next
    case failed
    then have sub: "stored_keys st' \<subseteq> stored_keys st" using db.remove_Inl [OF rm [unfolded failed(1)]] by (auto split: if_splits)
    have "\<not> reliable (sv_fjall S)"
      using rm failed(1) unfolding reliable_def by (metis Inl_Inr_False prod.inject)
    then show ?thesis using failed(3) card_mono [OF assms(2) sub] finite_subset [OF sub assms(2)] by simp
  qed (use assms(2) in simp)
qed

definition counted_removals :: "gc_stats \<Rightarrow> 'db store \<Rightarrow> gc_stats \<Rightarrow> 'db store \<Rightarrow> bool" where
  "counted_removals stats st stats' st' \<longleftrightarrow>
     keys_removed stats' + card (stored_keys st') \<le> keys_removed stats + card (stored_keys st)
     \<and> (reliable (sv_fjall S) \<longrightarrow>
          keys_removed stats' + card (stored_keys st') = keys_removed stats + card (stored_keys st))
     \<and> finite (stored_keys st')"

lemma gc_step_counted:
  assumes "gc_step S now_ts g stats st = (flow, stats', st')" and "finite (stored_keys st)"
  shows "counted_removals stats st stats' st'"
proof (cases "\<exists>u w ts sk i. g = Inr (u, w) \<and> parse_expiry_index_key u = Some (ts, sk) \<and> \<not> sint now_ts < sint ts
    \<and> lock_for (sv_hash S) (st_poisoned st) sk = Inr i")
  case True
  then obtain u w ts sk i where g: "g = Inr (u, w)" "parse_expiry_index_key u = Some (ts, sk)"
    "\<not> sint now_ts < sint ts" "lock_for (sv_hash S) (st_poisoned st) sk = Inr i" by blast
  obtain q db' where rm: "fj_remove (sv_fjall S) (st_db st) EXPIRY_KEYSPACE u = (q, db')" by fastforce
  then have same: "stored_keys (st\<lparr>st_db := db'\<rparr>) = stored_keys st"
    using db.remove_cases [OF rm] by auto
  show ?thesis
  proof (cases q)
    case (Inl e)
    then show ?thesis
      using assms g rm same by (auto simp: gc_step_def Let_def counted_removals_def)
  next
    case (Inr v)
    let ?s = "stats\<lparr>expiry_scanned := expiry_scanned stats + 1, expiry_removed := expiry_removed stats + 1\<rparr>"
    have "gc_drop_entry S now_ts ts sk ?s (st\<lparr>st_db := db'\<rparr>) = (stats', st')"
      using assms(1) g rm Inr by (simp add: gc_step_def Let_def)
    then show ?thesis
      using drop_entry_counted [of now_ts ts sk ?s "st\<lparr>st_db := db'\<rparr>" stats' st'] assms(2) same
      by (simp add: counted_removals_def)
  qed
next
  case False
  then have "st' = st" and "keys_removed stats' = keys_removed stats"
    using assms(1) by (auto simp: gc_step_def Let_def split: sum.splits option.splits if_splits)
  then show ?thesis using assms(2) by (simp add: counted_removals_def)
qed

lemma sweep_loop_counted:
  "sweep_loop S now_ts gs stats st = (stats', st') \<Longrightarrow> finite (stored_keys st) \<Longrightarrow> counted_removals stats st stats' st'"
proof (induction gs arbitrary: stats st)
  case (Cons g gs)
  obtain flow s1 st1 where step: "gc_step S now_ts g stats st = (flow, s1, st1)" by (metis prod_cases3)
  note first = gc_step_counted [OF step Cons.prems(2)]
  show ?case
  proof (cases flow)
    case Continue
    then have "counted_removals s1 st1 stats' st'"
      using Cons.IH [of s1 st1] Cons.prems(1) step first by (simp add: counted_removals_def)
    then show ?thesis using first by (auto simp: counted_removals_def)
  qed (use Cons.prems(1) step first in simp)
qed (simp add: counted_removals_def)

lemma metered_sweep_counted:
  assumes "metered_sweep S now st = (st', l)" and "finite (stored_keys st)"
  shows "length l + card (stored_keys st') \<le> card (stored_keys st)"
    and "reliable (sv_fjall S) \<Longrightarrow> length l + card (stored_keys st') = card (stored_keys st)"
  using assms sweep_loop_counted
  by (fastforce simp: metered_sweep_def sweep_keyspace_def counted_removals_def Let_def split: prod.splits)+

end

section \<open>Properties\<close>

text \<open>
  C32. The storage counters tell the truth: over any sequence of calls of the store, whatever the database, the
  codecs and the locks do, the series recorded on the way change nothing of the results; the error
  counter grows by exactly the number of calls that return a storage error, under one of the four
  documented kinds; the counter of an operation and result grows by exactly the number of calls
  of that operation that ended so (panics are in neither); and nothing is recorded that the catalog
  does not describe.
\<close>

theorem storage_counters_exact:
  "case metered_run S J cs st of (outs, st', l) \<Rightarrow>
     plain_run S J cs st = (outs, st')
     \<and> recorded is_error l = length (filter storage_failure outs)
     \<and> recorded (\<lambda>s. s = op_series n label) l = length (filter (counts_as n label) (zip cs outs))
     \<and> list_all (\<lambda>s. s \<in> error_series ` ERROR_KINDS) (filter is_error l)
     \<and> list_all (described CounterMetric) l"
proof -
  obtain outs st' l where "metered_run S J cs st = (outs, st', l)" by (metis prod_cases3)
  then show ?thesis using metered_run_counts [of S J cs st outs st' l n label] by simp
qed

text \<open>
  The counter of operations is less than its description says: reading, writing and removing
  policies are storage operations too, and they are not in it.
\<close>

lemma policy_calls_not_counted:
  assumes "metered_call S J c st = (out, st', l)" and "c = CallGetPolicy b \<or> c = CallCreateBucket b p \<or> c = CallDeleteBucket b"
  shows "recorded (\<lambda>s. s = op_series n label) l = 0"
  using call_log_counts(2) [OF metered_call_log [OF assms(1)], of n label] assms(2) by (auto simp: counts_as_def)

end
