(* ===== verification/Cli_Help.thy ===== *)
theory Cli_Help
  imports Cli
begin

text \<open>
  The help texts of \<open>keydock-config/src/cli.rs\<close>, as \<open>println!\<close> writes them: each ends in a line feed of its own and
  the one of the macro.  Shown here: the texts name exactly what the parsers accept, and every
  environment variable the configuration reads.
\<close>

definition printed :: "str list \<Rightarrow> str" where
  "printed lines = concat (map (\<lambda>l. l @ [0x0A]) lines) @ [0x0A]"

text \<open>The dash of the first line is U+2014.\<close>

definition root_help :: str where
  "root_help =
     printed
       [bs ''keydock '' @ [0xE2, 0x80, 0x94] @ bs '' multi-tenant key-value HTTP service'',
        [],
        bs ''Usage:'',
        bs ''  keydock serve [options]'',
        bs ''  keydock init [options] <DIR>'',
        [],
        bs ''Run `keydock serve --help` or `keydock init --help` for details.'']"

definition serve_help_lines :: "string list" where
  "serve_help_lines =
       [''keydock serve'',
        '''',
        ''Options:'',
        ''  -c, --config <PATH>   Path to TOML config file'',
        ''      --listen <ADDR>   Socket address to listen on (overrides config and env)'',
        ''      --data-dir <PATH> Data directory (overrides config and env)'',
        ''      --no-env          Skip KEYDOCK_* environment overrides.'',
        ''                        TOML-declared indirection (root_key = { env/file }) is unaffected.'',
        ''  -h, --help            Show this help'',
        '''',
        ''Environment (applied after config file, before CLI flags; skipped with --no-env):'',
        ''  KEYDOCK_ROOT_KEY                      Root secret (required if not set in TOML)'',
        ''  KEYDOCK_HTTP_LISTEN                   Bind address (e.g. 0.0.0.0:8080)'',
        ''  KEYDOCK_HTTP_METRICS_LISTEN           Dedicated Prometheus scrape address'',
        ''  KEYDOCK_PATHS_DATA_DIR                Data directory path'',
        ''  KEYDOCK_LOG_JSON                      Emit JSON logs (true/false)'',
        ''  KEYDOCK_GC_INTERVAL_SECS              GC sweep interval in seconds'',
        ''  KEYDOCK_RATE_LIMIT_ENABLED            Enable rate limiting (true/false)'',
        ''  KEYDOCK_RATE_LIMIT_REQUESTS_PER_HOUR  Requests per IP per hour'']"

definition serve_help :: str where "serve_help = printed (map bs serve_help_lines)"

definition init_help_lines :: "string list" where
  "init_help_lines =
       [''keydock init'',
        '''',
        ''Creates a new keydock.toml under <DIR> (and <DIR>/data) with default settings and a generated root_key.'',
        '''',
        ''Arguments:'',
        ''  <DIR>                 Instance directory (created if missing)'',
        '''',
        ''Options:'',
        ''      --force           Overwrite an existing keydock.toml'',
        ''  -h, --help            Show this help'']"

definition init_help :: str where "init_help = printed (map bs init_help_lines)"

text \<open>The text behind the name that \<open>CliHelp\<close> carries.\<close>

fun help_text :: "string \<Rightarrow> str" where
  "help_text h = (if h = ''serve'' then serve_help else if h = ''init'' then init_help else root_help)"

text \<open>A text mentions a word when it stands at some place of some line.\<close>

definition stands_at :: "string list \<Rightarrow> string \<Rightarrow> nat \<times> nat \<Rightarrow> bool" where
  "stands_at lines s pos \<longleftrightarrow> fst pos < length lines \<and> take (length s) (drop (snd pos) (lines ! fst pos)) = s"

definition mentions :: "str \<Rightarrow> str \<Rightarrow> bool" where
  "mentions text s \<longleftrightarrow> (\<exists>u v. text = u @ s @ v)"

lemma bs_append: "bs (s @ t) = bs s @ bs t"
  by (simp add: bs_def)

lemma mentions_line: "l \<in> set ls \<Longrightarrow> l = u @ s @ v \<Longrightarrow> mentions (printed ls) s"
proof -
  assume "l \<in> set ls" and l: "l = u @ s @ v"
  then obtain a c where "ls = a @ l # c" by (meson split_list)
  then have "printed ls = (concat (map (\<lambda>l. l @ [0x0A]) a) @ u) @ s
      @ (v @ [0x0A] @ concat (map (\<lambda>l. l @ [0x0A]) c) @ [0x0A])"
    using l by (simp add: printed_def)
  then show ?thesis unfolding mentions_def by blast
qed

lemma stands_mentions: "stands_at lines s pos \<Longrightarrow> mentions (printed (map bs lines)) (bs s)"
proof (rule mentions_line)
  assume *: "stands_at lines s pos"
  let ?l = "lines ! fst pos"
  show "bs ?l \<in> set (map bs lines)" using * by (simp add: stands_at_def)
  have "?l = take (snd pos) ?l @ take (length s) (drop (snd pos) ?l) @ drop (length s) (drop (snd pos) ?l)"
    by (simp only: append_take_drop_id)
  then have "?l = take (snd pos) ?l @ s @ drop (length s) (drop (snd pos) ?l)" using * by (simp add: stands_at_def)
  then show "bs ?l = bs (take (snd pos) ?l) @ bs s @ bs (drop (length s) (drop (snd pos) ?l))"
    by (metis bs_append)
qed

definition serve_options :: "(string \<times> nat \<times> nat) list" where
  "serve_options = [(''config'', 3, 6), (''listen'', 4, 6), (''data-dir'', 5, 6), (''no-env'', 6, 6), (''help'', 8, 6)]"

definition init_options :: "(string \<times> nat \<times> nat) list" where
  "init_options = [(''force'', 8, 6), (''help'', 9, 6)]"

definition env_names :: "(string \<times> nat) list" where
  "env_names =
     [(''KEYDOCK_ROOT_KEY'', 11), (''KEYDOCK_HTTP_LISTEN'', 12), (''KEYDOCK_HTTP_METRICS_LISTEN'', 13),
      (''KEYDOCK_PATHS_DATA_DIR'', 14), (''KEYDOCK_LOG_JSON'', 15), (''KEYDOCK_GC_INTERVAL_SECS'', 16),
      (''KEYDOCK_RATE_LIMIT_ENABLED'', 17), (''KEYDOCK_RATE_LIMIT_REQUESTS_PER_HOUR'', 18)]"

lemma options_stand:
  "list_all (\<lambda>(n, pos). stands_at serve_help_lines (''--'' @ n) pos) serve_options"
  "list_all (\<lambda>(n, pos). stands_at init_help_lines (''--'' @ n) pos) init_options"
  "list_all (\<lambda>(n, i). stands_at serve_help_lines n (i, 2)) env_names"
  by code_simp+

lemma env_mentioned:
  assumes "v \<in> {ENV_ROOT_KEY, ENV_HTTP_LISTEN, ENV_HTTP_METRICS_LISTEN, ENV_PATHS_DATA_DIR, ENV_LOG_JSON,
      ENV_GC_INTERVAL_SECS, ENV_RATE_LIMIT_ENABLED, ENV_RATE_LIMIT_REQUESTS_PER_HOUR}"
  shows "mentions serve_help v"
proof -
  have "{ENV_ROOT_KEY, ENV_HTTP_LISTEN, ENV_HTTP_METRICS_LISTEN, ENV_PATHS_DATA_DIR, ENV_LOG_JSON,
      ENV_GC_INTERVAL_SECS, ENV_RATE_LIMIT_ENABLED, ENV_RATE_LIMIT_REQUESTS_PER_HOUR} = (bs \<circ> fst) ` set env_names"
    by (auto simp: env_names_def ENV_ROOT_KEY_def ENV_HTTP_LISTEN_def ENV_HTTP_METRICS_LISTEN_def
        ENV_PATHS_DATA_DIR_def ENV_LOG_JSON_def ENV_GC_INTERVAL_SECS_def ENV_RATE_LIMIT_ENABLED_def
        ENV_RATE_LIMIT_REQUESTS_PER_HOUR_def)
  then obtain n i where "(n, i) \<in> set env_names" and "v = bs n" using assms by auto
  then show ?thesis using options_stand(3) stands_mentions by (fastforce simp: list_all_iff serve_help_def)
qed

text \<open>What the help does not name, the parser refuses as unexpected.\<close>

lemma unlisted_serve_option:
  "n \<notin> bs ` fst ` set serve_options \<Longrightarrow>
     serve_arg L X p (Long n) args = (CliErr (Parse (lx_unexpected X (Long n))), p)"
  by (simp add: serve_arg_def serve_options_def)

lemma unlisted_init_option:
  "n \<notin> bs ` fst ` set init_options \<Longrightarrow> init_arg X (Long n) st = CliErr (Parse (lx_unexpected X (Long n)))"
  by (simp add: init_arg_def init_options_def)

lemma serve_option_documented:
  assumes "serve_arg L X p (Long n) args = (out, p')" and "out \<noteq> CliErr (Parse (lx_unexpected X (Long n)))"
  shows "mentions serve_help (bs ''--'' @ n)"
proof -
  obtain m pos where m: "(m, pos) \<in> set serve_options" and n: "n = bs m"
    using assms unlisted_serve_option [of n L X p args] by fastforce
  have "stands_at serve_help_lines (''--'' @ m) pos" using bspec [OF options_stand(1) [unfolded list_all_iff] m] by simp
  from stands_mentions [OF this] show ?thesis unfolding serve_help_def n bs_append .
qed

lemma init_option_documented:
  assumes "init_arg X (Long n) st = out" and "out \<noteq> CliErr (Parse (lx_unexpected X (Long n)))"
  shows "mentions init_help (bs ''--'' @ n)"
proof -
  obtain m pos where m: "(m, pos) \<in> set init_options" and n: "n = bs m"
    using assms unlisted_init_option [of n X st] by fastforce
  have "stands_at init_help_lines (''--'' @ m) pos" using bspec [OF options_stand(2) [unfolded list_all_iff] m] by simp
  from stands_mentions [OF this] show ?thesis unfolding init_help_def n bs_append .
qed

end
