(* ===== verification/Testkit.thy ===== *)
theory Testkit
  imports Startup
begin

text \<open>
  The test kit (\<open>keydock-testkit\<close>) and the hooks \<open>FjallStore\<close> has for it: the application under test, the
  requests its helpers send, and the faults it injects.  Shown here: the application under test is
  wired as \<open>serve\<close> wires the real one, so that what holds of a wired server holds of it; the
  helpers send what they say; and the injected faults surface where the tests expect them.
\<close>

section \<open>Buckets\<close>

record bucket_setup =
  bs_email :: str
  bs_secret_key :: "str option"
  bs_read_key :: "str option"
  bs_write_key :: "str option"
  bs_signing_key :: "str option"
  bs_default_ttl :: "u64 option"

definition default_bucket_setup :: bucket_setup where
  "default_bucket_setup =
     \<lparr>bs_email = bs ''o@example.com'', bs_secret_key = None, bs_read_key = None, bs_write_key = None,
      bs_signing_key = None, bs_default_ttl = None\<rparr>"

definition setup_public :: bucket_setup where "setup_public = default_bucket_setup"

definition setup_admin :: "str \<Rightarrow> bucket_setup" where
  "setup_admin secret = default_bucket_setup\<lparr>bs_secret_key := Some secret\<rparr>"

definition setup_read_only :: "str \<Rightarrow> bucket_setup" where
  "setup_read_only read = default_bucket_setup\<lparr>bs_read_key := Some read\<rparr>"

definition setup_write_only :: "str \<Rightarrow> bucket_setup" where
  "setup_write_only write = default_bucket_setup\<lparr>bs_write_key := Some write\<rparr>"

definition setup_restricted :: "str \<Rightarrow> str \<Rightarrow> bucket_setup" where
  "setup_restricted read write = default_bucket_setup\<lparr>bs_read_key := Some read, bs_write_key := Some write\<rparr>"

definition setup_signed :: "str \<Rightarrow> str \<Rightarrow> bucket_setup" where
  "setup_signed secret signing = default_bucket_setup\<lparr>bs_secret_key := Some secret, bs_signing_key := Some signing\<rparr>"

definition setup_signing_only :: "str \<Rightarrow> bucket_setup" where
  "setup_signing_only signing = default_bucket_setup\<lparr>bs_signing_key := Some signing\<rparr>"

text \<open>The form the server reads from the encoded fields: an absent field stays absent.\<close>

definition form_of_setup :: "bucket_setup \<Rightarrow> create_bucket_form" where
  "form_of_setup s =
     \<lparr>cf_email = bs_email s, cf_secret_key = bs_secret_key s, cf_read_key = bs_read_key s,
      cf_write_key = bs_write_key s, cf_signing_key = bs_signing_key s, cf_default_ttl = bs_default_ttl s\<rparr>"

definition FORM_TYPE :: str where "FORM_TYPE = bs ''application/x-www-form-urlencoded''"

definition form_request :: "str \<Rightarrow> str option \<Rightarrow> bytes \<Rightarrow> request" where
  "form_request path bearer body =
     \<lparr>rq_method = POST, rq_path = path, rq_query = None,
      rq_authorization = map_option (\<lambda>t. bs ''Bearer '' @ t) bearer, rq_content_type = Some FORM_TYPE,
      rq_accept = None, rq_body = body\<rparr>"

text \<open>
  \<open>enc\<close> is \<open>serde_urlencoded::to_string\<close> (the address header the limiter needs is left to the framework).  The helper
  panics unless the answer is 200 with a text.
\<close>

definition testkit_create_bucket ::
  "http_lib \<Rightarrow> axum_ops \<Rightarrow> 'st app_state \<Rightarrow> router_options \<Rightarrow> readings \<Rightarrow> (bucket_setup \<Rightarrow> bytes) \<Rightarrow> 'st \<Rightarrow> bucket_setup \<Rightarrow>
     bytes run \<times> 'st" where
  "testkit_create_bucket L X A opts rd enc st setup =
     (case handle_request L X A opts rd st (form_request (bs ''/api/v1'') None (enc setup)) of
        (Done r, st') \<Rightarrow>
          (if rs_status r = 200 then (case rs_body r of BytesBody t \<Rightarrow> Done t | _ \<Rightarrow> Panicked) else Panicked, st')
      | (Panicked, st') \<Rightarrow> (Panicked, st'))"

section \<open>Tokens and policies\<close>

record token_setup =
  tks_prefix :: str
  tks_permissions :: str
  tks_ttl :: i64

definition token_setup_read :: "str \<Rightarrow> i64 \<Rightarrow> token_setup" where
  "token_setup_read pre ttl = \<lparr>tks_prefix = pre, tks_permissions = bs ''read'', tks_ttl = ttl\<rparr>"

definition form_of_token_setup :: "token_setup \<Rightarrow> create_token_form" where
  "form_of_token_setup s = \<lparr>tf_prefix = tks_prefix s, tf_permissions = tks_permissions s, tf_ttl = tks_ttl s\<rparr>"

definition create_token_request :: "(token_setup \<Rightarrow> bytes) \<Rightarrow> str \<Rightarrow> str \<Rightarrow> token_setup \<Rightarrow> request" where
  "create_token_request enc bucket_id bearer setup =
     form_request (bs ''/api/v1/'' @ bucket_id @ bs ''/tokens/'') (Some bearer) (enc setup)"

record policy_patch =
  pp_secret_key :: "json option"
  pp_read_key :: "json option"
  pp_write_key :: "json option"
  pp_signing_key :: "json option"
  pp_default_ttl :: "json option"

definition default_policy_patch :: policy_patch where
  "default_policy_patch =
     \<lparr>pp_secret_key = None, pp_read_key = None, pp_write_key = None, pp_signing_key = None, pp_default_ttl = None\<rparr>"

definition rotate_signing_key :: "str \<Rightarrow> policy_patch" where
  "rotate_signing_key k = default_policy_patch\<lparr>pp_signing_key := Some (JString k)\<rparr>"

definition clear_signing_key :: policy_patch where
  "clear_signing_key = default_policy_patch\<lparr>pp_signing_key := Some JNull\<rparr>"

definition clear_read_key :: policy_patch where
  "clear_read_key = default_policy_patch\<lparr>pp_read_key := Some JNull\<rparr>"

definition clear_write_key :: policy_patch where
  "clear_write_key = default_policy_patch\<lparr>pp_write_key := Some JNull\<rparr>"

text \<open>The JSON of a patch: fields that are \<open>None\<close> are skipped.\<close>

definition patch_json :: "policy_patch \<Rightarrow> json" where
  "patch_json p =
     JObject (concat (map (\<lambda>(name, v). case v of None \<Rightarrow> [] | Some j \<Rightarrow> [(bs name, j)])
       [(''secret_key'', pp_secret_key p), (''read_key'', pp_read_key p), (''write_key'', pp_write_key p),
        (''signing_key'', pp_signing_key p), (''default_ttl'', pp_default_ttl p)]))"

definition patch_policy_request :: "http_lib \<Rightarrow> str \<Rightarrow> str \<Rightarrow> policy_patch \<Rightarrow> request run" where
  "patch_policy_request L bucket_id bearer patch =
     (case hl_json_to_vec L (patch_json patch) of
        None \<Rightarrow> Panicked
      | Some body \<Rightarrow>
          Done \<lparr>rq_method = PATCH, rq_path = bs ''/api/v1/'' @ bucket_id, rq_query = None,
            rq_authorization = Some (bs ''Bearer '' @ bearer), rq_content_type = Some (bs ''application/json''),
            rq_accept = None, rq_body = body\<rparr>)"

text \<open>A token for reading whose time is over, signed with the secret of the bucket.\<close>

definition expired_claims :: "bucket_id \<Rightarrow> instant \<Rightarrow> claims" where
  "expired_claims bucket now =
     \<lparr>c_version = 1, c_bucket = bucket, c_bucket_generation = 0, c_allowed_prefix = [], c_permissions = READ_ONLY,
      c_iat = now - 3600 * nanos, c_exp = now - nanos\<rparr>"

definition mint_expired_read_token :: "crypto_ops \<Rightarrow> instant \<Rightarrow> str \<Rightarrow> str \<Rightarrow> str run" where
  "mint_expired_read_token K now bucket_id signing_secret =
     (case BucketId_new bucket_id of
        Inl _ \<Rightarrow> Panicked
      | Inr bucket \<Rightarrow>
          (case mint K (expired_claims bucket now) signing_secret of Inl _ \<Rightarrow> Panicked | Inr t \<Rightarrow> Done t))"

section \<open>The application under test\<close>

datatype testkit_error = TestkitIo string | TestkitFjall fjall_error | TestkitMetrics string

text \<open>
  The recorder is installed once for the process: \<open>guard\<close> is the handle kept under the mutex, \<open>install\<close> the
  installation.  The flag says whether the metrics were described.
\<close>

definition prometheus_handle :: "string + 'h \<Rightarrow> 'h option \<Rightarrow> (testkit_error + 'h) \<times> 'h option \<times> bool" where
  "prometheus_handle install guard =
     (case guard of
        Some h \<Rightarrow> (Inr h, guard, False)
      | None \<Rightarrow>
          (case install of
             Inl e \<Rightarrow> (Inl (TestkitMetrics e), None, False)
           | Inr h \<Rightarrow> (Inr h, Some h, True)))"

record 'db test_context =
  tc_store :: "'db store"
  tc_app :: "'db store app_state"
  tc_options :: router_options

definition TEST_ROOT_KEY :: bytes where "TEST_ROOT_KEY = bs ''test-root-key-32-bytes-minimum!!''"

definition build_test_app ::
  "('fs, 'db) host_ops \<Rightarrow> 'db store_env \<Rightarrow> policy_json \<Rightarrow> string + path \<Rightarrow> 'fs \<Rightarrow> string + 'h \<Rightarrow> 'h option \<Rightarrow> router_options \<Rightarrow>
     (testkit_error + 'db test_context) \<times> 'h option" where
  "build_test_app H S J tempdir fs install guard opts =
     (case tempdir of
        Inl e \<Rightarrow> (Inl (TestkitIo e), guard)
      | Inr dir \<Rightarrow>
          (case FjallStore_open H fs dir of
             Inl e \<Rightarrow> (Inl (TestkitFjall e), guard)
           | Inr store \<Rightarrow>
               (case prometheus_handle install guard of
                  (Inl e, guard', _) \<Rightarrow> (Inl e, guard')
                | (Inr _, guard', _) \<Rightarrow>
                    (Inr \<lparr>tc_store = store,
                       tc_app = AppState_new (bs ''0.1.0-alpha'') (fjall_buckets S J) (fjall_repo S) TEST_ROOT_KEY,
                       tc_options = opts\<rparr>, guard'))))"

definition TestContext_new ::
  "('fs, 'db) host_ops \<Rightarrow> 'db store_env \<Rightarrow> policy_json \<Rightarrow> string + path \<Rightarrow> 'fs \<Rightarrow> string + 'h \<Rightarrow> 'h option \<Rightarrow>
     'db test_context run \<times> 'h option" where
  "TestContext_new H S J tempdir fs install guard =
     (case build_test_app H S J tempdir fs install guard default_router_options of
        (Inl e, guard') \<Rightarrow> (Panicked, guard')
      | (Inr ctx, guard') \<Rightarrow> (Done ctx, guard'))"

text \<open>With its own options; the limiter's threshold is set first when it is enabled.\<close>

definition with_router_options ::
  "('fs, 'db) host_ops \<Rightarrow> 'db store_env \<Rightarrow> policy_json \<Rightarrow> string + path \<Rightarrow> 'fs \<Rightarrow> string + 'h \<Rightarrow> 'h option \<Rightarrow> router_options \<Rightarrow>
     32 word option \<times> 'db test_context run \<times> 'h option" where
  "with_router_options H S J tempdir fs install guard opts =
     (if rs_enabled (ro_rate_limit opts) then init_rate_limiter (ro_rate_limit opts) else None,
      case build_test_app H S J tempdir fs install guard opts of
        (Inl e, guard') \<Rightarrow> (Panicked, guard')
      | (Inr ctx, guard') \<Rightarrow> (Done ctx, guard'))"

section \<open>Helpers and faults\<close>

text \<open>The requests of a context go through its router.\<close>

definition send ::
  "http_lib \<Rightarrow> axum_ops \<Rightarrow> 'db test_context \<Rightarrow> readings \<Rightarrow> 'db store \<Rightarrow> request \<Rightarrow> response run \<times> 'db store" where
  "send L X ctx rd st req = handle_request L X (tc_app ctx) (tc_options ctx) rd st req"

definition testkit_create_token ::
  "http_lib \<Rightarrow> axum_ops \<Rightarrow> 'db test_context \<Rightarrow> readings \<Rightarrow> (token_setup \<Rightarrow> bytes) \<Rightarrow> 'db store \<Rightarrow> str \<Rightarrow> str \<Rightarrow> token_setup \<Rightarrow>
     response run \<times> 'db store" where
  "testkit_create_token L X ctx rd enc st bucket_id bearer setup =
     send L X ctx rd st (create_token_request enc bucket_id bearer setup)"

definition testkit_patch_policy ::
  "http_lib \<Rightarrow> axum_ops \<Rightarrow> 'db test_context \<Rightarrow> readings \<Rightarrow> 'db store \<Rightarrow> str \<Rightarrow> str \<Rightarrow> policy_patch \<Rightarrow>
     response run \<times> 'db store" where
  "testkit_patch_policy L X ctx rd st bucket_id bearer patch =
     (case patch_policy_request L bucket_id bearer patch of
        Panicked \<Rightarrow> (Panicked, st)
      | Done req \<Rightarrow> send L X ctx rd st req)"

definition metrics_request :: request where
  "metrics_request =
     \<lparr>rq_method = GET, rq_path = bs ''/metrics'', rq_query = None, rq_authorization = None,
      rq_content_type = None, rq_accept = None, rq_body = []\<rparr>"

definition render_metrics :: "http_lib \<Rightarrow> axum_ops \<Rightarrow> 'db test_context \<Rightarrow> readings \<Rightarrow> 'db store \<Rightarrow> bytes run \<times> 'db store" where
  "render_metrics L X ctx rd st =
     (case send L X ctx rd st metrics_request of
        (Done r, st') \<Rightarrow> (case rs_body r of BytesBody t \<Rightarrow> Done t | _ \<Rightarrow> Panicked, st')
      | (Panicked, st') \<Rightarrow> (Panicked, st'))"

definition basic_auth_header :: "(bytes \<Rightarrow> str) \<Rightarrow> str \<Rightarrow> str" where
  "basic_auth_header b64_encode credential = bs ''Basic '' @ b64_encode (credential @ bs '':ignored'')"

definition api_error_body_json :: "nat \<Rightarrow> str \<Rightarrow> json" where
  "api_error_body_json code message =
     JObject [(bs ''error'', JObject [(bs ''code'', JInt (int code)), (bs ''message'', JString message)])]"

definition testkit_write_raw :: "'db store_env \<Rightarrow> 'db store \<Rightarrow> bucket_id \<Rightarrow> key \<Rightarrow> bytes \<Rightarrow> (fjall_error + unit) \<times> 'db store" where
  "testkit_write_raw S st bucket k raw =
     (let (r, db) = fj_insert (sv_fjall S) (st_db st) DATA_KEYSPACE (data_storage_key bucket k) raw
      in (fjall_result r, st\<lparr>st_db := db\<rparr>))"

definition corrupt_entry :: "'db store_env \<Rightarrow> 'db store \<Rightarrow> bucket_id \<Rightarrow> key \<Rightarrow> unit run \<times> 'db store" where
  "corrupt_entry S st bucket k =
     (case testkit_write_raw S st bucket k [0xFF, 0xFF, 0xFF, 0xFF] of
        (Inl _, st') \<Rightarrow> (Panicked, st')
      | (Inr _, st') \<Rightarrow> (Done (), st'))"

text \<open>The switch makes the ping of the bucket repository fail.\<close>

definition testkit_set_fail_ping_metadata :: "'db store_env \<Rightarrow> bool \<Rightarrow> 'db test_context \<Rightarrow> 'db test_context" where
  "testkit_set_fail_ping_metadata S fail ctx =
     ctx\<lparr>tc_app := (tc_app ctx)\<lparr>st_buckets := (st_buckets (tc_app ctx))\<lparr>br_ping := fjall_ping_metadata S fail\<rparr>\<rparr>\<rparr>"

section \<open>The application under test is the server\<close>

lemma build_test_app_Inr:
  assumes "build_test_app H S J tempdir fs install guard opts = (Inr ctx, guard')"
  obtains dir h where "tempdir = Inr dir" and "FjallStore_open H fs dir = Inr (tc_store ctx)" and "guard' = Some h"
    and "tc_app ctx = AppState_new (bs ''0.1.0-alpha'') (fjall_buckets S J) (fjall_repo S) TEST_ROOT_KEY"
    and "tc_options ctx = opts"
  using assms
  by (auto simp: build_test_app_def prometheus_handle_def split: sum.splits option.splits prod.splits)

text \<open>
  Integration tests run against what \<open>serve\<close> assembles: the same application as under a configuration with the
  root key of the tests, over a store that was opened the same way, wired and unpoisoned.
\<close>

lemma test_app_wired:
  assumes "build_test_app H S J tempdir fs install guard opts = (Inr ctx, guard')"
    and "hl_time L = cd_time (sv_codec S)"
  shows "wired S J L (tc_app ctx)" and "st_poisoned (tc_store ctx) = (\<lambda>_. False)"
  using assms
  by (auto elim!: build_test_app_Inr simp: wired_def AppState_new_def dest: FjallStore_open_unpoisoned)

lemma test_app_assembled:
  assumes "build_test_app H S J tempdir fs install guard opts = (Inr ctx, guard')"
    and "expose_bytes (cfg_root_key cfg) = TEST_ROOT_KEY"
  shows "tc_app ctx = rn_app (assemble S J (bs ''0.1.0-alpha'') cfg (tc_store ctx))"
  using assms by (auto elim!: build_test_app_Inr simp: assemble_def)

lemma test_root_key_accepted: "validate_root_key TEST_ROOT_KEY = Inr ()"
  by code_simp

text \<open>The recorder is installed at most once: after a first success every call returns that handle.\<close>

lemma prometheus_handle_once:
  assumes "prometheus_handle install guard = (Inr h, guard', described)"
  shows "prometheus_handle install' guard' = (Inr h, guard', False)" and "described \<longleftrightarrow> guard = None"
  using assms by (auto simp: prometheus_handle_def split: option.splits sum.splits)

section \<open>The helpers send what they say\<close>

lemma no_bearer_in_basic: "bearer_credential (bs ''Basic '' @ x) = None"
  by (simp add: bearer_credential_def strip_prefix_def starts_with_def bs_def)

lemma basic_auth_header_credential:
  assumes "hl_to_str L (basic_auth_header enc c) = Some (basic_auth_header enc c)"
    and "hl_b64_std_decode L (enc (c @ bs '':ignored'')) = Some (c @ bs '':ignored'')"
    and "trim (enc (c @ bs '':ignored'')) = enc (c @ bs '':ignored'')"
    and "from_utf8 (c @ bs '':ignored'') = Some (c @ bs '':ignored'')"
    and "c \<noteq> []" and "0x3A \<notin> set c"
  shows "extract_credential L (Some (basic_auth_header enc c)) query = Some (Basic c)"
proof -
  have b: "bs '':ignored'' = 0x3A # bs ''ignored''" by (simp add: bs_def)
  have "basic_credential L (basic_auth_header enc c) = Some c"
    using assms(2-)
    by (simp add: basic_credential_def basic_auth_header_def strip_prefix_def starts_with_def
        basic_username_credential_def b)
  then show ?thesis
    using assms(1) by (simp add: extract_credential_def) (simp add: basic_auth_header_def no_bearer_in_basic)
qed

lemma api_error_body_matches:
  "api_error_body_json code message = error_body_json \<lparr>ed_code = code, ed_message = message\<rparr>"
  by (simp add: api_error_body_json_def error_body_json_def)

text \<open>The anonymous access of the buckets the setups ask for; a signing key alone leaves the data public.\<close>

definition anonymous_of_form :: "create_bucket_form \<Rightarrow> permission" where
  "anonymous_of_form f =
     anonymous_from_keys (none_if_empty (cf_secret_key f) \<noteq> None) (none_if_empty (cf_read_key f) \<noteq> None)
       (none_if_empty (cf_write_key f) \<noteq> None)"

lemmas setup_defs = setup_public_def setup_admin_def setup_read_only_def setup_write_only_def
  setup_restricted_def setup_signed_def setup_signing_only_def default_bucket_setup_def form_of_setup_def
  anonymous_of_form_def none_if_empty_def anonymous_from_keys_def

lemma setups_anonymous:
  assumes "k \<noteq> []" and "w \<noteq> []"
  shows "anonymous_of_form (form_of_setup (setup_signing_only k)) = anonymous_of_form (form_of_setup setup_public)"
    and "anonymous_of_form (form_of_setup (setup_signed k w)) = anonymous_of_form (form_of_setup (setup_admin k))"
    and "\<not> p_read (anonymous_of_form (form_of_setup (setup_read_only k)))"
    and "\<not> p_write (anonymous_of_form (form_of_setup (setup_write_only k)))"
    and "anonymous_of_form (form_of_setup (setup_restricted k w))
           = \<lparr>p_read = False, p_write = False, p_enumerate = False, p_delete = False\<rparr>"
  using assms by (simp_all add: setup_defs)

text \<open>A patch holds exactly the fields that were set, and null where the key is cleared.\<close>

lemma patch_json_clears:
  "patch_json clear_signing_key = JObject [(bs ''signing_key'', JNull)]"
  "patch_json clear_read_key = JObject [(bs ''read_key'', JNull)]"
  "patch_json clear_write_key = JObject [(bs ''write_key'', JNull)]"
  "patch_json (rotate_signing_key k) = JObject [(bs ''signing_key'', JString k)]"
  by (simp_all add: patch_json_def clear_signing_key_def clear_read_key_def clear_write_key_def
      rotate_signing_key_def default_policy_patch_def)

section \<open>The faults surface\<close>

context crypto_api
begin

text \<open>The minted token is rejected as expired, under any policy with that signing key, from its minting on.\<close>

lemma minted_token_expired:
  assumes "mint_expired_read_token K now b key = Done raw" and "signing_key policy = Some key" and "now \<le> now'"
  shows "verify K raw policy bucket now' = Inl Expired"
proof -
  obtain c where "mint K c key = Inr raw" and "c_exp c = now - nanos"
    using assms(1) by (auto simp: mint_expired_read_token_def expired_claims_def split: sum.splits)
  then show ?thesis
    using verify_signed [OF assms(2) mint_signed] assms(3) by simp
qed

end

lemma fjall_result_Inr: "fjall_result r = Inr x \<longleftrightarrow> r = Inr x"
  by (cases r) auto

context fjall_store
begin

text \<open>A corrupted entry is a codec error at the next read that reaches the data.\<close>

lemma corrupt_entry_read:
  assumes "corrupt_entry S st b k = (Done (), st')" and "pc_dec C [0xFF, 0xFF, 0xFF, 0xFF] = Inl e"
    and "fj_get (sv_fjall S) (st_db st') DATA_KEYSPACE (data_storage_key b k) = Inr r"
  shows "fjall_get S st' b k = Inl (use_case_of_fjall (CodecE (''postcard decode: '' @ e)))"
proof -
  have "view (st_db st') DATA_KEYSPACE (data_storage_key b k) = Some [0xFF, 0xFF, 0xFF, 0xFF]"
    using assms(1)
    by (auto simp: corrupt_entry_def testkit_write_raw_def Let_def fjall_result_Inr dest!: db.insert_Inr
        split: prod.splits sum.splits)
  then have "r = Some [0xFF, 0xFF, 0xFF, 0xFF]" using db.get_Inr [OF assms(3)] by simp
  then show ?thesis using assms(2,3) by (simp add: fjall_get_def decode_entry_def fj_def uc_def Let_def)
qed

end

lemma fail_ping_degrades:
  "readiness_check (tc_app (testkit_set_fail_ping_metadata S True ctx)) st =
     json_response 503 (health_json (bs ''degraded'') (bs ''error'') (st_version (tc_app ctx)))"
  by (simp add: readiness_check_def testkit_set_fail_ping_metadata_def fjall_ping_metadata_def)

lemma fail_ping_off:
  "st_buckets (tc_app ctx) = fjall_buckets S J \<Longrightarrow> testkit_set_fail_ping_metadata S False ctx = ctx"
  by (simp add: testkit_set_fail_ping_metadata_def fjall_buckets_def)

end
