(* ===== verification/Tests_Domain.thy ===== *)
theory Tests_Domain
  imports Counter "HOL-Library.Code_Target_Nat"
begin

text \<open>
  The unit tests of \<open>keydock-domain\<close> (the test modules of \<open>counter.rs\<close> and \<open>permission.rs\<close>), run on the
  model: a test is a Boolean with the inputs and the assertions of its source, a table of cases
  is a list, and each test is shown to pass by evaluation in the kernel.  They check the
  definitions against the expectations of the program's authors.
\<close>

text \<open>The doubles of the tests: 1.5, 2.5 and 11.5.\<close>

definition f64_1_5 :: f64 where "f64_1_5 = F_Fin False (3 * 2 ^ 51) (-52)"
definition f64_2_5 :: f64 where "f64_2_5 = F_Fin False (5 * 2 ^ 50) (-51)"
definition f64_11_5 :: f64 where "f64_11_5 = F_Fin False (23 * 2 ^ 48) (-49)"

lemma f64_literals:
  "parse_f64 (bs ''1.5'') = Some f64_1_5" "parse_f64 (bs ''2.5'') = Some f64_2_5" "parse_f64 (bs ''11.5'') = Some f64_11_5"
  by code_simp+

section \<open>Counters\<close>

definition parse_ok_cases :: "(bytes \<times> counter_op) list" where
  "parse_ok_cases =
     [(bs ''+1'', OpInt 1), (bs ''-3'', OpInt (-3)), (bs ''+1.5'', OpFloat f64_1_5), (bs ''  +2  '', OpInt 2)]"

definition test_parse_ok :: bool where
  "test_parse_ok = list_all (\<lambda>(body, expected). CounterOp_parse body = Inr expected) parse_ok_cases"

definition test_parse_err :: bool where
  "test_parse_err =
     list_all (\<lambda>body. isl (CounterOp_parse body)) [bs ''5'', bs '''', bs ''+'', bs ''+NaN'', bs ''+Inf'']"

definition test_apply_int_plus_int_checked :: bool where
  "test_apply_int_plus_int_checked = (CounterOp_apply (OpInt 3) (ValInt 10) = Inr (ValInt 13))"

definition test_apply_int_overflow_err :: bool where
  "test_apply_int_overflow_err =
     (case CounterOp_apply (OpInt 1) (ValInt 9223372036854775807) of Inl (InvalidCounterOp _) \<Rightarrow> True | _ \<Rightarrow> False)"

definition test_apply_promotes_int_to_float :: bool where
  "test_apply_promotes_int_to_float = (CounterOp_apply (OpFloat f64_1_5) (ValInt 10) = Inr (ValFloat f64_11_5))"

definition test_apply_float_plus_int :: bool where
  "test_apply_float_plus_int = (CounterOp_apply (OpInt 1) (ValFloat f64_1_5) = Inr (ValFloat f64_2_5))"

definition test_from_stored_rejects_utf8_string :: bool where
  "test_from_stored_rejects_utf8_string =
     (case StoredValue_new (bs ''hello'') Utf8 of
        Inl _ \<Rightarrow> False
      | Inr sv \<Rightarrow> (case CounterValue_from_stored sv of Inl (InvalidCounterOp _) \<Rightarrow> True | _ \<Rightarrow> False))"

definition test_from_stored_accepts_int64 :: bool where
  "test_from_stored_accepts_int64 =
     (case StoredValue_new (bs ''42'') Int64 of
        Inl _ \<Rightarrow> False
      | Inr sv \<Rightarrow> CounterValue_from_stored sv = Inr (ValInt 42))"

definition test_roundtrip_into_stored :: bool where
  "test_roundtrip_into_stored =
     (let v = ValInt (-7) in
      case CounterValue_into_stored v of Inl _ \<Rightarrow> False | Inr sv \<Rightarrow> CounterValue_from_stored sv = Inr v)"

lemma counter_parse_tests: "test_parse_ok" "test_parse_err" by code_simp+

lemma counter_apply_tests:
  "test_apply_int_plus_int_checked" "test_apply_int_overflow_err" "test_apply_promotes_int_to_float"
  "test_apply_float_plus_int"
  by code_simp+

lemma counter_stored_tests:
  "test_from_stored_rejects_utf8_string" "test_from_stored_accepts_int64" "test_roundtrip_into_stored"
  by code_simp+

section \<open>Permissions\<close>

definition test_admin_has_all_flags :: bool where
  "test_admin_has_all_flags = (ADMIN = Permission_new True True True True)"

definition test_read_only_has_only_read :: bool where
  "test_read_only_has_only_read = (READ_ONLY = Permission_new True False False False)"

definition test_none_has_no_flags :: bool where
  "test_none_has_no_flags = (NONE = Permission_new False False False False)"

definition test_union_combines_flags :: bool where
  "test_union_combines_flags =
     (permission_union (Permission_new True False False False) (Permission_new False True False True)
        = Permission_new True True False True)"

definition anonymous_cases :: "(bool \<times> bool \<times> bool \<times> permission) list" where
  "anonymous_cases =
     [(False, False, False, Permission_new True True True True),
      (True, False, False, Permission_new True True True False),
      (False, True, False, Permission_new False True False False),
      (False, False, True, Permission_new True False True False),
      (True, True, False, Permission_new False True False False),
      (True, False, True, Permission_new True False True False),
      (False, True, True, Permission_new False False False False),
      (True, True, True, Permission_new False False False False)]"

definition test_anonymous_from_keys_matrix :: bool where
  "test_anonymous_from_keys_matrix =
     list_all (\<lambda>(has_secret, has_read, has_write, expected).
       anonymous_from_keys has_secret has_read has_write = expected) anonymous_cases"

lemma permission_tests:
  "test_admin_has_all_flags" "test_read_only_has_only_read" "test_none_has_no_flags" "test_union_combines_flags"
  "test_anonymous_from_keys_matrix"
  by code_simp+

text \<open>The matrix has every combination of keys, so it determines the function.\<close>

lemma anonymous_cases_complete:
  assumes "\<And>s r w p. (s, r, w, p) \<in> set anonymous_cases \<Longrightarrow> f s r w = p"
  shows "f = anonymous_from_keys"
proof (intro ext)
  fix s r w
  have "(s, r, w, anonymous_from_keys s r w) \<in> set anonymous_cases"
    by (cases s; cases r; cases w) (simp_all add: anonymous_cases_def anonymous_from_keys_def Permission_new_def)
  then show "f s r w = anonymous_from_keys s r w" by (rule assms)
qed

end
