(* ===== verification/Tests_Usecase.thy ===== *)
theory Tests_Usecase
  imports Keys Auth "HOL-Library.Code_Target_Nat"
begin

text \<open>
  The unit tests of \<open>keydock-usecase\<close> (the test modules of \<open>keys.rs\<close>, \<open>txn.rs\<close>, \<open>auth.rs\<close> and \<open>tokens.rs\<close>),
  run on the model.  The mock repositories of the tests are repositories over their own state.
  Where a test uses \<open>SystemClock\<close>, it is shown for every reading of the clock; where it signs,
  for every implementation of the primitives that satisfies \<open>crypto_api\<close>.
\<close>

section \<open>keys.rs\<close>

text \<open>The mock keeps the expiry it was last given.\<close>

definition MockRepo :: "instant option option key_repo" where
  "MockRepo =
     \<lparr>kr_get = (\<lambda>st b k. Inr None),
      kr_set = (\<lambda>st b k v ex. (Inr (), Some ex)),
      kr_delete = (\<lambda>st b k. (Inr False, st)),
      kr_list = (\<lambda>st b opts. Done (Inr [])),
      kr_increment = (\<lambda>st now b k op ex. (Inl NotImplemented, st)),
      kr_apply_batch = (\<lambda>st b ops. (Inl NotImplemented, st))\<rparr>"

definition RepoWithEntry :: "stored_entry option key_repo" where
  "RepoWithEntry =
     \<lparr>kr_get = (\<lambda>st b k. Inr st),
      kr_set = (\<lambda>st b k v ex. (Inr (), st)),
      kr_delete = (\<lambda>st b k. (Inr False, st)),
      kr_list = (\<lambda>st b opts. Done (Inr [])),
      kr_increment = (\<lambda>st now b k op ex. (Inl NotImplemented, st)),
      kr_apply_batch = (\<lambda>st b ops. (Inl NotImplemented, st))\<rparr>"

definition test_bucket :: bucket_id where "test_bucket = BucketId (bs ''b'')"

definition test_key :: key where "test_key = Key (bs ''k'')"

lemma test_ids: "BucketId_new (bs ''b'') = Inr test_bucket" "Key_from_bytes (bs ''k'') = Inr test_key"
  by code_simp+

text \<open>\<open>json_ok\<close> is \<open>serde_json\<close>, of which the tests rely on two texts that are JSON and two that are not.\<close>

definition kind_cases :: "(bytes \<times> str option \<times> value_kind) list" where
  "kind_cases =
     [(bs ''hello'', None, Utf8),
      (bs ''42'', None, Int64),
      (bs ''3.14'', None, Float64),
      (bs ''{\"a\":1}'', None, Json),
      (bs ''x'', Some (bs ''application/json''), Json),
      (bs ''not-json'', Some (bs ''application/json; charset=utf-8''), Json),
      (bs ''42'', Some (bs ''text/plain; charset=utf-8''), Utf8),
      (bs ''3.14'', Some (bs ''text/plain; charset=utf-8''), Utf8),
      (bs ''{\"a\":1}'', Some (bs ''text/plain; charset=utf-8''), Utf8),
      ([0xFF, 0xFE], Some (bs ''text/plain; charset=utf-8''), Raw),
      (bs ''true'', None, Json),
      (bs ''inf'', None, Utf8),
      ([], None, Utf8),
      ([0xFF, 0xFE], None, Raw)]"

definition test_infer_value_kind_cases :: "(str \<Rightarrow> bool) \<Rightarrow> bool" where
  "test_infer_value_kind_cases json_ok =
     list_all (\<lambda>(body, ct, expected). infer_value_kind json_ok body ct = expected) kind_cases"

lemma infer_value_kind_tests:
  "test_infer_value_kind_cases (\<lambda>s. s = bs ''{\"a\":1}'' \<or> s = bs ''true'')"
  by code_simp

definition test_set_empty_body_is_utf8 :: "time_ops \<Rightarrow> instant \<Rightarrow> bool" where
  "test_set_empty_body_is_utf8 T now =
     (case KeyService_set T (\<lambda>_. False) MockRepo now None test_bucket test_key [] None None None of
        (Inr v, last_expires) \<Rightarrow> kind v = Utf8 \<and> payload v = [] \<and> last_expires = Some None
      | _ \<Rightarrow> False)"

definition test_set_ttl_override_over_default :: "time_ops \<Rightarrow> instant \<Rightarrow> bool" where
  "test_set_ttl_override_over_default T now =
     (case KeyService_set T (\<lambda>_. False) MockRepo now None test_bucket test_key (bs ''1'') None (Some 60) (Some 3600) of
        (Inr v, Some ex) \<Rightarrow> kind v = Int64 \<and> ex \<noteq> None
      | _ \<Rightarrow> False)"

definition test_set_rejects_ttl_seconds_out_of_i64_range :: "time_ops \<Rightarrow> instant \<Rightarrow> bool" where
  "test_set_rejects_ttl_seconds_out_of_i64_range T now =
     (case KeyService_set T (\<lambda>_. False) MockRepo now None test_bucket test_key (bs ''1'') None (Some (- 1)) None of
        (Inl (DomainErr (InvalidTtl _)), _) \<Rightarrow> True
      | _ \<Rightarrow> False)"

lemma infer_empty: "infer_stored_value json_ok [] None = Inr \<lparr>payload = [], kind = Utf8\<rparr>" if "\<not> json_ok []"
proof -
  have "from_utf8 [] = Some []" "trim [] = []" "parse_i64 [] = None" "parse_f64 [] = None" by code_simp+
  then show ?thesis using that by (simp add: infer_stored_value_def infer_value_kind_def StoredValue_new_def)
qed

lemma infer_one: "infer_stored_value json_ok (bs ''1'') None = Inr \<lparr>payload = bs ''1'', kind = Int64\<rparr>"
proof -
  have "from_utf8 (bs ''1'') = Some (bs ''1'')" "trim (bs ''1'') = bs ''1''" "parse_i64 (bs ''1'') \<noteq> None"
    "length (bs ''1'') \<le> MAX_VALUE_BYTES" by code_simp+
  then show ?thesis by (simp add: infer_stored_value_Inr infer_value_kind_def)
qed

lemma set_tests:
  assumes "time_api T valid" and "valid now" and "valid (now + 60 * nanos)"
  shows "test_set_empty_body_is_utf8 T now" "test_set_ttl_override_over_default T now"
    "test_set_rejects_ttl_seconds_out_of_i64_range T now"
proof -
  show "test_set_empty_body_is_utf8 T now"
    by (simp add: test_set_empty_body_is_utf8_def KeyService_set_def infer_empty resolve_ttl_def MockRepo_def)
  have "sint (60 :: i64) = 60" by code_simp
  then have "checked_add_secs T now 60 \<noteq> None" using time_api.add_None [OF assms(1,2), of 60] assms(3) by fastforce
  moreover have "(60 :: u64) \<noteq> 0" "\<not> i64_max < uint (60 :: u64)" by code_simp+
  ultimately show "test_set_ttl_override_over_default T now"
    by (auto simp: test_set_ttl_override_over_default_def KeyService_set_def infer_one resolve_ttl_def MockRepo_def)
  have "(- 1 :: u64) \<noteq> 0" "i64_max < uint (- 1 :: u64)" by code_simp+
  then show "test_set_rejects_ttl_seconds_out_of_i64_range T now"
    by (simp add: test_set_rejects_ttl_seconds_out_of_i64_range_def KeyService_set_def infer_one resolve_ttl_def)
qed

definition sample_entry :: "instant option \<Rightarrow> stored_entry" where
  "sample_entry ex = \<lparr>se_value = \<lparr>payload = bs ''x'', kind = Utf8\<rparr>, se_expires_at = ex\<rparr>"

definition test_instant :: instant where "test_instant = 1700000000 * nanos"

definition test_get_expired_entry_returns_not_found :: bool where
  "test_get_expired_entry_returns_not_found =
     (KeyService_get RepoWithEntry test_instant (Some (sample_entry (Some (test_instant - nanos)))) test_bucket test_key
        = Inl NotFound)"

definition test_get_future_expiry_returns_entry :: bool where
  "test_get_future_expiry_returns_entry =
     (let entry = sample_entry (Some (test_instant + 60 * nanos)) in
      KeyService_get RepoWithEntry test_instant (Some entry) test_bucket test_key = Inr entry)"

definition test_get_no_expiry_returns_entry :: bool where
  "test_get_no_expiry_returns_entry =
     (let entry = sample_entry None in
      KeyService_get RepoWithEntry test_instant (Some entry) test_bucket test_key = Inr entry)"

lemma get_tests:
  "test_get_expired_entry_returns_not_found" "test_get_future_expiry_returns_entry" "test_get_no_expiry_returns_entry"
  by code_simp+

section \<open>txn.rs\<close>

definition OkBatchRepo :: "unit key_repo" where
  "OkBatchRepo =
     \<lparr>kr_get = (\<lambda>st b k. Inr None),
      kr_set = (\<lambda>st b k v ex. (Inr (), st)),
      kr_delete = (\<lambda>st b k. (Inr False, st)),
      kr_list = (\<lambda>st b opts. Done (Inr [])),
      kr_increment = (\<lambda>st now b k op ex. (Inl NotImplemented, st)),
      kr_apply_batch = (\<lambda>st b ops. (Inr (), st))\<rparr>"

definition test_execute_delegates_to_apply_batch :: bool where
  "test_execute_delegates_to_apply_batch =
     (case (BucketId_new (bs ''aaaaaaaa-bbbb-cccc-dddd-eeeeeeeeeeee''), StoredValue_new (bs ''v'') Utf8) of
        (Inr b, Inr v) \<Rightarrow> \<not> isl (fst (TxnService_execute OkBatchRepo () b [TxnSet test_key v None]))
      | _ \<Rightarrow> False)"

lemma txn_tests: "test_execute_delegates_to_apply_batch"
  by code_simp

section \<open>auth.rs\<close>

definition auth_root_key :: bytes where "auth_root_key = bs ''root-key-test-32-bytes-min!!''"

text \<open>The hash of an optional key, where the test unwraps it.\<close>

definition hashed :: "crypto_ops \<Rightarrow> str option \<Rightarrow> bytes option" where
  "hashed K s = Option.bind s (\<lambda>s. case hash_credential K s auth_root_key of Inl _ \<Rightarrow> None | Inr h \<Rightarrow> Some h)"

definition policy_with_hashes :: "crypto_ops \<Rightarrow> str option \<Rightarrow> str option \<Rightarrow> str option \<Rightarrow> bucket_policy" where
  "policy_with_hashes K secret write read =
     \<lparr>default_ttl_secs = None, anonymous_access = NONE, secret_key_hash = hashed K secret,
      read_key_hash = hashed K read, write_key_hash = hashed K write, signing_key = None, signing_key_generation = 0\<rparr>"

definition test_hash_verify_roundtrip :: "crypto_ops \<Rightarrow> bool" where
  "test_hash_verify_roundtrip K =
     (case hash_credential K (bs ''my-secret'') auth_root_key of
        Inl _ \<Rightarrow> False
      | Inr h \<Rightarrow> verify_credential K (bs ''my-secret'') h auth_root_key \<and> \<not> verify_credential K (bs ''wrong'') h auth_root_key)"

definition test_resolve_admin :: "crypto_ops \<Rightarrow> instant \<Rightarrow> bool" where
  "test_resolve_admin K now =
     (resolve K (Some (bs ''adm'')) (policy_with_hashes K (Some (bs ''adm'')) None None) test_bucket auth_root_key now
        = Inr Admin)"

definition test_resolve_write_scoped :: "crypto_ops \<Rightarrow> instant \<Rightarrow> bool" where
  "test_resolve_write_scoped K now =
     (resolve K (Some (bs ''w'')) (policy_with_hashes K None (Some (bs ''w'')) None) test_bucket auth_root_key now
        = Inr (Scoped WRITE_ONLY []))"

definition test_resolve_read_key_grants_read_and_enumerate :: "crypto_ops \<Rightarrow> instant \<Rightarrow> bool" where
  "test_resolve_read_key_grants_read_and_enumerate K now =
     (resolve K (Some (bs ''r'')) (policy_with_hashes K None None (Some (bs ''r''))) test_bucket auth_root_key now
        = Inr (Scoped READ_ENUMERATE []))"

definition test_resolve_anonymous :: "crypto_ops \<Rightarrow> instant \<Rightarrow> bool" where
  "test_resolve_anonymous K now =
     (resolve K None (policy_with_hashes K None None None) test_bucket auth_root_key now = Inr Anonymous)"

definition test_resolve_invalid_returns_err :: "crypto_ops \<Rightarrow> instant \<Rightarrow> bool" where
  "test_resolve_invalid_returns_err K now =
     (resolve K (Some (bs ''nope'')) (policy_with_hashes K (Some (bs ''adm'')) None None) test_bucket auth_root_key now
        = Inl InvalidCredential)"

text \<open>
  The tests hold for every implementation of HMAC that accepts the key of the tests and
  separates the texts they hash.
\<close>

lemma auth_tests:
  assumes "crypto_api K" and "\<And>m. cr_hmac K auth_root_key m \<noteq> None"
    and "cr_hmac K auth_root_key (bs ''my-secret'') \<noteq> cr_hmac K auth_root_key (bs ''wrong'')"
    and "cr_hmac K auth_root_key (bs ''adm'') \<noteq> cr_hmac K auth_root_key (bs ''nope'')"
  shows "test_hash_verify_roundtrip K" "test_resolve_admin K now" "test_resolve_write_scoped K now"
    "test_resolve_read_key_grants_read_and_enumerate K now" "test_resolve_anonymous K now"
    "test_resolve_invalid_returns_err K now"
proof -
  have hashed: "hashed K (Some s) = cr_hmac K auth_root_key s" for s
    by (auto simp: hashed_def hash_credential_def hmac_sha256_def split: option.splits)
  have matches: "matches K auth_root_key h s \<longleftrightarrow> h = cr_hmac K auth_root_key s" if "h \<noteq> None" for h s
    using that crypto_api.matches_iff [OF assms(1), of auth_root_key h s] by auto
  have none: "hashed K None = None" "\<not> matches K auth_root_key None s" for s by (simp_all add: hashed_def matches_def)
  note defs = policy_with_hashes_def resolve_def hashed none matches assms(2)
  show "test_resolve_admin K now" by (simp add: test_resolve_admin_def defs)
  show "test_resolve_write_scoped K now" by (simp add: test_resolve_write_scoped_def defs)
  show "test_resolve_read_key_grants_read_and_enumerate K now"
    by (simp add: test_resolve_read_key_grants_read_and_enumerate_def defs)
  show "test_resolve_anonymous K now" by (simp add: test_resolve_anonymous_def defs)
  show "test_resolve_invalid_returns_err K now"
    using assms(4) by (simp add: test_resolve_invalid_returns_err_def defs verify_def)
  show "test_hash_verify_roundtrip K"
    using assms(2) [of "bs ''my-secret''"] assms(3) crypto_api.eq_bytes_iff [OF assms(1)]
    by (auto simp: test_hash_verify_roundtrip_def verify_credential_def hash_credential_def hmac_sha256_def
        split: option.splits)
qed

text \<open>The demonstration primitives are such an implementation.\<close>

lemma auth_tests_demo: "test_hash_verify_roundtrip demo_crypto" "test_resolve_invalid_returns_err demo_crypto now"
proof -
  have "\<And>m. cr_hmac demo_crypto auth_root_key m \<noteq> None"
    "cr_hmac demo_crypto auth_root_key (bs ''my-secret'') \<noteq> cr_hmac demo_crypto auth_root_key (bs ''wrong'')"
    "cr_hmac demo_crypto auth_root_key (bs ''adm'') \<noteq> cr_hmac demo_crypto auth_root_key (bs ''nope'')"
    by (simp_all add: demo_crypto_def bs_def)
  note ok = auth_tests [OF demo_crypto.crypto_api_axioms this]
  show "test_hash_verify_roundtrip demo_crypto" "test_resolve_invalid_returns_err demo_crypto now" by (rule ok)+
qed

section \<open>tokens.rs\<close>

definition test_signing_key :: bytes where "test_signing_key = bs ''test-signing-key-bytes!!''"

definition sample_claims :: "bucket_id \<Rightarrow> u64 \<Rightarrow> claims" where
  "sample_claims bucket generation =
     \<lparr>c_version = 1, c_bucket = bucket, c_bucket_generation = generation, c_allowed_prefix = bs ''user:'',
      c_permissions = READ_ONLY, c_iat = 1700000000 * nanos, c_exp = 2000000000 * nanos\<rparr>"

definition policy_with_key :: "u64 \<Rightarrow> bucket_policy" where
  "policy_with_key generation =
     \<lparr>default_ttl_secs = None, anonymous_access = NONE, secret_key_hash = None, read_key_hash = None,
      write_key_hash = None, signing_key = Some test_signing_key, signing_key_generation = generation\<rparr>"

datatype verify_rejection_case = TamperedSignature | ExpiredToken | WrongBucket | WrongGeneration | WithoutSigningKey

fun rejection_expected :: "verify_rejection_case \<Rightarrow> token_error" where
  "rejection_expected TamperedSignature = InvalidSignature"
| "rejection_expected ExpiredToken = Expired"
| "rejection_expected WrongBucket = BucketMismatch"
| "rejection_expected WrongGeneration = GenerationMismatch"
| "rejection_expected WithoutSigningKey = NoSigningKey"

definition b1 :: bucket_id where "b1 = BucketId (bs ''b1'')"

definition tampered :: "crypto_ops \<Rightarrow> str \<Rightarrow> str" where
  "tampered K raw =
     (case split_once DOT raw of
        None \<Rightarrow> raw
      | Some (payload_b64, _) \<Rightarrow> payload_b64 @ [DOT] @ cr_b64_encode K (replicate 32 0))"

text \<open>\<open>raw\<close> is the minted token and \<open>now\<close> the clock of the case without a key.\<close>

fun rejection_run :: "crypto_ops \<Rightarrow> instant \<Rightarrow> str \<Rightarrow> verify_rejection_case \<Rightarrow> token_error + claims" where
  "rejection_run K now raw WithoutSigningKey =
     verify K (bs ''x.y'') ((policy_with_key 0)\<lparr>signing_key := None\<rparr>) b1 now"
| "rejection_run K now raw TamperedSignature = verify K (tampered K raw) (policy_with_key 0) b1 (1800000000 * nanos)"
| "rejection_run K now raw ExpiredToken = verify K raw (policy_with_key 0) b1 (2100000000 * nanos)"
| "rejection_run K now raw WrongBucket = verify K raw (policy_with_key 0) (BucketId (bs ''b2'')) (1800000000 * nanos)"
| "rejection_run K now raw WrongGeneration =
     verify K raw ((policy_with_key 0)\<lparr>signing_key_generation := 1\<rparr>) b1 (1800000000 * nanos)"

definition test_verify_rejects_invalid_tokens :: "crypto_ops \<Rightarrow> instant \<Rightarrow> verify_rejection_case \<Rightarrow> bool" where
  "test_verify_rejects_invalid_tokens K now c =
     (case mint K (sample_claims b1 0) test_signing_key of
        Inl _ \<Rightarrow> False
      | Inr raw \<Rightarrow> rejection_run K now raw c = Inl (rejection_expected c))"

definition test_mint_verify_roundtrip :: "crypto_ops \<Rightarrow> bool" where
  "test_mint_verify_roundtrip K =
     (let claims = sample_claims b1 0 in
      case mint K claims test_signing_key of
        Inl _ \<Rightarrow> False
      | Inr raw \<Rightarrow>
          (case verify K raw (policy_with_key 0) b1 (1800000000 * nanos) of
             Inl _ \<Rightarrow> False
           | Inr out \<Rightarrow> c_bucket out = c_bucket claims \<and> c_bucket_generation out = c_bucket_generation claims
               \<and> c_allowed_prefix out = c_allowed_prefix claims \<and> c_permissions out = c_permissions claims))"

text \<open>
  For every implementation of the primitives whose HMAC of the minted claims is not 32 zero
  bytes; the claims and the key of the tests are accepted by it.
\<close>

lemma token_tests:
  assumes "crypto_api K" and "mint K (sample_claims b1 0) test_signing_key = Inr raw"
    and "\<And>j. cr_claims_to_vec K (sample_claims b1 0) = Some j \<Longrightarrow> cr_hmac K test_signing_key j \<noteq> Some (replicate 32 0)"
  shows "test_mint_verify_roundtrip K" "test_verify_rejects_invalid_tokens K now c"
proof -
  have out: "verify K raw p b t =
      (if c_exp (sample_claims b1 0) \<le> t then Inl Expired
       else if c_bucket (sample_claims b1 0) \<noteq> b then Inl BucketMismatch
       else if c_bucket_generation (sample_claims b1 0) \<noteq> signing_key_generation p then Inl GenerationMismatch
       else Inr (sample_claims b1 0))" if "signing_key p = Some test_signing_key" for p b t
    by (rule crypto_api.verify_signed [OF assms(1) that crypto_api.mint_signed [OF assms(1,2)]])
  have key: "signing_key (policy_with_key g) = Some test_signing_key" for g by (simp add: policy_with_key_def)
  show "test_mint_verify_roundtrip K"
    by (simp add: test_mint_verify_roundtrip_def assms(2) out key Let_def)
      (simp add: sample_claims_def policy_with_key_def)
  obtain j m where j: "cr_claims_to_vec K (sample_claims b1 0) = Some j" "cr_hmac K test_signing_key j = Some m"
    and raw: "raw = cr_b64_encode K j @ DOT # cr_b64_encode K m"
    using assms(2) by (auto simp: mint_def hmac_sha256_def split: option.splits sum.splits)
  have dot: "split_once DOT (cr_b64_encode K x @ DOT # y) = Some (cr_b64_encode K x, y)" for x y
    using crypto_api.b64_no_dot [OF assms(1)] by (metis split_once_Some_iff)
  have "m \<noteq> replicate 32 0" using assms(3) [OF j(1)] j(2) by simp
  then have "verify K (tampered K raw) (policy_with_key 0) b1 t = Inl InvalidSignature" for t
    using j crypto_api.b64_roundtrip [OF assms(1)] crypto_api.eq_bytes_iff [OF assms(1)]
    by (simp add: tampered_def raw dot verify_def key hmac_sha256_def)
  moreover have "c_exp (sample_claims b1 0) = 2000000000 * nanos" "c_bucket (sample_claims b1 0) = b1"
    "c_bucket_generation (sample_claims b1 0) = 0" "signing_key_generation (policy_with_key 0) = 0"
    by (simp_all add: sample_claims_def policy_with_key_def)
  moreover have "verify K x (p\<lparr>signing_key := None\<rparr>) b t = Inl NoSigningKey" for x p b t by (simp add: verify_def)
  moreover have "b1 \<noteq> BucketId (bs ''b2'')" by (simp add: b1_def bs_def)
  ultimately show "test_verify_rejects_invalid_tokens K now c"
    by (cases c) (simp_all add: test_verify_rejects_invalid_tokens_def assms(2) out key)
qed

lemma token_tests_demo: "test_mint_verify_roundtrip demo_crypto" "test_verify_rejects_invalid_tokens demo_crypto now c"
proof -
  obtain raw where m: "mint demo_crypto (sample_claims b1 0) test_signing_key = Inr raw"
    by (simp add: mint_def hmac_sha256_def demo_crypto_def)
  have "test_signing_key @ j \<noteq> replicate 32 0" for j
  proof
    assume "test_signing_key @ j = replicate 32 0"
    from arg_cong [OF this, of hd] show False by (simp add: test_signing_key_def bs_def)
  qed
  then have "\<And>j. cr_hmac demo_crypto test_signing_key j \<noteq> Some (replicate 32 0)" by (auto simp: demo_crypto_def)
  note ok = token_tests [OF demo_crypto.crypto_api_axioms m this]
  show "test_mint_verify_roundtrip demo_crypto" "test_verify_rejects_invalid_tokens demo_crypto now c" by (rule ok)+
qed

end
