(* ===== verification/Percent.thy ===== *)
theory Percent
  imports Http_Keys
begin

text \<open>
  Percent-encoding of keys in paths.  The framework decodes a path parameter before a handler
  sees it, and \<open>parse_percent_encoded_key\<close> (\<open>extract.rs\<close>) decodes it again.  \<open>percent_decode\<close> is an
  executable instance of the decoder of the \<open>percent_encoding\<close> crate, \<open>percent_encode\<close> the
  encoder of a client that escapes every byte.  Shown here: what a client encodes is what the
  framework hands on; and the second decoding makes different keys the same.
\<close>

definition hex_val :: "byte \<Rightarrow> byte option" where
  "hex_val c =
     (if 0x30 \<le> c \<and> c \<le> 0x39 then Some (c - 0x30)
      else if 0x41 \<le> c \<and> c \<le> 0x46 then Some (c - 0x37)
      else if 0x61 \<le> c \<and> c \<le> 0x66 then Some (c - 0x57)
      else None)"

definition hex_digit :: "byte \<Rightarrow> byte" where
  "hex_digit n = (if n < 10 then 0x30 + n else 0x37 + n)"

fun percent_decode :: "str \<Rightarrow> bytes" where
  "percent_decode (c # h # l # rest) =
     (case (if c = 0x25 then (hex_val h, hex_val l) else (None, None)) of
        (Some a, Some b) \<Rightarrow> (16 * a + b) # percent_decode rest
      | _ \<Rightarrow> c # percent_decode (h # l # rest))"
| "percent_decode s = s"

definition escaped :: "byte \<Rightarrow> str" where
  "escaped b = [0x25, hex_digit (b div 16), hex_digit (b mod 16)]"

definition percent_encode :: "bytes \<Rightarrow> str" where
  "percent_encode k = concat (map escaped k)"

lemma hex_val_digit: "unat n < 16 \<Longrightarrow> hex_val (hex_digit n) = Some n"
proof -
  assume "unat n < 16"
  moreover have "\<forall>m \<in> set [0..<16]. hex_val (hex_digit (of_nat m)) = Some (of_nat m)" by code_simp
  ultimately have "hex_val (hex_digit (of_nat (unat n))) = Some (of_nat (unat n))" by (metis atLeastLessThan_iff set_upt zero_le)
  then show ?thesis by simp
qed

lemma nibbles: "unat (b div 16) < 16" "unat (b mod 16) < 16" "16 * (b div 16) + b mod 16 = b" for b :: byte
proof -
  have "unat b < 256" using unsigned_less [of b, where ?'a = nat] by simp
  then show "unat (b div 16) < 16" by (simp add: unat_div)
  show "unat (b mod 16) < 16" by (simp add: unat_mod_distrib)
  show "16 * (b div 16) + b mod 16 = b" by (rule mult_div_mod_eq)
qed

lemma decode_escaped: "percent_decode (escaped b @ rest) = b # percent_decode rest"
  by (simp add: escaped_def hex_val_digit nibbles)

text \<open>Decoding gives back what was encoded, and leaves text without escapes alone.\<close>

lemma percent_roundtrip: "percent_decode (percent_encode k) = k"
proof (induction k)
  case (Cons b k)
  then show ?case using decode_escaped [of b "percent_encode k"] by (simp add: percent_encode_def)
qed (simp add: percent_encode_def)

lemma percent_plain: "0x25 \<notin> set s \<Longrightarrow> percent_decode s = s"
  by (induction s rule: percent_decode.induct) auto

lemma percent_encode_length: "length (percent_encode k) = 3 * length k"
  by (induction k) (simp_all add: percent_encode_def escaped_def)

lemma encode_differs: "k \<noteq> [] \<Longrightarrow> percent_encode k \<noteq> k"
  using percent_encode_length [of k] by auto

section \<open>Property\<close>

text \<open>
  C37. Decoding twice makes different keys the same: a correct client that asks for a key reaches it
  when it has no percent sign; but when it asks for a key that is itself the escaped text of
  another (such as \<open>%41\<close> for \<open>A\<close>), the framework hands on exactly that key, and every key handler
  then reads, writes, counts and deletes the other one.
\<close>

theorem escaped_key_reaches_another:
  assumes "hl_percent_decode L = percent_decode" and "k \<noteq> []" and "0x25 \<notin> set k" and "3 * length k \<le> MAX_KEY_BYTES"
  shows "percent_decode (percent_encode k) = k \<and> parse_percent_encoded_key L k = Inr (Key k)
    \<and> percent_decode (percent_encode (percent_encode k)) = percent_encode k \<and> percent_encode k \<noteq> k
    \<and> get_key L A now st auth (percent_encode k) = get_key L A now st auth k
    \<and> put_key L A now st auth (percent_encode k) ttl cth body = put_key L A now st auth k ttl cth body
    \<and> patch_key L A now store_now st auth (percent_encode k) ttl body = patch_key L A now store_now st auth k ttl body
    \<and> delete_key L A st auth (percent_encode k) = delete_key L A st auth k"
proof -
  have "parse_percent_encoded_key L k = Inr (Key k)"
    using assms by (simp add: parse_percent_encoded_key_def decode_to_bytes_def percent_plain Key_from_bytes_def)
  moreover have "parse_percent_encoded_key L (percent_encode k) = Inr (Key k)"
    using assms by (simp add: parse_percent_encoded_key_def decode_to_bytes_def percent_roundtrip Key_from_bytes_def)
  ultimately show ?thesis
    by (simp add: percent_roundtrip encode_differs [OF assms(2)] get_key_def put_key_def patch_key_def delete_key_def)
qed

theorem escaped_key_reaches_another_witness:
  "\<exists>L. hl_percent_decode L = percent_decode \<and> percent_encode (bs ''A'') = bs ''%41''
     \<and> put_key L demo_app 0 mem_store demo_admin (bs ''%41'') None None (bs ''x'')
         = put_key L demo_app 0 mem_store demo_admin (bs ''A'') None None (bs ''x'')"
proof -
  let ?L = "demo_lib\<lparr>hl_percent_decode := percent_decode\<rparr>"
  have e: "percent_encode (bs ''A'') = bs ''%41''" by code_simp
  have "bs ''A'' \<noteq> []" "0x25 \<notin> set (bs ''A'')" "3 * length (bs ''A'') \<le> MAX_KEY_BYTES" by code_simp+
  then have "put_key ?L demo_app 0 mem_store demo_admin (percent_encode (bs ''A'')) None None (bs ''x'')
      = put_key ?L demo_app 0 mem_store demo_admin (bs ''A'') None None (bs ''x'')"
    using escaped_key_reaches_another [of ?L "bs ''A''" demo_app 0 mem_store demo_admin None None "bs ''x''"] by simp
  then show ?thesis unfolding e by (intro exI [of _ ?L]) simp
qed

end
