(* ===== verification/Tests_Http.thy ===== *)
theory Tests_Http
  imports Percent Tests_Usecase
begin

text \<open>
  The unit tests of \<open>keydock-http\<close> (the test modules of \<open>auth.rs\<close>, \<open>error.rs\<close>, \<open>extract.rs\<close>, \<open>routes/health.rs\<close>
  and \<open>routes/txn.rs\<close>), run on the model.  Left out are the tests that only exercise the derived
  deserialisation of \<open>TxnRequest\<close>, which is a parameter here.
\<close>

section \<open>auth.rs\<close>

text \<open>
  Header values are visible ASCII; the decoder of base64 is any that undoes \<open>enc\<close> and refuses the text
  of the last header test.
\<close>

definition test_lib :: "(str \<Rightarrow> bytes option) \<Rightarrow> http_lib" where
  "test_lib b64_decode = demo_lib\<lparr>hl_to_str := Some, hl_percent_decode := percent_decode, hl_b64_std_decode := b64_decode\<rparr>"

definition extracts :: "http_lib \<Rightarrow> str option \<Rightarrow> str option \<Rightarrow> str \<Rightarrow> bool" where
  "extracts L header query expected = (map_option cred_str (extract_credential L header query) = Some expected)"

definition test_extract_bearer :: "http_lib \<Rightarrow> bool" where
  "test_extract_bearer L =
     extracts L (Some (bs ''Bearer secret-token'')) (Some (bs ''access_token=ignored'')) (bs ''secret-token'')"

definition test_extract_bearer_priority_over_query :: "http_lib \<Rightarrow> bool" where
  "test_extract_bearer_priority_over_query L =
     extracts L (Some (bs ''Bearer from-header'')) (Some (bs ''access_token=from-query'')) (bs ''from-header'')"

definition test_extract_basic_username :: "(bytes \<Rightarrow> str) \<Rightarrow> http_lib \<Rightarrow> bool" where
  "test_extract_basic_username enc L =
     extracts L (Some (bs ''Basic '' @ enc (bs ''alice:secret''))) None (bs ''alice'')"

definition test_basic_auth_password_ignored :: "(bytes \<Rightarrow> str) \<Rightarrow> http_lib \<Rightarrow> bool" where
  "test_basic_auth_password_ignored enc L =
     extracts L (Some (bs ''Basic '' @ enc (bs ''alice:wrong-password''))) None (bs ''alice'')"

definition test_basic_auth_no_colon_uses_full_string :: "(bytes \<Rightarrow> str) \<Rightarrow> http_lib \<Rightarrow> bool" where
  "test_basic_auth_no_colon_uses_full_string enc L =
     extracts L (Some (bs ''Basic '' @ enc (bs ''alice''))) None (bs ''alice'')"

definition test_basic_auth_invalid_base64_falls_through_to_query :: "http_lib \<Rightarrow> bool" where
  "test_basic_auth_invalid_base64_falls_through_to_query L =
     extracts L (Some (bs ''Basic !!!invalid!!!'')) (Some (bs ''access_token=query-token'')) (bs ''query-token'')"

definition query_cases :: "(str \<times> str) list" where
  "query_cases =
     [(bs ''access_token=qp-token'', bs ''qp-token''), (bs ''key=key-alias'', bs ''key-alias''),
      (bs ''key=first&access_token=second'', bs ''second''), (bs ''access_token=hello%20world'', bs ''hello world'')]"

definition test_extract_query_cases :: "http_lib \<Rightarrow> bool" where
  "test_extract_query_cases L = list_all (\<lambda>(query, expected). extracts L None (Some query) expected) query_cases"

definition test_extract_missing_returns_none :: "http_lib \<Rightarrow> bool" where
  "test_extract_missing_returns_none L =
     (extract_credential L None None = None \<and> extract_credential L None (Some (bs ''other=1'')) = None)"

lemma header_tests:
  "test_extract_bearer (test_lib nibble_dec)" "test_extract_bearer_priority_over_query (test_lib nibble_dec)"
  "test_extract_basic_username nibble_enc (test_lib nibble_dec)"
  "test_basic_auth_password_ignored nibble_enc (test_lib nibble_dec)"
  "test_basic_auth_no_colon_uses_full_string nibble_enc (test_lib nibble_dec)"
  "test_basic_auth_invalid_base64_falls_through_to_query (test_lib nibble_dec)"
  by code_simp+

lemma query_tests:
  "test_extract_query_cases (test_lib nibble_dec)" "test_extract_missing_returns_none (test_lib nibble_dec)"
  by code_simp+

section \<open>error.rs\<close>

datatype json_error_case = UnauthorizedCase | ForbiddenCase | NotFoundCase

fun error_case_response :: "json_error_case \<Rightarrow> response \<times> nat" where
  "error_case_response UnauthorizedCase = (unauthorized, 401)"
| "error_case_response ForbiddenCase = (forbidden, 403)"
| "error_case_response NotFoundCase = (not_found, 404)"

fun error_case_message :: "json_error_case \<Rightarrow> str" where
  "error_case_message UnauthorizedCase = bs ''unauthorized''"
| "error_case_message ForbiddenCase = bs ''forbidden''"
| "error_case_message NotFoundCase = bs ''not_found''"

definition test_error_helpers_status_and_body_shape :: "json_error_case \<Rightarrow> bool" where
  "test_error_helpers_status_and_body_shape c =
     (case error_case_response c of
        (resp, expected) \<Rightarrow> rs_status resp = expected
          \<and> rs_body resp = JsonBody (JObject [(bs ''error'', JObject
               [(bs ''code'', JInt (int expected)), (bs ''message'', JString (error_case_message c))])]))"

lemma error_tests: "test_error_helpers_status_and_body_shape c"
  by (cases c)
    (simp_all add: test_error_helpers_status_and_body_shape_def unauthorized_def forbidden_def not_found_def
      json_error_def json_response_def error_body_json_def)

section \<open>routes/health.rs\<close>

definition AlwaysFailingBuckets :: "unit bucket_repo" where
  "AlwaysFailingBuckets =
     \<lparr>br_ping = (\<lambda>st. Inl (Storage ''ping failed'')),
      br_get_policy = (\<lambda>st b. Inr None),
      br_create = (\<lambda>st b p. (Inr (), st)),
      br_delete = (\<lambda>st b. (Inr (), st))\<rparr>"

definition NoopKeys :: "unit key_repo" where
  "NoopKeys =
     \<lparr>kr_get = (\<lambda>st b k. Inr None),
      kr_set = (\<lambda>st b k v ex. (Inr (), st)),
      kr_delete = (\<lambda>st b k. (Inr False, st)),
      kr_list = (\<lambda>st b opts. Done (Inr [])),
      kr_increment = (\<lambda>st now b k op ex. (Inl NotImplemented, st)),
      kr_apply_batch = (\<lambda>st b ops. (Inr (), st))\<rparr>"

definition test_readiness_returns_503_when_storage_ping_fails :: bool where
  "test_readiness_returns_503_when_storage_ping_fails =
     (let state = \<lparr>st_version = bs ''0.1.0-test'', st_buckets = AlwaysFailingBuckets, st_keys = NoopKeys,
            st_root_key = bs ''test-root-key-32-bytes-minimum!!''\<rparr>;
          resp = readiness_check state ()
      in rs_status resp = 503
         \<and> rs_body resp = JsonBody (JObject [(bs ''status'', JString (bs ''degraded'')),
              (bs ''storage'', JString (bs ''error'')), (bs ''version'', JString (bs ''0.1.0-test''))]))"

lemma health_tests: "test_readiness_returns_503_when_storage_ping_fails"
  by (simp add: test_readiness_returns_503_when_storage_ping_fails_def readiness_check_def AlwaysFailingBuckets_def
      health_json_def json_response_def)

section \<open>routes/txn.rs\<close>

definition test_json_value_to_body_string_keeps_bytes_and_no_content_type :: "http_lib \<Rightarrow> bool" where
  "test_json_value_to_body_string_keeps_bytes_and_no_content_type L =
     (json_value_to_body L (JString [0x6F, 0x6C, 0xC3, 0xA1]) = Inr ([0x6F, 0x6C, 0xC3, 0xA1], None))"

text \<open>The float is 1.5; the texts are what \<open>serde_json::to_vec\<close> prints.\<close>

definition to_body_cases :: "(json \<times> bytes) list" where
  "to_body_cases =
     [(JInt 42, bs ''42''), (JFloat (F_Fin False (3 * 2 ^ 51) (- 52)), bs ''1.5''), (JBool True, bs ''true''),
      (JArray [JInt 1, JInt 2, JInt 3], bs ''[1,2,3]'')]"

definition test_json_value_to_body_non_string_uses_json_content_type :: "http_lib \<Rightarrow> bool" where
  "test_json_value_to_body_non_string_uses_json_content_type L =
     list_all (\<lambda>(value, expected). json_value_to_body L value = Inr (expected, Some JSON_CONTENT_TYPE)) to_body_cases"

definition test_json_value_to_body_rejects_null :: "http_lib \<Rightarrow> bool" where
  "test_json_value_to_body_rejects_null L =
     (case json_value_to_body L JNull of Inl r \<Rightarrow> rs_status r = 400 | Inr _ \<Rightarrow> False)"

lemma to_body_tests:
  assumes "\<And>j s. (j, s) \<in> set to_body_cases \<Longrightarrow> hl_json_to_vec L j = Some s"
  shows "test_json_value_to_body_string_keeps_bytes_and_no_content_type L"
    "test_json_value_to_body_non_string_uses_json_content_type L" "test_json_value_to_body_rejects_null L"
proof -
  show "test_json_value_to_body_string_keeps_bytes_and_no_content_type L"
    by (simp add: test_json_value_to_body_string_keeps_bytes_and_no_content_type_def)
  show "test_json_value_to_body_rejects_null L"
    by (simp add: test_json_value_to_body_rejects_null_def bad_request_def json_error_def json_response_def)
  show "test_json_value_to_body_non_string_uses_json_content_type L"
    using assms by (simp add: test_json_value_to_body_non_string_uses_json_content_type_def to_body_cases_def)
qed

section \<open>extract.rs\<close>

definition test_auth :: "resolved_identity \<Rightarrow> bool \<times> bool \<times> bool \<Rightarrow> permission \<Rightarrow> bucket_auth" where
  "test_auth identity presence anonymous =
     (case presence of
        (has_read, has_write, has_secret) \<Rightarrow>
          \<lparr>ba_identity = identity, ba_bucket_id = test_bucket,
           ba_policy_presence = \<lparr>has_read_key = has_read, has_write_key = has_write, has_secret_key = has_secret\<rparr>,
           ba_anonymous_access = anonymous, ba_default_ttl_secs = None\<rparr>)"

definition is_ok :: "response + unit \<Rightarrow> bool" where "is_ok r = (\<not> isl r)"

definition fails_with :: "nat \<Rightarrow> response + unit \<Rightarrow> bool" where
  "fails_with status r = (case r of Inl resp \<Rightarrow> rs_status resp = status | Inr _ \<Rightarrow> False)"

definition test_require_read_admin_ok :: bool where
  "test_require_read_admin_ok =
     is_ok (require_read_on (test_auth Admin (True, False, True) NONE) (Key (bs ''k'')))"

definition test_require_read_scoped_empty_prefix_ok :: bool where
  "test_require_read_scoped_empty_prefix_ok =
     is_ok (require_read_on (test_auth (Scoped READ_ONLY []) (True, False, False) NONE) (Key (bs ''any'')))"

definition test_require_read_scoped_prefix_match_ok :: bool where
  "test_require_read_scoped_prefix_match_ok =
     is_ok (require_read_on (test_auth (Scoped READ_ONLY (bs ''user:42:'')) (True, False, False) NONE)
       (Key (bs ''user:42:name'')))"

definition test_require_read_scoped_prefix_mismatch_forbidden :: bool where
  "test_require_read_scoped_prefix_mismatch_forbidden =
     fails_with 403 (require_read_on (test_auth (Scoped READ_ONLY (bs ''user:42:'')) (True, False, False) NONE)
       (Key (bs ''admin:config'')))"

definition test_require_read_anonymous_public_ok :: bool where
  "test_require_read_anonymous_public_ok =
     is_ok (require_read_on (test_auth Anonymous (False, False, False) NONE) (Key (bs ''k'')))"

definition test_require_read_anonymous_restricted_unauthorized :: bool where
  "test_require_read_anonymous_restricted_unauthorized =
     fails_with 401 (require_read_on (test_auth Anonymous (True, False, False) NONE) (Key (bs ''k'')))"

definition test_require_enumerate_anonymous_no_read_key_ok :: bool where
  "test_require_enumerate_anonymous_no_read_key_ok =
     is_ok (require_enumerate (test_auth Anonymous (False, False, False) NONE))"

definition test_require_enumerate_anonymous_has_read_key_unauthorized :: bool where
  "test_require_enumerate_anonymous_has_read_key_unauthorized =
     fails_with 401 (require_enumerate (test_auth Anonymous (True, False, False) NONE))"

definition test_require_write_anonymous_has_write_key_unauthorized :: bool where
  "test_require_write_anonymous_has_write_key_unauthorized =
     fails_with 401 (require_write_on (test_auth Anonymous (False, True, False) NONE) (Key (bs ''k'')))"

definition test_require_write_anonymous_public_ok :: bool where
  "test_require_write_anonymous_public_ok =
     is_ok (require_write_on (test_auth Anonymous (False, False, False) (anonymous_from_keys False False False))
       (Key (bs ''k'')))"

definition test_require_delete_anonymous_any_key_present_unauthorized :: bool where
  "test_require_delete_anonymous_any_key_present_unauthorized =
     fails_with 401 (require_delete_on (test_auth Anonymous (True, False, False) (anonymous_from_keys False True False))
       (Key (bs ''k'')))"

definition test_require_delete_anonymous_no_keys_ok :: bool where
  "test_require_delete_anonymous_no_keys_ok =
     is_ok (require_delete_on (test_auth Anonymous (False, False, False) (anonymous_from_keys False False False))
       (Key (bs ''k'')))"

lemma gate_tests_scoped:
  "test_require_read_admin_ok" "test_require_read_scoped_empty_prefix_ok" "test_require_read_scoped_prefix_match_ok"
  "test_require_read_scoped_prefix_mismatch_forbidden"
  by code_simp+

lemma gate_tests_anonymous:
  "test_require_read_anonymous_public_ok" "test_require_read_anonymous_restricted_unauthorized"
  "test_require_enumerate_anonymous_no_read_key_ok" "test_require_enumerate_anonymous_has_read_key_unauthorized"
  "test_require_write_anonymous_has_write_key_unauthorized" "test_require_write_anonymous_public_ok"
  "test_require_delete_anonymous_any_key_present_unauthorized" "test_require_delete_anonymous_no_keys_ok"
  by code_simp+

end
