(* ===== verification/Tests_Config.thy ===== *)
theory Tests_Config
  imports Config
begin

text \<open>
  The unit tests of \<open>keydock-config\<close> (the test module of \<open>config/mod.rs\<close>) that load a configuration, run on
  the model.  The text of each test's file stands as the value the TOML parser gives for it.
\<close>

section \<open>Helpers of the tests\<close>

definition MapEnv :: "(str \<times> str) list \<Rightarrow> env_source" where
  "MapEnv vars name = Inr (map_of vars name)"

definition test_dir :: path where "test_dir = bs ''/tmp/test''"

definition test_path :: path where "test_path = bs ''/tmp/test/keydock.toml''"

text \<open>A library whose parser gives the value of the one configuration file.\<close>

definition parses :: "toml raw_config_of \<Rightarrow> config_lib" where
  "parses raw = wire_config\<lparr>cl_toml_from_str := (\<lambda>_. Some raw)\<rparr>"

definition files :: "(path \<times> str) list \<Rightarrow> path \<Rightarrow> string + str" where
  "files fs p = (case map_of fs p of None \<Rightarrow> Inl ''not found'' | Some text \<Rightarrow> Inr text)"

text \<open>\<open>write_config\<close>: the file exists; its text is not looked at.\<close>

definition write_config :: "path \<Rightarrow> string + str" where
  "write_config = files [(test_path, [])]"

definition only_root_key :: "toml \<Rightarrow> toml raw_config_of" where
  "only_root_key k =
     \<lparr>rc_http = default_http_config, rc_paths = default_paths_config, rc_log_json = False, rc_root_key = Some k,
      rc_gc = default_gc_config, rc_rate_limit = default_rate_limit_config\<rparr>"

definition root_key_is :: "str \<Rightarrow> config_error + config \<Rightarrow> bool" where
  "root_key_is s r = (case r of Inl _ \<Rightarrow> False | Inr c \<Rightarrow> expose_bytes (cfg_root_key c) = s)"

section \<open>Sources of the root key\<close>

definition test_load_from_file_accepts_root_key_inline_forms :: bool where
  "test_load_from_file_accepts_root_key_inline_forms =
     list_all (\<lambda>k. root_key_is (bs ''inline-secret'')
         (load_from_file (parses (only_root_key k)) write_config (\<lambda>_. None) test_path))
       [TomlString (bs ''inline-secret''), TomlTable [(bs ''value'', TomlString (bs ''inline-secret''))]]"

definition test_load_from_file_accepts_root_key_env_source :: bool where
  "test_load_from_file_accepts_root_key_env_source =
     root_key_is (bs ''env-secret'')
       (load_from_file_with_env (parses (only_root_key (TomlTable [(bs ''env'', TomlString (bs ''CUSTOM_ROOT_KEY''))])))
         write_config test_path (MapEnv [(bs ''CUSTOM_ROOT_KEY'', bs ''env-secret'')]))"

definition test_load_from_file_accepts_root_key_file_source_relative_to_config_dir :: bool where
  "test_load_from_file_accepts_root_key_file_source_relative_to_config_dir =
     root_key_is (bs ''file-secret'')
       (load_from_file (parses (only_root_key (TomlTable [(bs ''file'', TomlString (bs ''root.secret''))])))
         (files [(path_join test_dir (bs ''root.secret''), bs ''file-secret'' @ [0x0A]), (test_path, [])])
         (\<lambda>_. None) test_path)"

lemma root_key_source_tests:
  "test_load_from_file_accepts_root_key_inline_forms" "test_load_from_file_accepts_root_key_env_source"
  "test_load_from_file_accepts_root_key_file_source_relative_to_config_dir"
  by code_simp+

section \<open>Layers\<close>

definition addr :: "16 word \<Rightarrow> socket_addr" where "addr port = SocketAddrV4 127 0 0 1 port"

definition test_load_from_sources_applies_env_before_cli :: bool where
  "test_load_from_sources_applies_env_before_cli =
     (let raw = \<lparr>rc_http = \<lparr>hc_listen = addr 1111, hc_metrics_listen = None\<rparr>, rc_paths = \<lparr>pc_data_dir = bs ''./from-file''\<rparr>,
            rc_log_json = False, rc_root_key = Some (TomlString (bs ''file-secret'')), rc_gc = \<lparr>gc_interval_secs = 10\<rparr>,
            rc_rate_limit = \<lparr>rl_enabled = False, rl_requests_per_hour = 10\<rparr>\<rparr>;
          env = MapEnv [(ENV_HTTP_LISTEN, bs ''127.0.0.1:2222''), (ENV_PATHS_DATA_DIR, bs ''./from-env''),
            (ENV_LOG_JSON, bs ''true''), (ENV_ROOT_KEY, bs ''env-secret''), (ENV_GC_INTERVAL_SECS, bs ''20''),
            (ENV_RATE_LIMIT_ENABLED, bs ''1''), (ENV_RATE_LIMIT_REQUESTS_PER_HOUR, bs ''30'')];
          sources = \<lparr>src_config_path = Some test_path, src_listen = Some (addr 3333),
            src_data_dir = Some (bs ''./from-cli''), src_apply_env = True\<rparr>
      in case load_from_sources_with_env (parses raw) write_config sources env of
           Inl _ \<Rightarrow> False
         | Inr loaded \<Rightarrow>
             hc_listen (cfg_http loaded) = addr 3333 \<and> pc_data_dir (cfg_paths loaded) = bs ''./from-cli''
             \<and> cfg_log_json loaded \<and> expose_bytes (cfg_root_key loaded) = bs ''env-secret''
             \<and> gc_interval_secs (cfg_gc loaded) = 20 \<and> rl_enabled (cfg_rate_limit loaded)
             \<and> rl_requests_per_hour (cfg_rate_limit loaded) = 30)"

definition test_load_from_sources_no_env_ignores_keydock_overrides :: bool where
  "test_load_from_sources_no_env_ignores_keydock_overrides =
     (let raw = (only_root_key (TomlString (bs ''file-secret'')))
            \<lparr>rc_http := \<lparr>hc_listen = addr 1111, hc_metrics_listen = None\<rparr>, rc_paths := \<lparr>pc_data_dir = bs ''./from-file''\<rparr>\<rparr>;
          env = MapEnv [(ENV_HTTP_LISTEN, bs ''127.0.0.1:2222''), (ENV_ROOT_KEY, bs ''env-secret'')];
          sources = \<lparr>src_config_path = Some test_path, src_listen = None, src_data_dir = None, src_apply_env = False\<rparr>
      in case load_from_sources_with_env (parses raw) write_config sources env of
           Inl _ \<Rightarrow> False
         | Inr loaded \<Rightarrow> hc_listen (cfg_http loaded) = addr 1111
             \<and> expose_bytes (cfg_root_key loaded) = bs ''file-secret'')"

definition test_load_from_sources_no_env_toml_indirection_still_resolves :: bool where
  "test_load_from_sources_no_env_toml_indirection_still_resolves =
     root_key_is (bs ''resolved-secret'')
       (load_from_sources_with_env (parses (only_root_key (TomlTable [(bs ''env'', TomlString (bs ''CUSTOM_KEY''))])))
         write_config
         \<lparr>src_config_path = Some test_path, src_listen = None, src_data_dir = None, src_apply_env = False\<rparr>
         (MapEnv [(bs ''CUSTOM_KEY'', bs ''resolved-secret''), (ENV_ROOT_KEY, bs ''should-be-ignored'')]))"

lemma layer_tests:
  "test_load_from_sources_applies_env_before_cli" "test_load_from_sources_no_env_ignores_keydock_overrides"
  "test_load_from_sources_no_env_toml_indirection_still_resolves"
  by code_simp+

section \<open>Rejections\<close>

definition test_load_from_file_rejects_empty_root_key :: bool where
  "test_load_from_file_rejects_empty_root_key =
     list_all (\<lambda>k. load_from_file (parses (only_root_key (TomlString k))) write_config (\<lambda>_. None) test_path
         = Inl EmptyRootKey) [[], bs ''   '']"

definition test_load_from_file_rejects_insecure_root_key_placeholder :: bool where
  "test_load_from_file_rejects_insecure_root_key_placeholder =
     (load_from_file (parses (only_root_key
          (TomlString (bs ''REPLACE_WITH_SECRET_FROM_keydock_init_OR_LONG_RANDOM_VALUE''))))
        write_config (\<lambda>_. None) test_path = Inl InsecureRootKeyPlaceholder)"

definition test_load_from_sources_requires_root_key :: bool where
  "test_load_from_sources_requires_root_key =
     (load_from_sources_with_env wire_config write_config
        \<lparr>src_config_path = None, src_listen = None, src_data_dir = None, src_apply_env = True\<rparr> (MapEnv [])
        = Inl MissingRootKey)"

definition test_load_from_file_rejects_unknown_root_key_table_source :: bool where
  "test_load_from_file_rejects_unknown_root_key_table_source =
     (load_from_file (parses (only_root_key (TomlTable [(bs ''unknown'', TomlString (bs ''x''))])))
        write_config (\<lambda>_. None) test_path = Inl (ConfigParse test_path))"

text \<open>What \<open>Debug\<close> shows in place of the key does not depend on the key.\<close>

definition test_config_debug_redacts_root_key :: bool where
  "test_config_debug_redacts_root_key =
     (let config = \<lparr>cfg_http = default_http_config, cfg_paths = default_paths_config, cfg_log_json = False,
            cfg_root_key = LoadedSecret (bs ''super-secret''), cfg_gc = default_gc_config,
            cfg_rate_limit = default_rate_limit_config\<rparr>;
          shown = fst (snd (snd (snd (config_debug config))))
      in \<not> contains_sub shown (bs ''super-secret'') \<and> contains_sub shown (bs ''[REDACTED]''))"

lemma rejection_tests:
  "test_load_from_file_rejects_empty_root_key" "test_load_from_file_rejects_insecure_root_key_placeholder"
  "test_load_from_sources_requires_root_key" "test_load_from_file_rejects_unknown_root_key_table_source"
  "test_config_debug_redacts_root_key"
  by code_simp+

end
