(* ===== verification/Tests_Init.thy ===== *)
theory Tests_Init
  imports Init
begin

text \<open>
  The unit tests of \<open>keydock-config\<close> (the test module of \<open>config/mod.rs\<close>) that bootstrap an instance, run
  on the model over the file system in memory.  They hold for every instance directory that does
  not exist yet, for all identifiers the generator may deliver, and for every implementation of
  TOML that can print the configuration and reads back what it printed.
\<close>

section \<open>The tests\<close>

definition test_write_init_config_creates_round_trip :: "config_lib \<Rightarrow> str \<Rightarrow> str \<Rightarrow> path \<Rightarrow> mem_fs \<Rightarrow> bool" where
  "test_write_init_config_creates_round_trip L u1 u2 inst fs =
     (case write_init_config L mem_files u1 u2 inst False fs of
        (Inl _, _) \<Rightarrow> False
      | (Inr config_path, fs') \<Rightarrow>
          config_path = path_join inst CONFIG_FILENAME
          \<and> (case load_from_file L (fs_read_to_string mem_files fs') (\<lambda>_. None) config_path of
               Inl _ \<Rightarrow> False
             | Inr loaded \<Rightarrow>
                 hc_listen (cfg_http loaded) = default_listen \<and> hc_metrics_listen (cfg_http loaded) = None
                 \<and> \<not> cfg_log_json loaded
                 \<and> Inr (pc_data_dir (cfg_paths loaded)) = fs_canonicalize mem_files fs' (path_join inst (bs ''data''))
                 \<and> gc_interval_secs (cfg_gc loaded) = 60
                 \<and> \<not> rl_enabled (cfg_rate_limit loaded) \<and> rl_requests_per_hour (cfg_rate_limit loaded) = 1000))"

definition test_write_init_config_fails_when_exists_without_force ::
  "config_lib \<Rightarrow> str \<Rightarrow> str \<Rightarrow> str \<Rightarrow> str \<Rightarrow> path \<Rightarrow> mem_fs \<Rightarrow> bool" where
  "test_write_init_config_fails_when_exists_without_force L u1 u2 v1 v2 inst fs =
     (case write_init_config L mem_files u1 u2 inst False fs of
        (Inl _, _) \<Rightarrow> False
      | (Inr _, fs') \<Rightarrow>
          (case write_init_config L mem_files v1 v2 inst False fs' of (Inl (AlreadyExists _), _) \<Rightarrow> True | _ \<Rightarrow> False))"

definition test_write_init_config_force_overwrites ::
  "config_lib \<Rightarrow> str \<Rightarrow> str \<Rightarrow> str \<Rightarrow> str \<Rightarrow> path \<Rightarrow> mem_fs \<Rightarrow> bool \<Rightarrow> bool" where
  "test_write_init_config_force_overwrites L u1 u2 v1 v2 inst fs first_force =
     (case write_init_config L mem_files u1 u2 inst first_force fs of
        (Inl _, _) \<Rightarrow> False
      | (Inr _, fs') \<Rightarrow>
          (case write_init_config L mem_files v1 v2 inst True fs' of
             (Inl _, _) \<Rightarrow> False
           | (Inr p, fs'') \<Rightarrow>
               (case load_from_file L (fs_read_to_string mem_files fs'') (\<lambda>_. None) p of
                  Inl _ \<Rightarrow> False
                | Inr loaded \<Rightarrow> expose_bytes (cfg_root_key loaded) \<noteq> [])))"

section \<open>They hold\<close>

text \<open>In memory nothing fails: an \<open>init\<close> on a directory, with nothing in its way, writes the file.\<close>

lemma mem_init:
  assumes "map_of (mf_files fs) inst = None \<or> inst \<in> set (mf_dirs fs)"
    and "force \<or> \<not> fs_exists mem_files (fs\<lparr>mf_dirs := inst # mf_dirs fs\<rparr>) (path_join inst CONFIG_FILENAME)"
    and "cl_toml_to_string L (build_init_config u1 u2 (path_join inst (bs ''data''))) = Some t"
  obtains fs' where "write_init_config L mem_files u1 u2 inst force fs = (Inr (path_join inst CONFIG_FILENAME), fs')"
    and "mem_texts fs' (path_join inst CONFIG_FILENAME) = Some t" and "inst \<in> set (mf_dirs fs')"
proof -
  let ?q = "path_join inst CONFIG_FILENAME"
  let ?fs1 = "fs\<lparr>mf_dirs := inst # mf_dirs fs\<rparr>"
  let ?fs2 = "?fs1\<lparr>mf_dirs := path_join inst (bs ''data'') # mf_dirs ?fs1\<rparr>"
  have "\<not> (fs_exists mem_files fs inst \<and> \<not> fs_is_dir mem_files fs inst)"
    using assms(1) by (auto simp: mem_files_def)
  then have w: "write_init_config L mem_files u1 u2 inst force fs =
      io_then (write_config_file mem_files inst ?q t ?fs2) (\<lambda>_ fs3.
      io_then (io_err (InitIo ?q) (fs_set_permissions mem_files fs3 ?q 0x180)) (\<lambda>_ fs4. (Inr ?q, fs4)))"
    using assms(2,3) by (auto simp: write_init_config_def mem_files_def Let_def)
  obtain fs3 where "write_config_file mem_files inst ?q t ?fs2 = (Inr (), fs3)"
    and f: "map_of (mf_files fs3) ?q = Some (t, 0x180)" "mf_dirs fs3 = mf_dirs ?fs2"
    by (simp add: write_config_file_def mem_files_def Let_def)
  moreover from f have "fs_set_permissions mem_files fs3 ?q 0x180
      = (Inr (), fs3\<lparr>mf_files := (?q, t, 0x180) # mf_files fs3\<rparr>)"
    by (simp add: mem_files_def)
  ultimately show thesis using w f
    by (intro that [of "fs3\<lparr>mf_files := (?q, t, 0x180) # mf_files fs3\<rparr>"]) (simp_all add: mem_texts_def)
qed

lemma load_printed:
  assumes "toml_api L" and "cl_toml_to_string L (build_init_config u1 u2 data) = Some t"
    and "length u1 = 36" and "length u2 = 36" and "list_all is_graph (u1 @ u2)"
    and "mem_texts fs p = Some t"
  shows "load_from_file L (fs_read_to_string mem_files fs) vars p = Inr (build_init_config u1 u2 data)"
proof -
  have "fs_read_to_string mem_files fs p = Inr t"
    using mem_fs.read_texts [OF assms(6)] toml_api.toml_utf8 [OF assms(1,2)] by blast
  then show ?thesis
    using toml_api.config_read_back [OF assms(1,2)] graph_key_valid [OF assms(3-5)]
    by (simp add: load_from_file_def load_from_file_with_env_def read_raw_config_def RawConfig_resolve_def
        resolve_root_key_def root_key_value_def build_init_config_def)
qed

lemma init_tests:
  assumes "toml_api L" and "length u1 = 36" "length u2 = 36" "list_all is_graph (u1 @ u2)"
    and "length v1 = 36" "length v2 = 36" "list_all is_graph (v1 @ v2)"
    and "\<And>u1 u2. cl_toml_to_string L (build_init_config u1 u2 (path_join inst (bs ''data''))) \<noteq> None"
    and "map_of (mf_files fs) inst = None"
    and "\<not> fs_exists mem_files (fs\<lparr>mf_dirs := inst # mf_dirs fs\<rparr>) (path_join inst CONFIG_FILENAME)"
  shows "test_write_init_config_creates_round_trip L u1 u2 inst fs"
    and "test_write_init_config_fails_when_exists_without_force L u1 u2 v1 v2 inst fs"
    and "test_write_init_config_force_overwrites L u1 u2 v1 v2 inst fs first_force"
proof -
  let ?q = "path_join inst CONFIG_FILENAME" and ?d = "path_join inst (bs ''data'')"
  obtain t where t: "cl_toml_to_string L (build_init_config u1 u2 ?d) = Some t" using assms(8) by blast
  obtain t' where t': "cl_toml_to_string L (build_init_config v1 v2 ?d) = Some t'" using assms(8) by blast
  have first: "\<exists>fs'. write_init_config L mem_files u1 u2 inst force fs = (Inr ?q, fs')
      \<and> mem_texts fs' ?q = Some t \<and> inst \<in> set (mf_dirs fs')" for force
    using mem_init [OF disjI1 [OF assms(9)] disjI2 [OF assms(10)] t] by metis
  then obtain fs' where fs': "write_init_config L mem_files u1 u2 inst False fs = (Inr ?q, fs')"
    "mem_texts fs' ?q = Some t" "inst \<in> set (mf_dirs fs')" by blast
  show "test_write_init_config_creates_round_trip L u1 u2 inst fs"
    using fs'(1) load_printed [OF assms(1) t assms(2-4) fs'(2)]
    by (simp add: test_write_init_config_creates_round_trip_def)
      (simp add: build_init_config_def mem_files_def default_http_config_def default_gc_config_def
        default_rate_limit_config_def default_gc_interval_secs_def default_requests_per_hour_def)
  have "write_init_config L mem_files v1 v2 inst False fs' = (Inl (AlreadyExists ?q), fs'\<lparr>mf_dirs := inst # mf_dirs fs'\<rparr>)"
    using fs'(2,3) by (auto simp: write_init_config_def mem_files_def mem_texts_def Let_def)
  then show "test_write_init_config_fails_when_exists_without_force L u1 u2 v1 v2 inst fs"
    using fs'(1) by (simp add: test_write_init_config_fails_when_exists_without_force_def)
  obtain fs1 where fs1: "write_init_config L mem_files u1 u2 inst first_force fs = (Inr ?q, fs1)"
    "inst \<in> set (mf_dirs fs1)" using first by blast
  obtain fs2 where fs2: "write_init_config L mem_files v1 v2 inst True fs1 = (Inr ?q, fs2)" "mem_texts fs2 ?q = Some t'"
    by (rule mem_init [OF disjI2 [OF fs1(2)] _ t', of True]) simp_all
  have "expose_bytes (cfg_root_key (build_init_config v1 v2 ?d)) \<noteq> []" by (simp add: build_init_config_def bs_def)
  then show "test_write_init_config_force_overwrites L u1 u2 v1 v2 inst fs first_force"
    using fs1(1) fs2(1) load_printed [OF assms(1) t' assms(5-7) fs2(2)]
    by (simp add: test_write_init_config_force_overwrites_def)
qed

text \<open>With the demonstration printer, in a new directory.\<close>

lemma demo_init_tests:
  "test_write_init_config_creates_round_trip wire_config demo_uuid demo_uuid (bs ''/srv/instance'') demo_fs"
  "test_write_init_config_fails_when_exists_without_force wire_config demo_uuid demo_uuid demo_uuid demo_uuid
     (bs ''/srv/instance'') demo_fs"
  "test_write_init_config_force_overwrites wire_config demo_uuid demo_uuid demo_uuid demo_uuid
     (bs ''/srv/instance'') demo_fs first_force"
proof -
  have u: "length demo_uuid = 36" "list_all is_graph (demo_uuid @ demo_uuid)"
    by (simp_all add: demo_uuid_def is_graph_def list_all_iff)
  have p: "cl_toml_to_string wire_config (build_init_config u1 u2 d) \<noteq> None" for u1 u2 d
    by (simp add: wire_config_def put_config_def build_init_config_def default_http_config_def default_listen_def)
  have n: "map_of (mf_files demo_fs) (bs ''/srv/instance'') = None"
    "\<not> fs_exists mem_files (demo_fs\<lparr>mf_dirs := bs ''/srv/instance'' # mf_dirs demo_fs\<rparr>)
        (path_join (bs ''/srv/instance'') CONFIG_FILENAME)" by code_simp+
  note ok = init_tests [OF wire_toml.toml_api_axioms u(1) u(1) u(2) u(1) u(1) u(2) p n]
  show "test_write_init_config_creates_round_trip wire_config demo_uuid demo_uuid (bs ''/srv/instance'') demo_fs"
    "test_write_init_config_fails_when_exists_without_force wire_config demo_uuid demo_uuid demo_uuid demo_uuid
       (bs ''/srv/instance'') demo_fs"
    "test_write_init_config_force_overwrites wire_config demo_uuid demo_uuid demo_uuid demo_uuid
       (bs ''/srv/instance'') demo_fs first_force"
    by (rule ok)+
qed

end
