(* ===== verification/Tests_Store.thy ===== *)
theory Tests_Store
  imports Store
begin

text \<open>
  The unit test in \<open>keydock-fjall/src/gc.rs\<close>, run on the in-memory instance of the database: index keys
  inserted in any order are iterated in the order of their times.
\<close>

definition index_insert :: "mem_db \<Rightarrow> i64 \<Rightarrow> mem_db" where
  "index_insert db ts =
     snd (fj_insert (sv_fjall mem_env) db EXPIRY_KEYSPACE (expiry_index_key ts (bs ''k'' @ show_nat (unat ts))) [])"

definition iterated_times :: "mem_db \<Rightarrow> i64 option list" where
  "iterated_times db =
     map (\<lambda>g. case g of Inl _ \<Rightarrow> None | Inr (uk, _) \<Rightarrow> map_option fst (parse_expiry_index_key uk))
       (fj_iter (sv_fjall mem_env) db EXPIRY_KEYSPACE)"

definition test_expiry_keyspace_iterates_in_ascending_key_order :: bool where
  "test_expiry_keyspace_iterates_in_ascending_key_order =
     (let times = iterated_times (foldl index_insert (st_db mem_store) [100, 10, 50])
      in None \<notin> set times \<and> sorted (map (sint \<circ> the) times))"

lemma gc_tests: "test_expiry_keyspace_iterates_in_ascending_key_order"
  by code_simp

end
