(* ===== verification/Spec2Isabelle.thy ===== *)
theory Spec2Isabelle
  imports Serving Interleaved Concurrent Openapi Storage_Metrics Cli_Help Testkit
    Tests_Domain Tests_Usecase Tests_Http Tests_Config Tests_Init Tests_Store
begin

text \<open>
  A verification of Keydock, a multi-tenant key-value server over the embedded database
  \<open>fjall\<close> (the repository's \<open>crates/\<close> and \<open>apps/keydock\<close>).

  \<^bold>\<open>The program.\<close>  A client sends HTTP requests to buckets.  The router (\<open>keydock-http/src/router.rs\<close>)
  picks a handler; the extractor \<open>BucketAuth\<close> (\<open>extract.rs\<close>, \<open>auth.rs\<close>) finds the bucket, its
  policy and the caller's identity; the handler's gates check the permission; the use cases
  (\<open>keydock-usecase\<close>) infer values, resolve times to live and call the repositories; the
  adapter (\<open>keydock-fjall\<close>) reads and writes three keyspaces: policies, entries and the expiry
  index.  A background task sweeps expired entries.  \<open>keydock init\<close> writes a configuration
  (\<open>keydock-config\<close>), \<open>keydock serve\<close> (\<open>main.rs\<close>) loads it and wires everything.

  \<^bold>\<open>The theories\<close>, each on top of the ones it calls:
  \<^item> \<open>Prelude\<close>, \<open>Rust_Std\<close>, \<open>F64\<close>: collections of theorems, results and \<open>?\<close>, UTF-8, trimming, prefix and
    integer parsing, IEEE doubles with rounding and decimal text, as the code uses them.
  \<^item> \<open>Domain\<close>, \<open>Counter\<close> (\<open>keydock-domain\<close>): identifiers, keys, values, permissions, policies, claims;
    counter operations with checked 64-bit and finite floating-point arithmetic.
  \<^item> \<open>Ports\<close>, \<open>Repository\<close> (\<open>keydock-usecase/src/ports.rs\<close>): the repositories as records of functions,
    and as locales (\<open>key_repository\<close>, \<open>bucket_repository\<close>) what they promise; the laws of the time crate,
    of \<open>fjall\<close> and of \<open>postcard\<close>.
  \<^item> \<open>Repos\<close>, \<open>Backend\<close>, \<open>Locks\<close>, \<open>Store\<close>, \<open>Listing\<close>, \<open>Buckets\<close>, \<open>Gc\<close>, \<open>Sweeper\<close> (\<open>keydock-fjall\<close>): storage keys and
    entry codec, an in-memory instance of every third-party interface, the striped write locks
    as a step relation, the operations of \<open>FjallStore\<close>, the sweep and the task that runs it.  The
    adapter is shown to satisfy both repository contracts by \<open>sublocale\<close>.
  \<^item> \<open>Keys\<close>, \<open>Auth\<close> (\<open>keydock-usecase\<close>): the key and transaction services over any repository; hashing
    and verification of credentials, tokens, identities.
  \<^item> \<open>Http_Base\<close>, \<open>Http_Auth\<close>, \<open>Http_Keys\<close>, \<open>Http_Buckets\<close>, \<open>Router\<close> (\<open>keydock-http\<close>): error envelopes, credential
    extraction, the gates, every handler, the route table and a whole request
    (\<open>handle_request\<close>).
  \<^item> \<open>Config\<close>, \<open>Init\<close>, \<open>Cli\<close> (\<open>keydock-config\<close>): layered configuration, the root key and its sources,
    \<open>keydock init\<close> over a file system, the command line over a lexer, its help texts (\<open>Cli_Help\<close>).
  \<^item> \<open>Micro\<close>, \<open>Atomic\<close>, \<open>Concurrent\<close> (\<open>keydock-fjall\<close> under threads): the operations and the sweep cut at
    their lock acquisitions and database calls (\<open>prepare\<close>, \<open>micro\<close>), what each does as one atomic
    step on a map of entries (\<open>atomic\<close>), and all interleavings of many threads (\<open>cruns\<close>).
  \<^item> \<open>Server\<close>, \<open>Typed\<close>, \<open>Startup\<close>, \<open>Serving\<close>: the running server as a state machine whose steps are
    requests and sweep steps; the type invariant of the data keyspace; \<open>main\<close>; the tasks of a serving
    process with signals, cancellation, graceful shutdown and exit (\<open>main.rs\<close>).
  \<^item> \<open>Openapi\<close>, \<open>Http_Metrics\<close>, \<open>Policy_Race\<close>, \<open>Percent\<close> (\<open>keydock-http\<close>): the API description against the router and
    the handlers; the metrics middleware; \<open>update_policy\<close> as the two storage calls it makes; keys in
    paths, which are decoded twice.
  \<^item> \<open>Storage_Metrics\<close> (\<open>keydock-fjall\<close>): the operations of the store and the sweep once more, with the
    counters they record.
  \<^item> \<open>Interleaved\<close>: requests cut at their storage calls, and every interleaving of many of them
    with the sweeper (\<open>task_run\<close>); \<open>Demo_Server\<close>: the concrete server the witnesses run.
  \<^item> \<open>Testkit\<close> (\<open>keydock-testkit\<close>): the application under test, its helpers and the faults it injects;
    \<open>Tests_Domain\<close>, \<open>Tests_Usecase\<close>, \<open>Tests_Http\<close>, \<open>Tests_Config\<close>, \<open>Tests_Init\<close>, \<open>Tests_Store\<close>: the unit tests of the crates as
    Boolean functions, which hold of the model.

  \<^bold>\<open>Correspondence.\<close>  A struct is a record, an enum a datatype, a method \<open>T::f\<close> the function \<open>T_f\<close> (or
  \<open>f\<close>), with the source's names.  \<open>Result\<close> is a sum whose left side is the error.  Bytes and
  strings are lists of 8-bit words, 64-bit integers 64-bit words read signed or unsigned, an
  \<open>OffsetDateTime\<close> its nanosecond as an \<open>int\<close>.  The store (\<open>'db store\<close>) is the database with the set of
  poisoned locks; an operation that writes returns the store after it.  Every reading of the
  clock and every random identifier is an argument (\<open>readings\<close>).  A panic is a value of its own
  (\<open>Panicked\<close>).  Third-party code (\<open>fjall\<close>, \<open>postcard\<close>, \<open>time\<close>, HMAC, base64, \<open>serde_json\<close>, \<open>toml\<close>, \<open>lexopt\<close>, \<open>tempfile\<close>
  and the file system, \<open>axum\<close> with its layers) is a record of functions; what the program relies
  on is a locale over that record (\<open>fjall_db\<close>, \<open>postcard_api\<close>, \<open>time_api\<close>, \<open>crypto_api\<close>, \<open>policy_json_api\<close>,
  \<open>toml_api\<close>, \<open>file_system\<close>, \<open>lexer\<close>), each with an interpretation on a concrete instance, which the
  witnesses evaluate.  In \<open>fjall_db\<close> every call may fail, and a failed write may or may not have
  happened.

  \<^bold>\<open>What the theorems show.\<close>
  \<^item> Here and in \<open>Interleaved\<close>: the invariant of the server (complete expiry index, consistent policies,
    separate buckets) in every reachable state, across restarts and under every interleaving of
    requests; the permission model is enforced in every reachable state; an entry changes only by
    a request that was authorised for it; stored data is well typed, so reads never fail on it.
    In one piece, the pieces of a request are the whole request.
  \<^item> Requests: transactions are all or nothing; what is put is got; refused requests change
    nothing; \<open>HEAD\<close> mirrors \<open>GET\<close>; listings show exactly the visible live entries; created and patched
    policies are what was asked; a created token grants what was asked and a token is accepted
    exactly when genuine and current.
  \<^item> Storage: set, get, delete, increment and batch refine a map from bucket and key to entry;
    the listing is the page of the sorted live entries; policies round-trip; locks do not
    deadlock; a sweep spares live entries, collects all expired ones under any interleaving of
    turns and clients, and strands an entry when the database fails at the wrong moment.
  \<^item> Concurrency: cut into its database calls, an operation is still the operation; every history
    of any number of threads is linearisable with respect to the atomic operations; acknowledged
    increments add up; with no new calls every running operation returns.  The policies have no
    such lock: two racing updates can lose one, and an update can bring a deleted bucket back.
  \<^item> The process: whatever events its tasks see, its store is one the invariant holds of; exit status 0
    means that the shutdown was asked for and every accepted request answered; after the signal
    every run is finite and a run that cannot go on has exited.
  \<^item> Documentation and metrics: the documented routes are the served ones; every status a handler answers
    is documented, up to the omissions listed in \<open>undocumented\<close>; the request counters are exact, and
    so are the counters of storage operations and errors; the sweep counts what it removes; the
    help texts name what the command line accepts.
  \<^item> Tests: the application under test is the one \<open>serve\<close> assembles, and injected faults surface
    where the tests look for them; the unit tests of the crates hold, for every implementation of
    the third-party code that they rely on.
  \<^item> Configuration: precedence of command line, environment, file and defaults; \<open>--no-env\<close>;
    malformed variables are refused; \<open>init\<close> is atomic and its result is accepted by \<open>serve\<close>; the
    argument parsers terminate; a started server is wired as configured.

  \<^bold>\<open>Loops and bounds.\<close>  Loops over data are structural recursion.  The two argument loops run as
  long as the lexer delivers, so they are partial functions into \<open>option\<close>; under \<open>lexer\<close> (every
  argument shortens the input) they are shown to return.  No definition uses fuel.  A sweep
  visits the snapshot its iterator was opened on.

  The work left to a thread (\<open>work_left\<close>) and to a process after the signal (\<open>shutdown_work\<close>) are the
  measures of the two liveness theorems; a job makes at most three database calls.

  \<^bold>\<open>Not modelled.\<close>  Log lines, the schemas of the OpenAPI document and the Prometheus text format
  have no effect on data.  Sockets and connections are events of \<open>Serving\<close>, which the environment
  chooses.  In \<open>Server\<close> and \<open>Serving\<close> a request is one atomic step.  \<open>Interleaved\<close> cuts it at its storage calls and
  takes each call as atomic, which \<open>Concurrent\<close> justifies for the operations on entries (a listing
  reads a snapshot of the database); \<open>Policy_Race\<close> shows what atomic requests would hide.  The
  system clock is an argument, so the test that it never goes back is not here.  Derived
  deserialisation (\<open>serde\<close>) is a parameter, and with it the tests of \<open>TxnRequest\<close> alone.  The integration
  tests, the TypeScript SDK and the site are not part of the server.
\<close>

section \<open>Properties of the whole server\<close>

text \<open>
  Whatever requests and sweeps a server that started on an empty database has served, in
  any order, the expiry index is complete, every stored policy has anonymous flags that agree
  with its configured keys, and every bucket identifier keeps its keys apart; the backend's
  reads and removals are assumed to work.
\<close>

lemma server_invariant:
  assumes "fjall_backend S view valid J" and "wired S J L A" and "reliable (sv_fjall S)"
    and "view (st_db st0) = (\<lambda>_ _. None)" and "server_reachable S valid L X A opts st0 st"
  shows "index_inv (sv_codec S) (view (st_db st)) \<and> policies_consistent J (view (st_db st))"
  by (rule fjall_backend.server_reachable_inv [OF assms(1,5,2,3) fjall_backend.empty_inv [OF assms(1,4)]])

lemma server_invariant_example:
  "\<exists>st. server_reachable mem_env time_valid demo_lib demo_axum demo_app default_router_options mem_store st \<and> st \<noteq> mem_store
     \<and> policies_consistent wire_policy (mem_view (st_db st))"
proof -
  obtain st where r: "server_reachable mem_env time_valid demo_lib demo_axum demo_app default_router_options mem_store st"
    and "st \<noteq> mem_store" by (rule demo_reachable)
  then show ?thesis
    using server_invariant [OF mem_backend.fjall_backend_axioms demo_wired mem_reliable mem_store_empty r] by blast
qed



text \<open>
  Requests change only what their caller may change: in every reachable state, if handling
  an HTTP request alters an entry, then the extractor resolved an identity for the bucket in
  the request's path, the entry is in that bucket, and that identity may write or delete its
  key.
\<close>

lemma http_changes_are_authorised:
  assumes "fjall_backend S view valid J" and "wired S J L A" and "reliable (sv_fjall S)"
    and "view (st_db st0) = (\<lambda>_ _. None)" and "server_reachable S valid L X A opts st0 st"
    and "handle_request L X A opts rd st req = (r, st')" and "bucket_ok b"
    and "abs_entry (sv_codec S) (view (st_db st')) b k \<noteq> abs_entry (sv_codec S) (view (st_db st)) b k"
  shows "\<exists>m params path auth. routed X opts req = Some (m, params, path)
    \<and> from_request_parts L A (rd_auth_now rd) st path (rq_query req) (rq_authorization req) = Inr auth
    \<and> ba_bucket_id auth = b \<and> (may p_write auth k \<or> may p_delete auth k)"
  by (rule fjall_backend.request_entries [OF assms(1,6,2) _ assms(7,8)])
    (rule fjall_backend.server_reachable_inv [OF assms(1,5,2,3) fjall_backend.empty_inv [OF assms(1,4)]])

lemma http_changes_are_authorised_example:
  "\<exists>st auth. server_reachable mem_env time_valid demo_lib demo_axum demo_app default_router_options mem_store st
     \<and> ba_bucket_id auth = BucketId (bs ''b1'') \<and> (may p_write auth demo_key \<or> may p_delete auth demo_key)"
proof -
  obtain st p where st: "server_reachable mem_env time_valid demo_lib demo_axum demo_app default_router_options mem_store st"
    and p: "fjall_get_policy mem_env wire_policy st (BucketId (bs ''b1'')) = Inr (Some p)" "write_key_hash p = None"
      "policy_consistent p" "default_ttl_secs p = Some 604800" "st_poisoned st = (\<lambda>_. False)"
    and e: "abs_entry wire_codec (mem_view (st_db st)) (BucketId (bs ''b1'')) demo_key = None" by (rule demo_reachable)
  obtain r st' where h: "handle_request demo_lib demo_axum demo_app default_router_options demo_readings st
      (demo_request PUT ''/api/v1/b1/n'' ''hi'') = (Done r, st')"
    and e': "abs_entry wire_codec (mem_view (st_db st')) (BucketId (bs ''b1'')) demo_key \<noteq> None"
    by (rule demo_put_request [OF p])
  have b: "bucket_ok (BucketId (bs ''b1''))" by code_simp
  have "abs_entry (sv_codec mem_env) (mem_view (st_db st')) (BucketId (bs ''b1'')) demo_key
      \<noteq> abs_entry (sv_codec mem_env) (mem_view (st_db st)) (BucketId (bs ''b1'')) demo_key" using e e' by simp
  from http_changes_are_authorised [OF mem_backend.fjall_backend_axioms demo_wired mem_reliable mem_store_empty st h b this]
  show ?thesis using st by blast
qed



text \<open>
  Stored data is well typed: whatever requests and sweeps the server has served, every
  record of the data keyspace lies under a bucket and a key within the limits and decodes to
  an entry with a value within the limits; so reading a key never fails on a record and gives
  exactly the stored entry.
\<close>

lemma stored_data_well_typed:
  assumes "fjall_backend S view valid J" and "wired S J L A" and "reliable (sv_fjall S)"
    and "view (st_db st0) = (\<lambda>_ _. None)" and "server_reachable S valid L X A opts st0 st"
  shows "well_typed (sv_codec S) (view (st_db st))
    \<and> fjall_get S st b k = Inr (abs_entry (sv_codec S) (view (st_db st)) b k)"
proof -
  have fs: "fjall_store S view valid" using assms(1) by (simp add: fjall_backend_def)
  have "well_typed (sv_codec S) (view (st_db st0))" using assms(4) by (simp add: well_typed_def)
  then have t: "well_typed (sv_codec S) (view (st_db st))"
    by (rule fjall_backend.server_reachable_typed [OF assms(1,5,2,3) fjall_backend.empty_inv [OF assms(1,4)]])
  obtain r where "fj_get (sv_fjall S) (st_db st) DATA_KEYSPACE (data_storage_key b k) = Inr r"
    using assms(3) unfolding reliable_def by blast
  from t fjall_store.well_typed_get [OF fs t this] show ?thesis by blast
qed

lemma stored_data_well_typed_example:
  "\<exists>st. server_reachable mem_env time_valid demo_lib demo_axum demo_app default_router_options mem_store st
     \<and> st \<noteq> mem_store \<and> well_typed wire_codec (mem_view (st_db st))"
proof -
  obtain st where r: "server_reachable mem_env time_valid demo_lib demo_axum demo_app default_router_options mem_store st"
    and "st \<noteq> mem_store" by (rule demo_reachable)
  then show ?thesis
    using stored_data_well_typed [OF mem_backend.fjall_backend_axioms demo_wired mem_reliable mem_store_empty r] by auto
qed

end
